(* ===== verification/Prelude.thy ===== *)
theory Prelude
  imports Complex_Main "HOL-Library.Char_ord" "HOL-Library.List_Lexorder"
    "HOL-Library.Product_Lexorder" "HOL-Library.Sublist"
begin

section \<open>Shared vocabulary of the development\<close>

text \<open>
  What every component uses: results that may be an exception (\<open>'e + 'a\<close>, the exception on
  the left), effects as state transformers that may raise, Python's \<open>max\<close>/\<open>min\<close> with a key,
  the string methods the code calls, and dictionaries that keep their insertion order.
  Python strings are modelled as \<open>string\<close>, a list of characters with code points below 256.
\<close>

named_theorems str_simps \<open>rewriting the string methods\<close>
named_theorems dict_simps \<open>lookups in insertion-ordered dictionaries\<close>
named_theorems act_simps \<open>running effectful actions\<close>

subsection \<open>Results: a value or an exception\<close>

definition bindR :: "'e + 'a \<Rightarrow> ('a \<Rightarrow> 'e + 'b) \<Rightarrow> 'e + 'b" where
  "bindR m f = (case m of Inl e \<Rightarrow> Inl e | Inr x \<Rightarrow> f x)"

lemma bindR_Inl [simp]: "bindR (Inl e) f = Inl e"
  by (simp add: bindR_def)

lemma bindR_Inr [simp]: "bindR (Inr x) f = f x"
  by (simp add: bindR_def)

lemma bindR_eq_Inr: "bindR m f = Inr y \<longleftrightarrow> (\<exists>x. m = Inr x \<and> f x = Inr y)"
  by (cases m) auto

lemma bindR_eq_Inl: "bindR m f = Inl e \<longleftrightarrow> m = Inl e \<or> (\<exists>x. m = Inr x \<and> f x = Inl e)"
  by (cases m) auto

lemma bindR_cong [fundef_cong]:
  "m = m' \<Longrightarrow> (\<And>x. m' = Inr x \<Longrightarrow> f x = f' x) \<Longrightarrow> bindR m f = bindR m' f'"
  by (cases m') auto

lemma bindR_assoc: "bindR (bindR m f) g = bindR m (\<lambda>x. bindR (f x) g)"
  by (cases m) auto

text \<open>A list comprehension or a \<open>for\<close> loop that appends: the first exception stops it.\<close>

fun mapR :: "('a \<Rightarrow> 'e + 'b) \<Rightarrow> 'a list \<Rightarrow> 'e + 'b list" where
  "mapR f [] = Inr []"
| "mapR f (x # xs) = bindR (f x) (\<lambda>y. bindR (mapR f xs) (\<lambda>ys. Inr (y # ys)))"

lemma mapR_cong [fundef_cong]:
  "xs = xs' \<Longrightarrow> (\<And>x. x \<in> set xs' \<Longrightarrow> f x = f' x) \<Longrightarrow> mapR f xs = mapR f' xs'"
  by (induction xs arbitrary: xs') (auto intro!: bindR_cong)

lemma mapR_eq_Inr: "mapR f xs = Inr ys \<longleftrightarrow> list_all2 (\<lambda>x y. f x = Inr y) xs ys"
  by (induction xs arbitrary: ys) (auto simp: bindR_eq_Inr list_all2_Cons1)

lemma mapR_length: "mapR f xs = Inr ys \<Longrightarrow> length ys = length xs"
  by (auto simp: mapR_eq_Inr dest: list_all2_lengthD)

lemma mapR_total: "(\<And>x. x \<in> set xs \<Longrightarrow> f x = Inr (g x)) \<Longrightarrow> mapR f xs = Inr (map g xs)"
  by (induction xs) auto

lemma mapR_set_Inr:
  assumes "mapR f xs = Inr ys" and "y \<in> set ys"
  shows "\<exists>x \<in> set xs. f x = Inr y"
proof -
  obtain i where i: "i < length ys" "y = ys ! i" using assms(2) by (auto simp: in_set_conv_nth)
  have *: "list_all2 (\<lambda>x y. f x = Inr y) xs ys" using assms(1) by (simp add: mapR_eq_Inr)
  have "f (xs ! i) = Inr y" using list_all2_nthD2 [OF * i(1)] i(2) by simp
  moreover have "xs ! i \<in> set xs" using i(1) list_all2_lengthD [OF *] by simp
  ultimately show ?thesis by blast
qed

lemma mapR_eq_Inl: "mapR f xs = Inl e \<Longrightarrow> \<exists>x \<in> set xs. f x = Inl e"
  by (induction xs) (auto simp: bindR_eq_Inl)

text \<open>A loop that extends its result by a list for each element.\<close>

definition concatR :: "('a \<Rightarrow> 'e + 'b list) \<Rightarrow> 'a list \<Rightarrow> 'e + 'b list" where
  "concatR f xs = bindR (mapR f xs) (\<lambda>yss. Inr (concat yss))"

subsection \<open>Effects: state transformers that may raise\<close>

text \<open>
  An action takes the state and returns a result together with the state it leaves; the state
  changes made before an exception stay, as they do in Python.
\<close>

type_synonym ('s, 'e, 'a) act = "'s \<Rightarrow> ('e + 'a) \<times> 's"

definition returnM :: "'a \<Rightarrow> ('s, 'e, 'a) act" where
  "returnM x = (\<lambda>s. (Inr x, s))"

definition raiseM :: "'e \<Rightarrow> ('s, 'e, 'a) act" where
  "raiseM e = (\<lambda>s. (Inl e, s))"

definition liftR :: "'e + 'a \<Rightarrow> ('s, 'e, 'a) act" where
  "liftR r = (\<lambda>s. (r, s))"

definition getsM :: "('s \<Rightarrow> 'a) \<Rightarrow> ('s, 'e, 'a) act" where
  "getsM f = (\<lambda>s. (Inr (f s), s))"

definition modifyM :: "('s \<Rightarrow> 's) \<Rightarrow> ('s, 'e, unit) act" where
  "modifyM f = (\<lambda>s. (Inr (), f s))"

definition bindM :: "('s, 'e, 'a) act \<Rightarrow> ('a \<Rightarrow> ('s, 'e, 'b) act) \<Rightarrow> ('s, 'e, 'b) act" where
  "bindM m f = (\<lambda>s. case m s of (Inl e, s') \<Rightarrow> (Inl e, s') | (Inr x, s') \<Rightarrow> f x s')"

definition catchM :: "('s, 'e, 'a) act \<Rightarrow> ('e \<Rightarrow> ('s, 'e, 'a) act) \<Rightarrow> ('s, 'e, 'a) act" where
  "catchM m h = (\<lambda>s. case m s of (Inl e, s') \<Rightarrow> h e s' | (Inr x, s') \<Rightarrow> (Inr x, s'))"

lemma returnM_run [simp, act_simps]: "returnM x s = (Inr x, s)"
  by (simp add: returnM_def)

lemma raiseM_run [simp, act_simps]: "raiseM e s = (Inl e, s)"
  by (simp add: raiseM_def)

lemma liftR_run [simp, act_simps]: "liftR r s = (r, s)"
  by (simp add: liftR_def)

lemma getsM_run [simp, act_simps]: "getsM f s = (Inr (f s), s)"
  by (simp add: getsM_def)

lemma modifyM_run [simp, act_simps]: "modifyM f s = (Inr (), f s)"
  by (simp add: modifyM_def)

lemma bindM_raise [simp, act_simps]: "m s = (Inl e, s') \<Longrightarrow> bindM m f s = (Inl e, s')"
  by (simp add: bindM_def)

lemma bindM_value [simp, act_simps]: "m s = (Inr x, s') \<Longrightarrow> bindM m f s = f x s'"
  by (simp add: bindM_def)

lemma bindM_eq:
  "bindM m f s = (r, s') \<longleftrightarrow>
     (\<exists>e. m s = (Inl e, s') \<and> r = Inl e) \<or> (\<exists>x t. m s = (Inr x, t) \<and> f x t = (r, s'))"
  by (cases "m s") (auto simp: bindM_def split: sum.splits)

lemma bindM_Inr:
  "bindM m f s = (Inr y, s') \<longleftrightarrow> (\<exists>x t. m s = (Inr x, t) \<and> f x t = (Inr y, s'))"
  by (auto simp: bindM_eq)

lemma catchM_raise [simp, act_simps]: "m s = (Inl e, s') \<Longrightarrow> catchM m h s = h e s'"
  by (simp add: catchM_def)

lemma catchM_value [simp, act_simps]: "m s = (Inr x, s') \<Longrightarrow> catchM m h s = (Inr x, s')"
  by (simp add: catchM_def)

subsection \<open>Python's max and min with a key\<close>

text \<open>
  Both scan from the left and keep the first element that attains the extreme key.
\<close>

fun py_max_by :: "('a \<Rightarrow> 'k::linorder) \<Rightarrow> 'a \<Rightarrow> 'a list \<Rightarrow> 'a" where
  "py_max_by k m [] = m"
| "py_max_by k m (x # xs) = py_max_by k (if k m < k x then x else m) xs"

fun py_min_by :: "('a \<Rightarrow> 'k::linorder) \<Rightarrow> 'a \<Rightarrow> 'a list \<Rightarrow> 'a" where
  "py_min_by k m [] = m"
| "py_min_by k m (x # xs) = py_min_by k (if k x < k m then x else m) xs"

lemma py_max_by_in: "py_max_by k m xs \<in> set (m # xs)"
proof (induction xs arbitrary: m)
  case Nil
  then show ?case by simp
next
  case (Cons x xs)
  show ?case using Cons [of "if k m < k x then x else m"] by (auto split: if_splits)
qed

lemma py_max_by_ge: "x \<in> set (m # xs) \<Longrightarrow> k x \<le> k (py_max_by k m xs)"
proof (induction xs arbitrary: m x)
  case Nil
  then show ?case by simp
next
  case (Cons y ys)
  let ?m = "if k m < k y then y else m"
  have "k ?m \<le> k (py_max_by k ?m ys)" by (rule Cons.IH) simp
  moreover have "k m \<le> k ?m" "k y \<le> k ?m" by auto
  ultimately show ?case
    using Cons.prems Cons.IH [of x ?m] by (auto intro: order_trans)
qed

text \<open>The first of the elements with the largest key, which decides between equal priorities.\<close>

lemma py_max_by_first:
  "\<exists>us vs. m # xs = us @ py_max_by k m xs # vs \<and> (\<forall>u \<in> set us. k u < k (py_max_by k m xs))"
proof (induction xs arbitrary: m)
  case Nil
  show ?case by (intro exI [of _ "[]"]) simp
next
  case (Cons y ys)
  show ?case
  proof (cases "k m < k y")
    case True
    then obtain us vs where uv: "y # ys = us @ py_max_by k y ys # vs"
      "\<forall>u \<in> set us. k u < k (py_max_by k y ys)"
      using Cons.IH by blast
    have eq: "py_max_by k m (y # ys) = py_max_by k y ys" using True by simp
    have "k y \<le> k (py_max_by k y ys)" by (rule py_max_by_ge) simp
    with True have "k m < k (py_max_by k y ys)" by simp
    with uv(2) have "\<forall>u \<in> set (m # us). k u < k (py_max_by k y ys)" by simp
    moreover have "m # y # ys = (m # us) @ py_max_by k y ys # vs" using uv(1) by simp
    ultimately show ?thesis unfolding eq by blast
  next
    case False
    then obtain us vs where uv: "m # ys = us @ py_max_by k m ys # vs"
      "\<forall>u \<in> set us. k u < k (py_max_by k m ys)"
      using Cons.IH by blast
    have eq: "py_max_by k m (y # ys) = py_max_by k m ys" using False by simp
    show ?thesis
    proof (cases us)
      case Nil
      then have "py_max_by k m ys = m" using uv(1) by (metis append_Nil list.inject)
      then have "m # y # ys = [] @ py_max_by k m ys # (y # ys)" by simp
      then show ?thesis unfolding eq by fastforce
    next
      case (Cons u us')
      then have e: "m # ys = u # (us' @ py_max_by k m ys # vs)"
        using uv(1) by (simp only: append_Cons)
      have m: "m = u" and "ys = us' @ py_max_by k m ys # vs"
        by (rule list.inject [THEN iffD1, OF e, THEN conjunct1],
          rule list.inject [THEN iffD1, OF e, THEN conjunct2])
      then have "m # y # ys = (m # y # us') @ py_max_by k m ys # vs" by (metis append_Cons)
      moreover have "\<forall>u \<in> set (m # y # us'). k u < k (py_max_by k m ys)"
        using uv(2) Cons m False by auto
      ultimately show ?thesis unfolding eq by blast
    qed
  qed
qed

lemma py_min_by_in: "py_min_by k m xs \<in> set (m # xs)"
proof (induction xs arbitrary: m)
  case Nil
  then show ?case by simp
next
  case (Cons x xs)
  show ?case using Cons [of "if k x < k m then x else m"] by (auto split: if_splits)
qed

lemma py_min_by_le: "x \<in> set (m # xs) \<Longrightarrow> k (py_min_by k m xs) \<le> k x"
proof (induction xs arbitrary: m x)
  case Nil
  then show ?case by simp
next
  case (Cons y ys)
  let ?m = "if k y < k m then y else m"
  have "k (py_min_by k ?m ys) \<le> k ?m" by (rule Cons.IH) simp
  moreover have "k ?m \<le> k m" "k ?m \<le> k y" by auto
  ultimately show ?case
    using Cons.prems Cons.IH [of x ?m] by (auto intro: order_trans)
qed

text \<open>With a key that tells all elements apart, the choice does not depend on their order.\<close>

lemma py_min_by_unique:
  assumes "set (m # xs) = set (m' # xs')" and "inj_on k (set (m # xs))"
  shows "py_min_by k m xs = py_min_by k m' xs'"
proof -
  let ?a = "py_min_by k m xs" and ?b = "py_min_by k m' xs'"
  have ab: "?a \<in> set (m # xs)" "?b \<in> set (m # xs)"
    by (rule py_min_by_in) (subst assms(1), rule py_min_by_in)
  have "k ?a \<le> k ?b" by (rule py_min_by_le [OF ab(2)])
  moreover have "k ?b \<le> k ?a"
    by (rule py_min_by_le) (subst assms(1) [symmetric], rule ab(1))
  ultimately have "k ?a = k ?b" by simp
  from inj_onD [OF assms(2) this ab] show ?thesis .
qed

subsection \<open>String methods\<close>

definition py_isspace :: "char \<Rightarrow> bool" where
  "py_isspace c \<longleftrightarrow> of_char c \<in> set [9, 10, 11, 12, 13, 28, 29, 30, 31, 32, 133, 160 :: nat]"

definition py_lstrip :: "string \<Rightarrow> string" where
  "py_lstrip s = dropWhile py_isspace s"

definition py_strip :: "string \<Rightarrow> string" where
  "py_strip s = rev (py_lstrip (rev (py_lstrip s)))"

text \<open>
  \<open>str.lower\<close> and \<open>str.isalnum\<close> on code points below 256: capitals are ASCII or
  U+00C0 to U+00DE but the multiplication sign; letters and numbers include the ordinals, the
  micro sign, superscripts and fractions.
\<close>

definition lower_char :: "char \<Rightarrow> char" where
  "lower_char c = (let n = of_char c :: nat in
     if (65 \<le> n \<and> n \<le> 90) \<or> (192 \<le> n \<and> n \<le> 222 \<and> n \<noteq> 215) then char_of (n + 32) else c)"

definition py_lower :: "string \<Rightarrow> string" where
  "py_lower s = map lower_char s"

definition alnum_char :: "char \<Rightarrow> bool" where
  "alnum_char c \<longleftrightarrow> (let n = of_char c :: nat in
     (48 \<le> n \<and> n \<le> 57) \<or> (65 \<le> n \<and> n \<le> 90) \<or> (97 \<le> n \<and> n \<le> 122) \<or>
     n \<in> set [170, 178, 179, 181, 185, 186, 188, 189, 190] \<or> (192 \<le> n \<and> n \<noteq> 215 \<and> n \<noteq> 247))"

definition py_startswith :: "string \<Rightarrow> string \<Rightarrow> bool" where
  "py_startswith s p \<longleftrightarrow> take (length p) s = p"

definition py_removeprefix :: "string \<Rightarrow> string \<Rightarrow> string" where
  "py_removeprefix s p = (if py_startswith s p then drop (length p) s else s)"

text \<open>\<open>s.partition(c)\<close> for a one-character separator.\<close>

definition py_partition :: "char \<Rightarrow> string \<Rightarrow> string \<times> string \<times> string" where
  "py_partition c s =
     (if c \<in> set s
      then (takeWhile (\<lambda>x. x \<noteq> c) s, [c], tl (dropWhile (\<lambda>x. x \<noteq> c) s))
      else (s, [], []))"

text \<open>\<open>s.rsplit(c, 1)[-1]\<close>: what follows the last \<open>c\<close>, or the whole string.\<close>

definition py_after_last :: "char \<Rightarrow> string \<Rightarrow> string" where
  "py_after_last c s = rev (takeWhile (\<lambda>x. x \<noteq> c) (rev s))"

text \<open>\<open>s.split(c)\<close> for a one-character separator and \<open>sep.join(xs)\<close>.\<close>

fun py_split :: "char \<Rightarrow> string \<Rightarrow> string list" where
  "py_split c [] = [[]]"
| "py_split c (x # s) =
     (if x = c then [] # py_split c s
      else (case py_split c s of [] \<Rightarrow> [[x]] | p # ps \<Rightarrow> (x # p) # ps))"

fun py_join :: "string \<Rightarrow> string list \<Rightarrow> string" where
  "py_join sep [] = []"
| "py_join sep [p] = p"
| "py_join sep (p # q # ps) = p @ sep @ py_join sep (q # ps)"

lemma py_lstrip_head: "py_lstrip s = [] \<or> \<not> py_isspace (hd (py_lstrip s))"
  by (metis hd_dropWhile py_lstrip_def)

lemma py_lstrip_id: "s = [] \<or> \<not> py_isspace (hd s) \<Longrightarrow> py_lstrip s = s"
  by (cases s) (auto simp: py_lstrip_def)

lemma py_strip_no_space: "(\<forall>c \<in> set s. \<not> py_isspace c) \<Longrightarrow> py_strip s = s"
proof -
  assume a: "\<forall>c \<in> set s. \<not> py_isspace c"
  have "py_lstrip s = s" using a by (cases s) (auto simp: py_lstrip_def)
  moreover have "py_lstrip (rev s) = rev s"
    by (rule py_lstrip_id) (use a in \<open>cases "rev s"; auto simp: rev_eq_Cons_iff\<close>)
  ultimately show ?thesis by (simp add: py_strip_def)
qed

lemma py_strip_set: "set (py_strip s) \<subseteq> set s"
  unfolding py_strip_def py_lstrip_def by (auto dest!: set_dropWhileD)

lemma py_strip_empty: "py_strip s = [] \<longleftrightarrow> (\<forall>c \<in> set s. py_isspace c)"
proof
  assume "py_strip s = []"
  then have "\<forall>c \<in> set (rev (py_lstrip s)). py_isspace c"
    by (simp add: py_strip_def py_lstrip_def)
  then have "py_lstrip s = []" using py_lstrip_head [of s]
    by (cases "py_lstrip s") auto
  then show "\<forall>c \<in> set s. py_isspace c" by (simp add: py_lstrip_def)
next
  assume "\<forall>c \<in> set s. py_isspace c"
  then have "py_lstrip s = []" by (simp add: py_lstrip_def)
  then show "py_strip s = []" by (simp add: py_strip_def) (simp add: py_lstrip_def)
qed

lemma py_startswith_append [simp, str_simps]: "py_startswith (p @ s) p"
  by (simp add: py_startswith_def)

lemma py_startswith_iff: "py_startswith s p \<longleftrightarrow> (\<exists>t. s = p @ t)"
  by (metis append_eq_conv_conj append_take_drop_id py_startswith_def)

lemma py_removeprefix_append [simp, str_simps]: "py_removeprefix (p @ s) p = s"
  by (simp add: py_removeprefix_def)

lemma takeWhile_upto: "c \<notin> set a \<Longrightarrow> takeWhile (\<lambda>x. x \<noteq> c) (a @ c # b) = a"
  by (induction a) auto

lemma dropWhile_upto: "c \<notin> set a \<Longrightarrow> dropWhile (\<lambda>x. x \<noteq> c) (a @ c # b) = c # b"
  by (induction a) auto

lemma py_partition_found [str_simps]:
  "c \<notin> set a \<Longrightarrow> py_partition c (a @ c # b) = (a, [c], b)"
  by (simp add: py_partition_def takeWhile_upto dropWhile_upto)

lemma py_after_last_found [str_simps]: "c \<notin> set b \<Longrightarrow> py_after_last c (a @ c # b) = b"
  by (simp add: py_after_last_def takeWhile_upto)

lemma py_after_last_none: "c \<notin> set s \<Longrightarrow> py_after_last c s = s"
proof -
  assume "c \<notin> set s"
  then have "takeWhile (\<lambda>x. x \<noteq> c) (rev s) = rev s"
    by (intro takeWhile_eq_all_conv [THEN iffD2]) auto
  then show ?thesis by (simp only: py_after_last_def rev_rev_ident)
qed

lemma py_split_nonempty: "py_split c s \<noteq> []"
  by (cases s) (auto split: list.splits)

lemma py_split_no_sep: "p \<in> set (py_split c s) \<Longrightarrow> c \<notin> set p"
  by (induction s arbitrary: p) (auto split: if_splits list.splits)

lemma py_join_split: "py_join [c] (py_split c s) = s"
proof (induction s)
  case Nil
  then show ?case by simp
next
  case (Cons x s)
  obtain p ps where p: "py_split c s = p # ps"
    using py_split_nonempty by (cases "py_split c s") auto
  from Cons show ?case by (cases ps) (auto simp: p)
qed

lemma py_split_no_sep_id: "c \<notin> set s \<Longrightarrow> py_split c s = [s]"
  by (induction s) auto

lemma py_split_append: "c \<notin> set p \<Longrightarrow> py_split c (p @ c # s) = p # py_split c s"
  by (induction p) auto

subsection \<open>Decimal numerals\<close>

definition digit_char :: "int \<Rightarrow> char" where
  "digit_char d = char_of (nat (48 + d))"

fun int_digits :: "int \<Rightarrow> int list" where
  "int_digits n = (if n < 10 then [n] else int_digits (n div 10) @ [n mod 10])"

declare int_digits.simps [simp del]

definition py_str_int :: "int \<Rightarrow> string" where
  "py_str_int i =
     (if i < 0 then CHR ''-'' # map digit_char (int_digits (- i)) else map digit_char (int_digits i))"

lemma int_digits_bound: "0 \<le> n \<Longrightarrow> d \<in> set (int_digits n) \<Longrightarrow> 0 \<le> d \<and> d < 10"
proof (induction n rule: int_digits.induct)
  case (1 n)
  then show ?case
    by (cases "n < 10") (auto simp: int_digits.simps [of n])
qed

lemma int_digits_nonempty: "int_digits n \<noteq> []"
  by (subst int_digits.simps) simp

definition digits_value :: "int list \<Rightarrow> int" where
  "digits_value ds = foldl (\<lambda>a d. 10 * a + d) 0 ds"

lemma digits_value_snoc: "digits_value (ds @ [d]) = 10 * digits_value ds + d"
  by (simp add: digits_value_def)

lemma digits_value_int_digits: "digits_value (int_digits n) = n"
proof (induction n rule: int_digits.induct)
  case (1 n)
  show ?case
  proof (cases "n < 10")
    case True
    then show ?thesis by (simp add: int_digits.simps [of n] digits_value_def)
  next
    case False
    then show ?thesis using 1 by (simp add: int_digits.simps [of n] digits_value_snoc)
  qed
qed

lemma of_char_digit_char: "0 \<le> d \<Longrightarrow> d < 10 \<Longrightarrow> (of_char (digit_char d) :: nat) = nat (48 + d)"
  by (simp add: digit_char_def)

subsection \<open>Dictionaries\<close>

text \<open>
  A Python dict keeps its keys in insertion order. It is an association list with distinct
  keys; assigning to an existing key keeps the key's place, a new key goes last.
\<close>

type_synonym ('k, 'v) pydict = "('k \<times> 'v) list"

fun dset :: "'k \<Rightarrow> 'v \<Rightarrow> ('k, 'v) pydict \<Rightarrow> ('k, 'v) pydict" where
  "dset k v [] = [(k, v)]"
| "dset k v ((k', v') # d) = (if k' = k then (k, v) # d else (k', v') # dset k v d)"

definition ddel :: "'k \<Rightarrow> ('k, 'v) pydict \<Rightarrow> ('k, 'v) pydict" where
  "ddel k d = filter (\<lambda>(k', _). k' \<noteq> k) d"

definition dkeys :: "('k, 'v) pydict \<Rightarrow> 'k set" where
  "dkeys d = fst ` set d"

definition setdefault :: "'k \<Rightarrow> 'v \<Rightarrow> ('k, 'v) pydict \<Rightarrow> ('k, 'v) pydict" where
  "setdefault k v d = (case map_of d k of None \<Rightarrow> d @ [(k, v)] | Some _ \<Rightarrow> d)"

lemma map_of_dset [simp, dict_simps]: "map_of (dset k v d) = (map_of d)(k \<mapsto> v)"
  by (induction k v d rule: dset.induct) (auto simp: fun_eq_iff)

lemma map_of_ddel [simp, dict_simps]: "map_of (ddel k d) = (map_of d)(k := None)"
  by (induction d) (auto simp: ddel_def fun_eq_iff)

lemma dkeys_dset [dict_simps]: "dkeys (dset k v d) = insert k (dkeys d)"
  by (induction k v d rule: dset.induct) (auto simp: dkeys_def)

lemma distinct_dset: "distinct (map fst d) \<Longrightarrow> distinct (map fst (dset k v d))"
proof (induction k v d rule: dset.induct)
  case (2 k v k' v' d)
  then show ?case using dkeys_dset [of k v d] by (auto simp: dkeys_def)
qed simp

lemma map_of_setdefault [dict_simps]:
  "map_of (setdefault k v d) = (case map_of d k of None \<Rightarrow> (map_of d)(k \<mapsto> v) | Some _ \<Rightarrow> map_of d)"
  by (auto simp: setdefault_def map_add_def fun_eq_iff split: option.splits)

lemma setdefault_idem [simp, dict_simps]: "setdefault k v (setdefault k v d) = setdefault k v d"
  by (auto simp: setdefault_def map_add_def split: option.splits)

end
