(* ===== verification/PyFloat.thy ===== *)
theory PyFloat
  imports Prelude
begin

section \<open>Python floats: IEEE 754 binary64\<close>

text \<open>
  The quota engine computes limits and costs in floats. A float is a rational that lies on the
  binary64 grid, one of the infinities, or NaN; the two zeros are one value, since nothing in
  the code tells them apart. Arithmetic is exact rational arithmetic followed by
  \<open>fl\<close>, round-to-nearest-even on the binary64 grid, subnormals and overflow included.
  The lemmas show that rounding is monotone and leaves grid points alone, which is what the
  comparisons of the quota engine rest on.
\<close>

subsection \<open>Powers of two and the binary exponent\<close>

definition pow2 :: "int \<Rightarrow> rat" where
  "pow2 e = (if 0 \<le> e then 2 ^ nat e else 1 / 2 ^ nat (- e))"

lemma pow2_powi: "pow2 e = 2 powi e"
  by (simp add: pow2_def power_int_def field_simps power_one_over)

lemma pow2_pos [simp]: "0 < pow2 e"
  by (simp add: pow2_powi)

lemma pow2_nonneg [simp]: "0 \<le> pow2 e"
  by (simp add: less_imp_le)

lemma pow2_neq0 [simp]: "pow2 e \<noteq> 0"
  by (metis less_irrefl pow2_pos)

lemma pow2_add: "pow2 (a + b) = pow2 a * pow2 b"
  by (simp add: pow2_powi power_int_add)

lemma pow2_diff: "pow2 (a - b) = pow2 a / pow2 b"
  by (simp add: pow2_powi power_int_diff)

lemma pow2_mono: "a \<le> b \<Longrightarrow> pow2 a \<le> pow2 b"
  by (simp add: pow2_powi power_int_increasing)

lemma pow2_less_iff: "pow2 a < pow2 b \<longleftrightarrow> a < b"
  by (metis leD leI le_less pow2_mono pow2_powi power_int_strict_increasing
      numeral_One numeral_less_iff semiring_norm(76))

lemma pow2_int: "0 \<le> e \<Longrightarrow> pow2 e = of_int (2 ^ nat e)"
  by (simp add: pow2_def)

fun nlog2 :: "int \<Rightarrow> nat" where
  "nlog2 n = (if n < 2 then 0 else Suc (nlog2 (n div 2)))"

declare nlog2.simps [simp del]

lemma nlog2_bounds: "0 < n \<Longrightarrow> 2 ^ nlog2 n \<le> n \<and> n < 2 ^ Suc (nlog2 n)"
proof (induction n rule: nlog2.induct)
  case (1 n)
  show ?case
  proof (cases "n < 2")
    case True
    with 1 show ?thesis by (simp add: nlog2.simps [of n])
  next
    case False
    define k where "k = (2::int) ^ nlog2 (n div 2)"
    have "k \<le> n div 2 \<and> n div 2 < 2 * k"
      using 1 False by (simp add: k_def)
    then have "2 * k \<le> n \<and> n < 4 * k" by linarith
    with False show ?thesis by (simp add: nlog2.simps [of n] k_def)
  qed
qed

lemma nlog2_rat:
  assumes "0 < p"
  shows "(2::rat) ^ nlog2 p \<le> of_int p" and "of_int p < (2::rat) ^ Suc (nlog2 p)"
proof -
  have b: "2 ^ nlog2 p \<le> p" "p < 2 ^ Suc (nlog2 p)" using nlog2_bounds [OF assms] by auto
  from b(1) have "(of_int (2 ^ nlog2 p) :: rat) \<le> of_int p" by (simp only: of_int_le_iff)
  then show "(2::rat) ^ nlog2 p \<le> of_int p" by simp
  from b(2) have "(of_int p :: rat) < of_int (2 ^ Suc (nlog2 p))" by (simp only: of_int_less_iff)
  then show "of_int p < (2::rat) ^ Suc (nlog2 p)" by simp
qed

text \<open>The exponent \<open>e\<close> with \<open>2 ^ e \<le> x < 2 ^ (e + 1)\<close>, for positive \<open>x\<close>.\<close>

definition ilog2 :: "rat \<Rightarrow> int" where
  "ilog2 x =
     (let (p, q) = quotient_of x; e = int (nlog2 p) - int (nlog2 q)
      in if pow2 e \<le> x then e else e - 1)"

lemma ilog2_bounds:
  assumes "0 < x"
  shows "pow2 (ilog2 x) \<le> x" and "x < pow2 (ilog2 x + 1)"
proof -
  obtain p q where pq: "quotient_of x = (p, q)" by fastforce
  have q: "0 < q" using quotient_of_denom_pos [OF pq] .
  have x: "x = of_int p / of_int q" by (rule quotient_of_div [OF pq])
  have p: "0 < p" using assms q by (simp add: x zero_less_divide_iff)
  define lp lq where "lp = nlog2 p" and "lq = nlog2 q"
  define e where "e = int lp - int lq"
  note P = nlog2_rat [OF p, folded lp_def] and Q = nlog2_rat [OF q, folded lq_def]
  have pw: "pow2 (int n) = 2 ^ n" for n by (simp add: pow2_def)
  have up: "x < pow2 (e + 1)"
  proof -
    have "x < 2 ^ Suc lp / 2 ^ lq"
      unfolding x by (rule frac_less) (use P Q p in auto)
    also have "\<dots> = pow2 (int (Suc lp) - int lq)" by (simp only: pow2_diff pw)
    also have "int (Suc lp) - int lq = e + 1" by (simp add: e_def)
    finally show ?thesis .
  qed
  have lo: "pow2 (e - 1) \<le> x"
  proof -
    have "e - 1 = int lp - int (Suc lq)" by (simp add: e_def)
    then have "pow2 (e - 1) = 2 ^ lp / 2 ^ Suc lq" by (simp only: pow2_diff pw)
    also have "\<dots> \<le> x"
      unfolding x by (rule frac_le) (use P Q p q in auto)
    finally show ?thesis .
  qed
  have il: "ilog2 x = (if pow2 e \<le> x then e else e - 1)"
    by (simp add: ilog2_def pq e_def lp_def lq_def Let_def)
  show "pow2 (ilog2 x) \<le> x" using lo by (simp add: il)
  show "x < pow2 (ilog2 x + 1)" using up by (simp add: il)
qed

lemma ilog2_mono:
  assumes "0 < x" and "x \<le> y"
  shows "ilog2 x \<le> ilog2 y"
proof -
  have "pow2 (ilog2 x) \<le> x" by (rule ilog2_bounds(1) [OF assms(1)])
  also have "x \<le> y" by (rule assms(2))
  also have "y < pow2 (ilog2 y + 1)" by (rule ilog2_bounds(2)) (use assms in simp)
  finally show ?thesis by (simp add: pow2_less_iff)
qed

lemma ilog2_unique:
  assumes "pow2 e \<le> x" and "x < pow2 (e + 1)"
  shows "ilog2 x = e"
proof -
  have x: "0 < x" using pow2_pos [of e] assms(1) by linarith
  have "pow2 (ilog2 x) < pow2 (e + 1)" using ilog2_bounds(1) [OF x] assms(2) by linarith
  moreover have "pow2 e < pow2 (ilog2 x + 1)" using ilog2_bounds(2) [OF x] assms(1) by linarith
  ultimately show ?thesis by (simp add: pow2_less_iff)
qed

subsection \<open>Round half to even\<close>

definition rhe :: "rat \<Rightarrow> int" where
  "rhe x =
     (let f = \<lfloor>x\<rfloor>; d = x - of_int f
      in if d < 1 / 2 then f else if 1 / 2 < d then f + 1 else if even f then f else f + 1)"

lemma rhe_of_int [simp]: "rhe (of_int n) = n"
  by (simp add: rhe_def)

lemma rhe_near: "\<bar>of_int (rhe x) - x\<bar> \<le> 1 / 2"
proof -
  have "of_int \<lfloor>x\<rfloor> \<le> x" "x < of_int \<lfloor>x\<rfloor> + 1" by linarith+
  then show ?thesis by (auto simp: rhe_def Let_def abs_le_iff)
qed

lemma rhe_mono:
  assumes "x \<le> y"
  shows "rhe x \<le> rhe y"
proof (cases "\<lfloor>x\<rfloor> = \<lfloor>y\<rfloor>")
  case True
  with assms show ?thesis by (auto simp: rhe_def Let_def)
next
  case False
  with assms have "\<lfloor>x\<rfloor> + 1 \<le> \<lfloor>y\<rfloor>" using floor_mono [OF assms] by linarith
  moreover have "rhe x \<le> \<lfloor>x\<rfloor> + 1" "\<lfloor>y\<rfloor> \<le> rhe y" by (auto simp: rhe_def Let_def)
  ultimately show ?thesis by linarith
qed

lemma rhe_uminus: "rhe (- x) = - rhe x"
proof (cases "x = of_int \<lfloor>x\<rfloor>")
  case True
  then show ?thesis by (metis of_int_minus rhe_of_int)
next
  case False
  have f: "of_int \<lfloor>x\<rfloor> < x" "x < of_int \<lfloor>x\<rfloor> + 1" using False by linarith+
  have "\<lfloor>- x\<rfloor> = - \<lfloor>x\<rfloor> - 1" using f by (intro floor_unique) auto
  then show ?thesis using f by (auto simp: rhe_def Let_def)
qed

lemma rhe_0 [simp]: "rhe 0 = 0"
  using rhe_of_int [of 0] by simp

subsection \<open>The binary64 grid\<close>

text \<open>
  The spacing of the grid at \<open>x\<close>: 53 significant bits, but never finer than the subnormal
  spacing \<open>2 ^ -1074\<close>.
\<close>

definition fl_exp :: "rat \<Rightarrow> int" where
  "fl_exp x = max (ilog2 \<bar>x\<bar> - 52) (- 1074)"

definition fl_grid :: "rat \<Rightarrow> rat" where
  "fl_grid x = (if x = 0 then 0 else of_int (rhe (x / pow2 (fl_exp x))) * pow2 (fl_exp x))"

lemma fl_grid_0 [simp]: "fl_grid 0 = 0"
  by (simp add: fl_grid_def)

lemma fl_grid_uminus: "fl_grid (- x) = - fl_grid x"
  by (simp add: fl_grid_def fl_exp_def rhe_uminus flip: minus_divide_left)

lemma fl_grid_nonneg: "0 \<le> x \<Longrightarrow> 0 \<le> fl_grid x"
  using rhe_mono [of 0 "x / pow2 (fl_exp x)"] by (auto simp: fl_grid_def)

text \<open>Rounding never crosses a multiple of the spacing, and keeps one.\<close>

lemma fl_grid_le:
  assumes "x \<le> of_int n * pow2 (fl_exp x)"
  shows "fl_grid x \<le> of_int n * pow2 (fl_exp x)"
proof -
  define f where "f = fl_exp x"
  have "x / pow2 f \<le> of_int n" using assms by (simp add: f_def divide_le_eq)
  then have "rhe (x / pow2 f) \<le> n" using rhe_mono [of "x / pow2 f" "of_int n"] by simp
  then have "of_int (rhe (x / pow2 f)) * pow2 f \<le> of_int n * pow2 f"
    by (intro mult_right_mono) auto
  then show ?thesis using assms by (auto simp: fl_grid_def f_def)
qed

lemma fl_grid_ge:
  assumes "of_int n * pow2 (fl_exp x) \<le> x"
  shows "of_int n * pow2 (fl_exp x) \<le> fl_grid x"
proof -
  define f where "f = fl_exp x"
  have "of_int n \<le> x / pow2 f" using assms by (simp add: f_def le_divide_eq)
  then have "n \<le> rhe (x / pow2 f)" using rhe_mono [of "of_int n" "x / pow2 f"] by simp
  then have "of_int n * pow2 f \<le> of_int (rhe (x / pow2 f)) * pow2 f"
    by (intro mult_right_mono) auto
  then show ?thesis using assms by (auto simp: fl_grid_def f_def)
qed

lemma multiple_rescale:
  assumes "d \<le> e"
  shows "of_int n * pow2 e = of_int (n * 2 ^ nat (e - d)) * pow2 d"
proof -
  have "pow2 e = pow2 (e - d) * pow2 d" by (simp flip: pow2_add)
  then show ?thesis using assms by (simp add: pow2_int)
qed

lemma fl_grid_multiple:
  assumes "x = of_int n * pow2 e" and "fl_exp x \<le> e"
  shows "fl_grid x = x"
proof -
  have x: "x = of_int (n * 2 ^ nat (e - fl_exp x)) * pow2 (fl_exp x)"
    using assms(1) multiple_rescale [OF assms(2), of n] by simp
  show ?thesis
    using fl_grid_le [OF eq_refl [OF x]] fl_grid_ge [OF eq_refl [OF x [symmetric]]] x by simp
qed

lemma fl_exp_mono: "0 < x \<Longrightarrow> x \<le> y \<Longrightarrow> fl_exp x \<le> fl_exp y"
  using ilog2_mono [of x y] by (auto simp: fl_exp_def)

text \<open>
  Monotonicity: inside one binade it is that of \<open>rhe\<close>; across binades the power of two between
  the two numbers is on both grids.
\<close>

lemma fl_grid_mono_pos:
  assumes "0 < x" and "x \<le> y"
  shows "fl_grid x \<le> fl_grid y"
proof (cases "fl_exp x = fl_exp y")
  case True
  have "x / pow2 (fl_exp y) \<le> y / pow2 (fl_exp y)"
    using assms(2) by (simp add: divide_right_mono)
  then show ?thesis
    using assms True by (auto simp: fl_grid_def intro!: mult_right_mono rhe_mono)
next
  case False
  let ?b = "pow2 (ilog2 y)"
  have lt: "fl_exp x < fl_exp y" using False fl_exp_mono [OF assms] by simp
  have y: "0 < y" using assms by simp
  have ey: "fl_exp y = ilog2 y - 52" "ilog2 x < ilog2 y"
    using lt assms y by (auto simp: fl_exp_def)
  have "x < pow2 (ilog2 x + 1)" by (rule ilog2_bounds(2) [OF assms(1)])
  also have "\<dots> \<le> ?b" using ey(2) by (intro pow2_mono) simp
  finally have xb: "x \<le> ?b" by simp
  have yb: "?b \<le> y" by (rule ilog2_bounds(1) [OF y])
  have bx: "?b = of_int (1 * 2 ^ nat (ilog2 y - fl_exp x)) * pow2 (fl_exp x)"
    using multiple_rescale [of "fl_exp x" "ilog2 y" 1] lt ey by simp
  have bb: "?b = of_int (1 * 2 ^ nat (ilog2 y - fl_exp y)) * pow2 (fl_exp y)"
    using multiple_rescale [of "fl_exp y" "ilog2 y" 1] ey by simp
  have "fl_grid x \<le> ?b" using fl_grid_le [of x] xb bx by metis
  also have "?b \<le> fl_grid y" using fl_grid_ge [of _ y] yb bb by metis
  finally show ?thesis .
qed

lemma fl_grid_mono:
  assumes "x \<le> y"
  shows "fl_grid x \<le> fl_grid y"
proof -
  consider "0 < x" | "x \<le> 0" "0 \<le> y" | "y < 0" by linarith
  then show ?thesis
  proof cases
    case 1
    then show ?thesis using assms by (rule fl_grid_mono_pos)
  next
    case 2
    then show ?thesis
      using fl_grid_nonneg [of "- x"] fl_grid_nonneg [of y] by (simp add: fl_grid_uminus)
  next
    case 3
    then show ?thesis
      using fl_grid_mono_pos [of "- y" "- x"] assms by (simp add: fl_grid_uminus)
  qed
qed

text \<open>Integers of at most 53 bits are on the grid.\<close>

lemma fl_grid_int:
  assumes "\<bar>n\<bar> < 2 ^ 53"
  shows "fl_grid (of_int n) = of_int n"
proof (cases "n = 0")
  case False
  let ?x = "\<bar>of_int n\<bar> :: rat"
  have pos: "0 < ?x" using False by simp
  have "pow2 (ilog2 ?x) \<le> ?x" by (rule ilog2_bounds(1) [OF pos])
  also have "?x < pow2 53"
  proof -
    have "(of_int \<bar>n\<bar> :: rat) < of_int (2 ^ 53)" using assms by (simp only: of_int_less_iff)
    then show ?thesis by (simp add: pow2_def)
  qed
  finally have "ilog2 ?x < 53" by (simp add: pow2_less_iff)
  then have "fl_exp (of_int n) \<le> 0" by (simp add: fl_exp_def)
  then show ?thesis by (intro fl_grid_multiple [of _ n 0]) (simp_all add: pow2_def)
qed simp

subsection \<open>Float values\<close>

datatype float64 = Fin rat | PInf | NInf | NaN

definition fl :: "rat \<Rightarrow> float64" where
  "fl x =
     (let r = fl_grid x
      in if pow2 1024 \<le> r then PInf else if r \<le> - pow2 1024 then NInf else Fin r)"

text \<open>
  A linear order on the values, NaN last. On values that are not NaN it is the order of
  Python's comparison operators.
\<close>

fun float_rank :: "float64 \<Rightarrow> int \<times> rat" where
  "float_rank NInf = (0, 0)"
| "float_rank (Fin x) = (1, x)"
| "float_rank PInf = (2, 0)"
| "float_rank NaN = (3, 0)"

lemma float_rank_inj: "float_rank a = float_rank b \<Longrightarrow> a = b"
  by (cases a; cases b) auto

instantiation float64 :: linorder
begin

definition less_eq_float64 :: "float64 \<Rightarrow> float64 \<Rightarrow> bool" where
  "a \<le> b \<longleftrightarrow> float_rank a \<le> float_rank b"

definition less_float64 :: "float64 \<Rightarrow> float64 \<Rightarrow> bool" where
  "a < b \<longleftrightarrow> float_rank a < float_rank b"

instance
  by standard (auto simp: less_eq_float64_def less_float64_def intro: float_rank_inj)

end

lemma Fin_le_iff [simp]: "Fin a \<le> Fin b \<longleftrightarrow> a \<le> b"
  by (simp add: less_eq_float64_def)

lemma Fin_less_iff [simp]: "Fin a < Fin b \<longleftrightarrow> a < b"
  by (simp add: less_float64_def)

lemma fl_not_NaN [simp]: "fl x \<noteq> NaN"
  by (simp add: fl_def Let_def)

lemma fl_mono: "x \<le> y \<Longrightarrow> fl x \<le> fl y"
  using fl_grid_mono [of x y] pow2_pos [of 1024]
  by (auto simp: fl_def Let_def less_eq_float64_def)

lemma fl_int: "\<bar>n\<bar> < 2 ^ 53 \<Longrightarrow> fl (of_int n) = Fin (of_int n)"
proof -
  assume n: "\<bar>n\<bar> < 2 ^ 53"
  have "\<bar>of_int n :: rat\<bar> < pow2 53"
  proof -
    have "(of_int \<bar>n\<bar> :: rat) < of_int (2 ^ 53)" using n by (simp only: of_int_less_iff)
    then show ?thesis by (simp add: pow2_def)
  qed
  also have "pow2 53 \<le> pow2 1024" by (rule pow2_mono) simp
  finally show ?thesis using n by (auto simp: fl_def fl_grid_int Let_def)
qed

subsection \<open>Arithmetic\<close>

fun f_sgn :: "float64 \<Rightarrow> rat" where
  "f_sgn NInf = - 1"
| "f_sgn PInf = 1"
| "f_sgn (Fin x) = sgn x"
| "f_sgn NaN = 0"

definition f_mul :: "float64 \<Rightarrow> float64 \<Rightarrow> float64" where
  "f_mul a b =
     (case (a, b) of
        (Fin x, Fin y) \<Rightarrow> fl (x * y)
      | _ \<Rightarrow> (let s = f_sgn a * f_sgn b
              in if s = 0 then NaN else if 0 < s then PInf else NInf))"

definition f_add :: "float64 \<Rightarrow> float64 \<Rightarrow> float64" where
  "f_add a b =
     (case (a, b) of
        (Fin x, Fin y) \<Rightarrow> fl (x + y)
      | (Fin x, _) \<Rightarrow> b
      | (_, Fin y) \<Rightarrow> a
      | _ \<Rightarrow> (if a = b then a else NaN))"

text \<open>Division by a positive constant that is a float, such as \<open>100.0\<close>.\<close>

definition f_div_const :: "float64 \<Rightarrow> rat \<Rightarrow> float64" where
  "f_div_const a c = (case a of Fin x \<Rightarrow> fl (x / c) | _ \<Rightarrow> a)"

definition f_ge :: "float64 \<Rightarrow> float64 \<Rightarrow> bool" where
  "f_ge a b \<longleftrightarrow> a \<noteq> NaN \<and> b \<noteq> NaN \<and> b \<le> a"

text \<open>\<open>int(x)\<close> truncates towards zero.\<close>

definition trunc_rat :: "rat \<Rightarrow> int" where
  "trunc_rat x = (if 0 \<le> x then \<lfloor>x\<rfloor> else \<lceil>x\<rceil>)"

lemma f_ge_trans: "f_ge a b \<Longrightarrow> c \<le> b \<Longrightarrow> c \<noteq> NaN \<Longrightarrow> f_ge a c"
  by (auto simp: f_ge_def)

lemma fl_0 [simp]: "fl 0 = Fin 0"
  using fl_int [of 0] by simp

lemma fl_nonneg: "0 \<le> x \<Longrightarrow> Fin 0 \<le> fl x"
  using fl_mono [of 0 x] by simp

lemma Fin_0_le_cases:
  assumes "Fin 0 \<le> a"
  obtains (Fin) x where "a = Fin x" "0 \<le> x" | (PInf) "a = PInf" | (NaN) "a = NaN"
  using assms by (cases a) (auto simp: less_eq_float64_def)

text \<open>Multiplying by a non-negative finite float is monotone on non-negative floats.\<close>

lemma f_mul_mono_right:
  assumes "Fin 0 \<le> a" "a \<le> b" "b \<noteq> NaN" "0 < c"
  shows "f_mul (Fin c) a \<le> f_mul (Fin c) b"
proof (cases b)
  case (Fin y)
  then obtain x where "a = Fin x" "0 \<le> x" "x \<le> y"
    using assms by (cases a) (auto simp: less_eq_float64_def)
  then show ?thesis using Fin assms by (auto simp: f_mul_def intro!: fl_mono mult_left_mono)
next
  case PInf
  have top: "f_mul (Fin c) b = PInf" using PInf assms(4) by (simp add: f_mul_def)
  have "a \<noteq> NaN" using assms PInf by (auto simp: less_eq_float64_def)
  then have "f_mul (Fin c) a \<noteq> NaN"
    using assms by (cases a) (auto simp: f_mul_def less_eq_float64_def)
  then show ?thesis unfolding top by (cases "f_mul (Fin c) a") (auto simp: less_eq_float64_def)
next
  case NInf
  with assms have "Fin 0 \<le> NInf" by (meson order_trans)
  then show ?thesis by (simp add: less_eq_float64_def)
qed (use assms in simp)

subsection \<open>The shortest decimal representation, \<open>repr\<close>\<close>

definition pow10 :: "int \<Rightarrow> rat" where
  "pow10 e = (if 0 \<le> e then 10 ^ nat e else 1 / 10 ^ nat (- e))"

text \<open>The exponent \<open>e\<close> with \<open>10 ^ e \<le> x < 10 ^ (e + 1)\<close>, for positive \<open>x\<close>.\<close>

definition dec_exp :: "rat \<Rightarrow> int" where
  "dec_exp x =
     (if 1 \<le> x then int (length (int_digits \<lfloor>x\<rfloor>)) - 1
      else - int (length (int_digits (\<lceil>1 / x\<rceil> - 1))))"

text \<open>A decimal of \<open>n\<close> significant digits that reads back as \<open>x\<close>: the nearest one, if any.\<close>

definition shortest_at :: "rat \<Rightarrow> nat \<Rightarrow> (int \<times> int) option" where
  "shortest_at x n =
     (let e = dec_exp x - int n + 1; s = pow10 e; lo = \<lfloor>x / s\<rfloor>;
          ok = (\<lambda>c. fl (of_int c * s) = Fin x); d = x / s - of_int lo
      in if ok lo \<and> (\<not> ok (lo + 1) \<or> d < 1 / 2 \<or> (d = 1 / 2 \<and> even lo)) then Some (lo, e)
         else if ok (lo + 1) then Some (lo + 1, e) else None)"

fun shortest_from :: "rat \<Rightarrow> nat list \<Rightarrow> int \<times> int" where
  "shortest_from x [] = (0, 0)"
| "shortest_from x (n # ns) = (case shortest_at x n of Some r \<Rightarrow> r | None \<Rightarrow> shortest_from x ns)"

definition strip_zeros :: "int list \<Rightarrow> int list" where
  "strip_zeros ds = rev (dropWhile (\<lambda>d. d = 0) (rev ds))"

definition repr_digits :: "int list \<Rightarrow> int \<Rightarrow> string" where
  "repr_digits ds e =
     (let cs = map digit_char ds; n = int (length cs) in
      if - 4 \<le> e \<and> e < 0 then ''0.'' @ replicate (nat (- e - 1)) (CHR ''0'') @ cs
      else if 0 \<le> e \<and> e < 16 then
        (if n \<le> e + 1 then cs @ replicate (nat (e + 1 - n)) (CHR ''0'') @ ''.0''
         else take (nat (e + 1)) cs @ ''.'' @ drop (nat (e + 1)) cs)
      else take 1 cs @ (if n = 1 then [] else ''.'' @ drop 1 cs) @
        (if e < 0 then ''e-'' else ''e+'') @
        (if \<bar>e\<bar> < 10 then ''0'' else []) @ py_str_int \<bar>e\<bar>)"

definition float_repr_pos :: "rat \<Rightarrow> string" where
  "float_repr_pos x =
     (let (c, e) = shortest_from x [1..<18]; ds = int_digits c
      in repr_digits (strip_zeros ds) (e + int (length ds) - 1))"

fun float_repr :: "float64 \<Rightarrow> string" where
  "float_repr NaN = ''nan''"
| "float_repr PInf = ''inf''"
| "float_repr NInf = ''-inf''"
| "float_repr (Fin x) =
     (if x = 0 then ''0.0''
      else if x < 0 then CHR ''-'' # float_repr_pos (- x) else float_repr_pos x)"

end
