(* ===== verification/Json.thy ===== *)
theory Json
  imports PyFloat
begin

section \<open>JSON values and their text\<close>

text \<open>
  Requests, Bedrock messages, audit details and response bodies are JSON-like Python values
  (\<open>None\<close>, booleans, ints, floats, strings, lists, dicts with string keys). This theory holds
  the value type, well-formedness (distinct keys), \<open>json.dumps\<close> with its default options, and
  \<open>str\<close>/\<open>repr\<close> of such values. The main lemma, \<open>json_dumps_printable\<close>, says the text is
  printable ASCII, so it holds no line break.
\<close>

datatype json =
    JNull
  | JBool bool
  | JInt int
  | JFloat float64
  | JStr string
  | JList "json list"
  | JObj "(string \<times> json) list"

fun wf_json :: "json \<Rightarrow> bool" where
  "wf_json (JList xs) = list_all wf_json xs"
| "wf_json (JObj kvs) = (distinct (map fst kvs) \<and> list_all (\<lambda>(k, v). wf_json v) kvs)"
| "wf_json v = True"

subsection \<open>Character classes\<close>

definition hex_char :: "nat \<Rightarrow> char" where
  "hex_char d = (if d < 10 then char_of (48 + d) else char_of (87 + d))"

definition printable :: "char \<Rightarrow> bool" where
  "printable c \<longleftrightarrow> 32 \<le> (of_char c :: nat) \<and> (of_char c :: nat) \<le> 126"

text \<open>The characters \<open>repr\<close> of a string leaves as they are, among code points below 256.\<close>

definition repr_printable :: "char \<Rightarrow> bool" where
  "repr_printable c \<longleftrightarrow>
     (let n = (of_char c :: nat) in (32 \<le> n \<and> n \<le> 126) \<or> (161 \<le> n \<and> n \<noteq> 173))"

subsection \<open>\<open>json.dumps\<close>\<close>

definition json_escape_char :: "char \<Rightarrow> string" where
  "json_escape_char c =
     (let n = (of_char c :: nat) in
      if n = 34 then [CHR 0x5C, CHR 0x22]
      else if n = 92 then [CHR 0x5C, CHR 0x5C]
      else if n = 10 then [CHR 0x5C, CHR ''n'']
      else if n = 13 then [CHR 0x5C, CHR ''r'']
      else if n = 9 then [CHR 0x5C, CHR ''t'']
      else if n = 12 then [CHR 0x5C, CHR ''f'']
      else if n = 8 then [CHR 0x5C, CHR ''b'']
      else if printable c then [c]
      else [CHR 0x5C, CHR ''u'', CHR ''0'', CHR ''0'', hex_char (n div 16), hex_char (n mod 16)])"

definition json_str :: "string \<Rightarrow> string" where
  "json_str s = [CHR 0x22] @ concat (map json_escape_char s) @ [CHR 0x22]"

fun json_float :: "float64 \<Rightarrow> string" where
  "json_float NaN = ''NaN''"
| "json_float PInf = ''Infinity''"
| "json_float NInf = ''-Infinity''"
| "json_float x = float_repr x"

fun json_dumps :: "json \<Rightarrow> string" where
  "json_dumps JNull = ''null''"
| "json_dumps (JBool b) = (if b then ''true'' else ''false'')"
| "json_dumps (JInt i) = py_str_int i"
| "json_dumps (JFloat x) = json_float x"
| "json_dumps (JStr s) = json_str s"
| "json_dumps (JList xs) = ''['' @ py_join '', '' (map json_dumps xs) @ '']''"
| "json_dumps (JObj kvs) =
     ''{'' @ py_join '', '' (map (\<lambda>(k, v). json_str k @ '': '' @ json_dumps v) kvs) @ ''}''"

subsection \<open>\<open>repr\<close> and \<open>str\<close>\<close>

definition repr_escape_char :: "char \<Rightarrow> char \<Rightarrow> string" where
  "repr_escape_char quote c =
     (let n = (of_char c :: nat) in
      if c = quote \<or> n = 92 then [CHR 0x5C, c]
      else if n = 10 then [CHR 0x5C, CHR ''n'']
      else if n = 13 then [CHR 0x5C, CHR ''r'']
      else if n = 9 then [CHR 0x5C, CHR ''t'']
      else if repr_printable c then [c]
      else [CHR 0x5C, CHR ''x'', hex_char (n div 16), hex_char (n mod 16)])"

definition repr_str :: "string \<Rightarrow> string" where
  "repr_str s =
     (let quote = (if CHR 0x27 \<in> set s \<and> CHR 0x22 \<notin> set s then CHR 0x22 else CHR 0x27)
      in [quote] @ concat (map (repr_escape_char quote) s) @ [quote])"

fun py_repr :: "json \<Rightarrow> string" where
  "py_repr JNull = ''None''"
| "py_repr (JBool b) = (if b then ''True'' else ''False'')"
| "py_repr (JInt i) = py_str_int i"
| "py_repr (JFloat x) = float_repr x"
| "py_repr (JStr s) = repr_str s"
| "py_repr (JList xs) = ''['' @ py_join '', '' (map py_repr xs) @ '']''"
| "py_repr (JObj kvs) =
     ''{'' @ py_join '', '' (map (\<lambda>(k, v). repr_str k @ '': '' @ py_repr v) kvs) @ ''}''"

definition py_str :: "json \<Rightarrow> string" where
  "py_str v = (case v of JStr s \<Rightarrow> s | _ \<Rightarrow> py_repr v)"

lemma py_str_JStr [simp]: "py_str (JStr s) = s"
  by (simp add: py_str_def)

subsection \<open>The text is printable ASCII\<close>

lemma printable_literal [simp]:
  "printable (Char b0 b1 b2 b3 b4 b5 b6 b7) \<longleftrightarrow>
     32 \<le> (of_char (Char b0 b1 b2 b3 b4 b5 b6 b7) :: nat) \<and>
     (of_char (Char b0 b1 b2 b3 b4 b5 b6 b7) :: nat) \<le> 126"
  by (simp add: printable_def)

lemma printable_digit: "0 \<le> d \<Longrightarrow> d < 10 \<Longrightarrow> printable (digit_char d)"
  by (auto simp: printable_def of_char_digit_char nat_le_iff le_nat_iff)

lemma printable_hex: "d < 16 \<Longrightarrow> printable (hex_char d)"
  by (auto simp: printable_def hex_char_def)

lemma printable_digits:
  "\<forall>d \<in> set ds. 0 \<le> d \<and> d < 10 \<Longrightarrow> list_all printable (map digit_char ds)"
  by (auto simp: list_all_iff intro!: printable_digit)

lemma printable_int: "list_all printable (py_str_int i)"
  using int_digits_bound [of "- i"] int_digits_bound [of i]
  by (auto simp: py_str_int_def intro!: printable_digits)

lemma printable_escape: "list_all printable (json_escape_char c)"
proof -
  have "(of_char c :: nat) < 16 * 16" by simp
  then have "(of_char c :: nat) div 16 < 16" by (rule less_mult_imp_div_less)
  then have "printable (hex_char (of_char c div 16))" by (rule printable_hex)
  moreover have "printable (hex_char (of_char c mod 16))" by (rule printable_hex) simp
  ultimately show ?thesis by (simp add: json_escape_char_def Let_def)
qed

lemma printable_json_str: "list_all printable (json_str s)"
  by (induction s) (auto simp: json_str_def printable_escape)

lemma list_all_py_join:
  "list_all P sep \<Longrightarrow> list_all (list_all P) ps \<Longrightarrow> list_all P (py_join sep ps)"
  by (induction sep ps rule: py_join.induct) auto

lemma shortest_from_nonneg:
  assumes "0 \<le> x"
  shows "0 \<le> fst (shortest_from x ns)"
proof (induction ns)
  case (Cons n ns)
  have "0 \<le> \<lfloor>x / pow10 e\<rfloor>" for e
    using assms by (simp add: pow10_def)
  then have "0 \<le> fst r" if "shortest_at x n = Some r" for r
    using that by (auto simp: shortest_at_def Let_def split: if_splits intro: add_nonneg_nonneg)
  with Cons show ?case by (auto split: option.splits)
qed simp

lemma strip_zeros_set: "set (strip_zeros ds) \<subseteq> set ds"
  by (auto simp: strip_zeros_def dest!: set_dropWhileD)

lemma list_all_take: "list_all P xs \<Longrightarrow> list_all P (take n xs)"
  by (auto simp: list_all_iff dest: in_set_takeD)

lemma list_all_drop: "list_all P xs \<Longrightarrow> list_all P (drop n xs)"
  by (auto simp: list_all_iff dest: in_set_dropD)

lemma printable_repr_digits:
  assumes "\<forall>d \<in> set ds. 0 \<le> d \<and> d < 10"
  shows "list_all printable (repr_digits ds e)"
proof -
  have ds: "list_all printable (map digit_char ds)" by (rule printable_digits [OF assms])
  have zs: "list_all printable (replicate k (CHR ''0''))" for k by (simp add: list_all_iff)
  show ?thesis
    using ds list_all_take [OF ds] list_all_drop [OF ds] zs printable_int
    by (simp add: repr_digits_def Let_def)
qed

lemma printable_float_repr_pos: "0 \<le> q \<Longrightarrow> list_all printable (float_repr_pos q)"
proof -
  assume q: "0 \<le> q"
  obtain m e where me: "shortest_from q [1..<18] = (m, e)" by fastforce
  have m: "0 \<le> m" using shortest_from_nonneg [OF q, of "[1..<18]"] me by simp
  have "\<forall>d \<in> set (strip_zeros (int_digits m)). 0 \<le> d \<and> d < 10"
    using strip_zeros_set int_digits_bound [OF m] by blast
  then show ?thesis unfolding float_repr_pos_def me by (simp add: Let_def printable_repr_digits)
qed

lemma printable_float_repr: "list_all printable (float_repr x)"
  by (cases x) (auto intro: printable_float_repr_pos)

lemma printable_json_float: "list_all printable (json_float x)"
  using printable_float_repr by (cases x) (simp_all del: float_repr.simps)

lemma json_dumps_printable: "list_all printable (json_dumps v)"
proof (induction v rule: json_dumps.induct)
  case (6 xs)
  then have "list_all (list_all printable) (map json_dumps xs)" by (simp add: list_all_iff)
  then show ?case using list_all_py_join [of printable "'', ''" "map json_dumps xs"] by simp
next
  case (7 kvs)
  let ?f = "\<lambda>(k, v). json_str k @ '': '' @ json_dumps v"
  have "list_all printable (?f kv)" if "kv \<in> set kvs" for kv
    using 7 that by (cases kv) (simp add: printable_json_str)
  then have "list_all (list_all printable) (map ?f kvs)"
    by (subst list_all_iff) (simp only: set_map ball_simps, blast)
  then show ?case using list_all_py_join [of printable "'', ''" "map ?f kvs"] by simp
qed (simp_all add: printable_int printable_json_str printable_json_float)

corollary json_dumps_no_newline: "CHR 0x0A \<notin> set (json_dumps v)"
  using json_dumps_printable [of v] by (auto simp: list_all_iff)

end
