(* ===== verification/Errors.thy ===== *)
theory Errors
  imports Json
begin

section \<open>Service errors (\<open>models/errors.py\<close>) and exceptions\<close>

text \<open>
  The error codes, the \<open>ServiceError\<close> exception with its constructors and its JSON envelope,
  and \<open>py_exc\<close>, the exceptions the code raises or lets through. A built-in or external
  exception is known by its class name, which is all the code looks at.
\<close>

datatype ErrorCode =
    USER_NOT_REGISTERED
  | ACCESS_DENIED
  | AUTHENTICATION_FAILED
  | INVALID_IDENTITY
  | INVALID_REQUEST
  | RATE_LIMIT_EXCEEDED
  | UPSTREAM_FAILURE
  | INTERNAL_ERROR

fun error_code_value :: "ErrorCode \<Rightarrow> string" where
  "error_code_value USER_NOT_REGISTERED = ''user_not_registered''"
| "error_code_value ACCESS_DENIED = ''access_denied''"
| "error_code_value AUTHENTICATION_FAILED = ''authentication_failed''"
| "error_code_value INVALID_IDENTITY = ''invalid_identity''"
| "error_code_value INVALID_REQUEST = ''invalid_request''"
| "error_code_value RATE_LIMIT_EXCEEDED = ''rate_limit_exceeded''"
| "error_code_value UPSTREAM_FAILURE = ''upstream_failure''"
| "error_code_value INTERNAL_ERROR = ''internal_error''"

lemma error_code_value_inj: "error_code_value a = error_code_value b \<Longrightarrow> a = b"
  by (cases a; cases b) simp_all

type_synonym details = "(string, json) pydict option"

record ErrorInfo =
  ei_type :: ErrorCode
  ei_message :: string
  ei_request_id :: string
  ei_details :: details

definition error_info_to_dict :: "ErrorInfo \<Rightarrow> (string, json) pydict" where
  "error_info_to_dict e =
     [(''type'', JStr (error_code_value (ei_type e))),
      (''message'', JStr (ei_message e)),
      (''request_id'', JStr (ei_request_id e))] @
     (case ei_details e of
        None \<Rightarrow> []
      | Some d \<Rightarrow> (if d = [] then [] else [(''details'', JObj d)]))"

record ServiceError =
  se_code :: ErrorCode
  se_message :: string
  se_status_code :: int
  se_request_id :: string
  se_details :: details
  se_headers :: "(string, string) pydict option"

definition to_envelope :: "ServiceError \<Rightarrow> ErrorInfo" where
  "to_envelope e =
     \<lparr>ei_type = se_code e, ei_message = se_message e, ei_request_id = se_request_id e,
      ei_details = se_details e\<rparr>"

definition build_error_envelope :: "ServiceError \<Rightarrow> json" where
  "build_error_envelope e = JObj [(''error'', JObj (error_info_to_dict (to_envelope e)))]"

subsection \<open>The constructors\<close>

definition user_not_registered_error :: "string \<Rightarrow> details \<Rightarrow> ServiceError" where
  "user_not_registered_error request_id d =
     \<lparr>se_code = USER_NOT_REGISTERED,
      se_message = ''The caller is not provisioned for Claude Code Proxy.'',
      se_status_code = 403, se_request_id = request_id, se_details = d, se_headers = None\<rparr>"

definition authentication_failed_error :: "string \<Rightarrow> details \<Rightarrow> ServiceError" where
  "authentication_failed_error request_id d =
     \<lparr>se_code = AUTHENTICATION_FAILED, se_message = ''Authentication failed.'',
      se_status_code = 401, se_request_id = request_id, se_details = d, se_headers = None\<rparr>"

definition access_denied_error :: "string \<Rightarrow> string \<Rightarrow> ServiceError" where
  "access_denied_error request_id message =
     \<lparr>se_code = ACCESS_DENIED, se_message = message,
      se_status_code = 403, se_request_id = request_id, se_details = None, se_headers = None\<rparr>"

definition invalid_request_error :: "string \<Rightarrow> string \<Rightarrow> details \<Rightarrow> ServiceError" where
  "invalid_request_error request_id message d =
     \<lparr>se_code = INVALID_REQUEST, se_message = message,
      se_status_code = 400, se_request_id = request_id, se_details = d, se_headers = None\<rparr>"

definition rate_limit_exceeded_error ::
    "string \<Rightarrow> (string, string) pydict \<Rightarrow> ServiceError" where
  "rate_limit_exceeded_error request_id headers =
     \<lparr>se_code = RATE_LIMIT_EXCEEDED, se_message = ''Rate limit exceeded.'',
      se_status_code = 429, se_request_id = request_id, se_details = None,
      se_headers = Some headers\<rparr>"

definition upstream_failure_error :: "string \<Rightarrow> details \<Rightarrow> ServiceError" where
  "upstream_failure_error request_id d =
     \<lparr>se_code = UPSTREAM_FAILURE, se_message = ''Upstream request failed.'',
      se_status_code = 502, se_request_id = request_id, se_details = d, se_headers = None\<rparr>"

definition internal_error :: "string \<Rightarrow> ServiceError" where
  "internal_error request_id =
     \<lparr>se_code = INTERNAL_ERROR, se_message = ''Internal server error'',
      se_status_code = 500, se_request_id = request_id, se_details = None, se_headers = None\<rparr>"

lemmas service_error_defs =
  user_not_registered_error_def authentication_failed_error_def access_denied_error_def
  invalid_request_error_def rate_limit_exceeded_error_def upstream_failure_error_def
  internal_error_def

subsection \<open>Exceptions\<close>

datatype py_exc =
    ServiceErr ServiceError
  | IdentityErr string \<comment> \<open>\<open>IdentityResolutionError\<close> with its message\<close>
  | BuildErr string string \<comment> \<open>\<open>BedrockRequestBuildError\<close>: reason, message\<close>
  | ResolutionErr string string string \<comment> \<open>\<open>ModelResolutionError\<close>: requested model, reason, message\<close>
  | HttpErr int string \<comment> \<open>FastAPI's \<open>HTTPException\<close>: status, detail\<close>
  | PyErr string \<comment> \<open>any other exception, by class name\<close>

fun exc_class_name :: "py_exc \<Rightarrow> string" where
  "exc_class_name (ServiceErr e) = ''ServiceError''"
| "exc_class_name (IdentityErr m) = ''IdentityResolutionError''"
| "exc_class_name (BuildErr r m) = ''BedrockRequestBuildError''"
| "exc_class_name (ResolutionErr q r m) = ''ModelResolutionError''"
| "exc_class_name (HttpErr s d) = ''HTTPException''"
| "exc_class_name (PyErr c) = c"

type_synonym 'a res = "py_exc + 'a"

end
