(* ===== verification/PyOps.thy ===== *)
theory PyOps
  imports Errors
begin

section \<open>Operations on untyped Python values\<close>

text \<open>
  The request builder, the response parser and the stream decoder work on \<open>Any\<close> values. Each
  operation they use is here with the exception Python raises where it does not apply, so that
  a malformed request takes the branch it takes in the code.
\<close>

named_theorems py_simps \<open>evaluating operations on untyped values\<close>

definition type_error :: "py_exc" where
  "type_error = PyErr ''TypeError''"

definition attribute_error :: "py_exc" where
  "attribute_error = PyErr ''AttributeError''"

definition key_error :: "py_exc" where
  "key_error = PyErr ''KeyError''"

definition value_error :: "py_exc" where
  "value_error = PyErr ''ValueError''"

definition overflow_error :: "py_exc" where
  "overflow_error = PyErr ''OverflowError''"

lemmas py_error_defs =
  type_error_def attribute_error_def key_error_def value_error_def overflow_error_def

text \<open>An exception that is neither of the service's own classes.\<close>

fun is_py_err :: "py_exc \<Rightarrow> bool" where
  "is_py_err (PyErr c) = True"
| "is_py_err e = False"

lemma is_py_err_errors [simp]:
  "is_py_err type_error" "is_py_err attribute_error" "is_py_err key_error"
  "is_py_err value_error" "is_py_err overflow_error"
  by (simp_all add: py_error_defs)

fun py_truthy :: "json \<Rightarrow> bool" where
  "py_truthy JNull = False"
| "py_truthy (JBool b) = b"
| "py_truthy (JInt i) = (i \<noteq> 0)"
| "py_truthy (JFloat x) = (x \<noteq> Fin 0)"
| "py_truthy (JStr s) = (s \<noteq> [])"
| "py_truthy (JList xs) = (xs \<noteq> [])"
| "py_truthy (JObj d) = (d \<noteq> [])"

definition py_or :: "json \<Rightarrow> json \<Rightarrow> json" where
  "py_or a b = (if py_truthy a then a else b)"

fun is_mapping :: "json \<Rightarrow> bool" where
  "is_mapping (JObj d) = True"
| "is_mapping v = False"

fun hashable :: "json \<Rightarrow> bool" where
  "hashable (JList xs) = False"
| "hashable (JObj d) = False"
| "hashable v = True"

text \<open>\<open>d.get(k, default)\<close> on a dict known to be one, and on any value.\<close>

definition dget :: "(string, json) pydict \<Rightarrow> string \<Rightarrow> json \<Rightarrow> json" where
  "dget d k dflt = (case map_of d k of None \<Rightarrow> dflt | Some v \<Rightarrow> v)"

fun py_get :: "json \<Rightarrow> string \<Rightarrow> json \<Rightarrow> json res" where
  "py_get (JObj d) k dflt = Inr (dget d k dflt)"
| "py_get v k dflt = Inl attribute_error"

text \<open>\<open>v[k]\<close> for a string \<open>k\<close>.\<close>

fun py_getitem :: "json \<Rightarrow> string \<Rightarrow> json res" where
  "py_getitem (JObj d) k = (case map_of d k of None \<Rightarrow> Inl key_error | Some v \<Rightarrow> Inr v)"
| "py_getitem v k = Inl type_error"

text \<open>\<open>k in v\<close> for a string \<open>k\<close>.\<close>

fun py_contains :: "string \<Rightarrow> json \<Rightarrow> bool res" where
  "py_contains k (JObj d) = Inr (map_of d k \<noteq> None)"
| "py_contains k (JList xs) = Inr (JStr k \<in> set xs)"
| "py_contains k (JStr s) = Inr (sublist k s)"
| "py_contains k v = Inl type_error"

text \<open>The elements a \<open>for\<close> loop visits.\<close>

fun py_iter :: "json \<Rightarrow> json list res" where
  "py_iter (JList xs) = Inr xs"
| "py_iter (JObj d) = Inr (map (\<lambda>(k, v). JStr k) d)"
| "py_iter (JStr s) = Inr (map (\<lambda>c. JStr [c]) s)"
| "py_iter v = Inl type_error"

text \<open>\<open>v in {...}\<close> for a set of strings: looking up an unhashable value raises.\<close>

definition py_in_set :: "json \<Rightarrow> string set \<Rightarrow> bool res" where
  "py_in_set v S = (if hashable v then Inr (case v of JStr s \<Rightarrow> s \<in> S | _ \<Rightarrow> False) else Inl type_error)"

subsection \<open>\<open>int(...)\<close>\<close>

definition digit_value :: "char \<Rightarrow> int option" where
  "digit_value c =
     (let n = (of_char c :: nat) in if 48 \<le> n \<and> n \<le> 57 then Some (int n - 48) else None)"

text \<open>Digits, with single underscores allowed between them; \<open>prev\<close>: a digit comes before.\<close>

fun parse_digits :: "bool \<Rightarrow> int \<Rightarrow> string \<Rightarrow> int option" where
  "parse_digits prev acc [] = (if prev then Some acc else None)"
| "parse_digits prev acc (c # s) =
     (if c = CHR ''_'' then (if prev then parse_digits False acc s else None)
      else (case digit_value c of
              None \<Rightarrow> None
            | Some d \<Rightarrow> parse_digits True (10 * acc + d) s))"

definition max_str_digits :: nat where
  "max_str_digits = 4300"

definition parse_int :: "string \<Rightarrow> int option" where
  "parse_int s =
     (let t = py_strip s;
          neg = (t \<noteq> [] \<and> hd t = CHR ''-'');
          u = (if t \<noteq> [] \<and> (hd t = CHR ''-'' \<or> hd t = CHR ''+'') then tl t else t)
      in if max_str_digits < length (filter (\<lambda>c. c \<noteq> CHR ''_'') u) then None
         else map_option (\<lambda>n. if neg then - n else n) (parse_digits False 0 u))"

fun py_int :: "json \<Rightarrow> int res" where
  "py_int (JInt i) = Inr i"
| "py_int (JBool b) = Inr (if b then 1 else 0)"
| "py_int (JFloat (Fin x)) = Inr (trunc_rat x)"
| "py_int (JFloat NaN) = Inl value_error"
| "py_int (JFloat x) = Inl overflow_error"
| "py_int (JStr s) = (case parse_int s of None \<Rightarrow> Inl value_error | Some i \<Rightarrow> Inr i)"
| "py_int v = Inl type_error"

lemma digit_value_digit_char: "0 \<le> d \<Longrightarrow> d < 10 \<Longrightarrow> digit_value (digit_char d) = Some d"
  by (auto simp: digit_value_def of_char_digit_char Let_def)

lemma digit_value_underscore [simp]: "digit_value (CHR ''_'') = None"
  by (simp add: digit_value_def)

lemma digit_char_not_underscore: "0 \<le> d \<Longrightarrow> d < 10 \<Longrightarrow> digit_char d \<noteq> CHR ''_''"
  using digit_value_digit_char [of d] by auto

lemma parse_digits_map:
  assumes "\<forall>d \<in> set ds. 0 \<le> d \<and> d < 10" and "ds \<noteq> [] \<or> prev"
  shows "parse_digits prev acc (map digit_char ds) = Some (foldl (\<lambda>a d. 10 * a + d) acc ds)"
  using assms
  by (induction ds arbitrary: prev acc) (auto simp: digit_value_digit_char digit_char_not_underscore)

lemma digit_char_not_special:
  assumes "0 \<le> d" "d < 10"
  shows "\<not> py_isspace (digit_char d)" "digit_char d \<noteq> CHR ''-''" "digit_char d \<noteq> CHR ''+''"
proof -
  show "\<not> py_isspace (digit_char d)"
    using assms by (auto simp: py_isspace_def of_char_digit_char)
  have "digit_value (CHR ''-'') = None" "digit_value (CHR ''+'') = None"
    by (simp_all add: digit_value_def)
  then show "digit_char d \<noteq> CHR ''-''" "digit_char d \<noteq> CHR ''+''"
    using digit_value_digit_char [OF assms] by auto
qed

text \<open>Reading back the decimal text of an integer gives the integer.\<close>

lemma parse_int_digits:
  assumes n: "0 \<le> n" and len: "length (int_digits n) \<le> max_str_digits"
  shows "parse_int (map digit_char (int_digits n)) = Some n"
    and "parse_int (CHR ''-'' # map digit_char (int_digits n)) = Some (- n)"
proof -
  let ?u = "map digit_char (int_digits n)"
  have b: "0 \<le> d \<and> d < 10" if "d \<in> set (int_digits n)" for d
    using int_digits_bound [OF n that] .
  have p: "parse_digits False 0 ?u = Some n"
    using parse_digits_map [of "int_digits n" False 0] b int_digits_nonempty
      digits_value_int_digits [of n] by (simp add: digits_value_def)
  have l: "length (filter (\<lambda>c. c \<noteq> CHR ''_'') ?u) \<le> max_str_digits"
    using le_trans [OF length_filter_le len] by (metis length_filter_le length_map le_trans len)
  have ns: "\<forall>c \<in> set ?u. \<not> py_isspace c" using b digit_char_not_special by auto
  have h: "?u \<noteq> []" "hd ?u \<noteq> CHR ''-''" "hd ?u \<noteq> CHR ''+''"
    using int_digits_nonempty [of n] b [of "hd (int_digits n)"] digit_char_not_special
    by (auto simp: hd_map)
  have "py_strip ?u = ?u" by (rule py_strip_no_space [OF ns])
  then show "parse_int ?u = Some n"
    using p l h by (simp add: parse_int_def Let_def)
  have "py_strip (CHR ''-'' # ?u) = CHR ''-'' # ?u"
    by (rule py_strip_no_space) (use ns in \<open>auto simp: py_isspace_def\<close>)
  then show "parse_int (CHR ''-'' # ?u) = Some (- n)"
    using p l by (simp add: parse_int_def Let_def)
qed

lemma parse_int_py_str_int:
  assumes "length (int_digits \<bar>i\<bar>) \<le> max_str_digits"
  shows "parse_int (py_str_int i) = Some i"
  using parse_int_digits [of "- i"] parse_int_digits [of i] assms
  by (cases "i < 0") (simp_all add: py_str_int_def)

subsection \<open>\<open>dict(...)\<close>\<close>

text \<open>
  A mapping is copied. A sequence must consist of pairs; a string or a list of two elements is
  one. The values of the model have string keys only, so a pair whose first element is not a
  string is a type error here (Python would accept a number, which no later JSON text of the
  service could tell from a string).
\<close>

fun pair_of_list :: "json list \<Rightarrow> (string \<times> json) res" where
  "pair_of_list [JStr k, b] = Inr (k, b)"
| "pair_of_list [a, b] = Inl type_error"
| "pair_of_list xs = Inl value_error"

definition py_pair :: "json \<Rightarrow> (string \<times> json) res" where
  "py_pair v = bindR (py_iter v) pair_of_list"

definition dict_of_pairs :: "(string \<times> json) list \<Rightarrow> (string, json) pydict" where
  "dict_of_pairs ps = foldl (\<lambda>d (k, v). dset k v d) [] ps"

definition py_dict :: "json \<Rightarrow> (string, json) pydict res" where
  "py_dict v = (case v of
      JObj d \<Rightarrow> Inr d
    | _ \<Rightarrow> bindR (py_iter v) (\<lambda>xs. bindR (mapR py_pair xs) (\<lambda>ps. Inr (dict_of_pairs ps))))"

lemma py_dict_JObj [simp, py_simps]: "py_dict (JObj d) = Inr d"
  by (simp add: py_dict_def)

subsection \<open>Only built-in exceptions\<close>

lemma py_get_err: "py_get v k d = Inl e \<Longrightarrow> is_py_err e"
  by (cases v) auto

lemma py_getitem_err: "py_getitem v k = Inl e \<Longrightarrow> is_py_err e"
  by (cases v) (auto split: option.splits)

lemma py_contains_err: "py_contains k v = Inl e \<Longrightarrow> is_py_err e"
  by (cases v) auto

lemma py_iter_err: "py_iter v = Inl e \<Longrightarrow> is_py_err e"
  by (cases v) auto

lemma py_in_set_err: "py_in_set v S = Inl e \<Longrightarrow> is_py_err e"
  by (auto simp: py_in_set_def split: if_splits)

lemma py_int_err: "py_int v = Inl e \<Longrightarrow> is_py_err e"
  by (cases v rule: py_int.cases) (auto split: option.splits)

lemma py_pair_err: "py_pair v = Inl e \<Longrightarrow> is_py_err e"
proof -
  have "pair_of_list xs = Inl e \<Longrightarrow> is_py_err e" for xs
    by (cases xs rule: pair_of_list.cases) auto
  then show "py_pair v = Inl e \<Longrightarrow> is_py_err e"
    by (auto simp: py_pair_def bindR_eq_Inl dest: py_iter_err)
qed

lemma py_dict_err: "py_dict v = Inl e \<Longrightarrow> is_py_err e"
  by (cases v) (auto simp: py_dict_def bindR_eq_Inl type_error_def dest!: mapR_eq_Inl py_pair_err)

lemmas py_errs = py_get_err py_getitem_err py_contains_err py_iter_err py_in_set_err py_int_err
  py_dict_err

text \<open>Computations that raise nothing but such exceptions.\<close>

definition only_py :: "'a res \<Rightarrow> bool" where
  "only_py r \<longleftrightarrow> (\<forall>e. r = Inl e \<longrightarrow> is_py_err e)"

lemma only_py_bindR: "only_py r \<Longrightarrow> (\<And>x. only_py (f x)) \<Longrightarrow> only_py (bindR r f)"
  by (auto simp: only_py_def bindR_eq_Inl)

lemma only_py_Inr: "only_py (Inr x)"
  by (simp add: only_py_def)

lemma only_py_error: "is_py_err e \<Longrightarrow> only_py (Inl e)"
  by (simp add: only_py_def)

lemma only_py_if: "(b \<Longrightarrow> only_py r) \<Longrightarrow> (\<not> b \<Longrightarrow> only_py r') \<Longrightarrow> only_py (if b then r else r')"
  by simp

lemma only_py_mapR: "(\<And>x. only_py (f x)) \<Longrightarrow> only_py (mapR f xs)"
  by (auto simp: only_py_def dest: mapR_eq_Inl)

lemma only_py_case_prod: "(\<And>a b. only_py (f a b)) \<Longrightarrow> only_py (case p of (a, b) \<Rightarrow> f a b)"
  by (cases p) simp

lemma only_py_ops:
  "only_py (py_get v k d)" "only_py (py_getitem v k)" "only_py (py_contains k v)" "only_py (py_iter v)"
  "only_py (py_in_set v S)" "only_py (py_int v)" "only_py (py_dict v)"
  using py_errs by (auto simp: only_py_def)

lemmas only_py_intros =
  only_py_bindR only_py_Inr only_py_error only_py_if only_py_mapR only_py_case_prod only_py_ops

end
