(* ===== verification/Domain.thy ===== *)
theory Domain
  imports PyOps
begin

section \<open>Domain records (\<open>models/domain.py\<close>, \<open>models/context.py\<close>)\<close>

text \<open>
  The frozen dataclasses and enums of the service. A \<open>datetime\<close> is the number of microseconds
  since the Unix epoch in UTC, a \<open>date\<close> the number of days. Field names carry a prefix for
  their class, since classes share names such as \<open>id\<close> and \<open>user_id\<close>.
\<close>

text \<open>An operation on a state that may raise.\<close>

type_synonym ('s, 'a) op = "('s, py_exc, 'a) act"

type_synonym datetime = int

definition second :: datetime where "second = 1000000"

definition minute :: datetime where "minute = 60 * second"

definition hour :: datetime where "hour = 60 * minute"

lemmas time_defs = second_def minute_def hour_def

text \<open>\<open>int(t.timestamp())\<close>: whole seconds, truncated towards zero.\<close>

definition int_timestamp :: "datetime \<Rightarrow> int" where
  "int_timestamp t = (if 0 \<le> t then t div second else - ((- t) div second))"

lemma int_timestamp_mono: "s \<le> t \<Longrightarrow> int_timestamp s \<le> int_timestamp t"
proof -
  assume st: "s \<le> t"
  have p: "0 \<le> a \<Longrightarrow> 0 \<le> a div second" for a
    by (simp add: second_def pos_imp_zdiv_nonneg_iff)
  consider "0 \<le> s" | "s < 0" "0 \<le> t" | "t < 0" using st by linarith
  then show ?thesis
  proof cases
    case 1
    then show ?thesis using st by (simp add: int_timestamp_def zdiv_mono1 second_def)
  next
    case 2
    then show ?thesis using p [of "- s"] p [of t] by (simp add: int_timestamp_def)
  next
    case 3
    then show ?thesis
      using st zdiv_mono1 [of "- t" "- s" second] by (simp add: int_timestamp_def second_def)
  qed
qed

datatype VirtualKeyStatus = ACTIVE | DISABLED | REVOKED

fun virtual_key_status_value :: "VirtualKeyStatus \<Rightarrow> string" where
  "virtual_key_status_value ACTIVE = ''active''"
| "virtual_key_status_value DISABLED = ''disabled''"
| "virtual_key_status_value REVOKED = ''revoked''"

text \<open>\<open>VirtualKeyStatus(value)\<close> raises \<open>ValueError\<close> for an unknown value.\<close>

definition VirtualKeyStatus_of :: "string \<Rightarrow> VirtualKeyStatus res" where
  "VirtualKeyStatus_of v =
     (if v = ''active'' then Inr ACTIVE
      else if v = ''disabled'' then Inr DISABLED
      else if v = ''revoked'' then Inr REVOKED
      else Inl value_error)"

lemma VirtualKeyStatus_of_value [simp]:
  "VirtualKeyStatus_of (virtual_key_status_value s) = Inr s"
  by (cases s) (simp_all add: VirtualKeyStatus_of_def)

datatype TokenIssueSource = CACHE | REUSED | ISSUED

fun token_issue_source_value :: "TokenIssueSource \<Rightarrow> string" where
  "token_issue_source_value CACHE = ''cache''"
| "token_issue_source_value REUSED = ''reused''"
| "token_issue_source_value ISSUED = ''issued''"

datatype BudgetPeriodType = DAY | MONTH

datatype BudgetMetricType = TOKENS | COST_USD

record IdentityMapping =
  im_username :: string
  im_user_id :: string
  im_identity_provider :: string
  im_created_at :: datetime

record UserRecord =
  ur_id :: string
  ur_email :: string
  ur_display_name :: string
  ur_department :: "string option"
  ur_cost_center :: "string option"
  ur_groups :: "string list"
  ur_proxy_access_enabled :: bool
  ur_is_active :: bool
  ur_created_at :: datetime
  ur_updated_at :: datetime

record VirtualKeyRecord =
  vk_id :: string
  vk_user_id :: string
  vk_key_hash :: string
  vk_encrypted_key_blob :: string
  vk_key_prefix :: string
  vk_status :: VirtualKeyStatus
  vk_created_at :: datetime
  vk_expires_at :: "datetime option"
  vk_revoked_at :: "datetime option"
  vk_last_used_at :: "datetime option"

record VirtualKeyCacheEntry =
  ce_user_id :: string
  ce_virtual_key_id :: string
  ce_encrypted_key_ref :: string
  ce_key_prefix :: string
  ce_status :: VirtualKeyStatus
  ce_ttl :: int

record AdminIdentityRecord =
  ai_principal_id :: string
  ai_role :: string
  ai_is_active :: bool
  ai_created_at :: datetime
  ai_updated_at :: datetime

record TokenIssueResult =
  ti_virtual_key :: string
  ti_user_id :: string
  ti_key_id :: string
  ti_key_prefix :: string
  ti_status :: VirtualKeyStatus
  ti_source :: TokenIssueSource
  ti_expires_at :: "datetime option"

record PolicyRecord =
  po_id :: string
  po_scope_type :: string
  po_scope_id :: string
  po_rule_type :: string
  po_rule_value :: string
  po_is_active :: bool

record BudgetPolicyRecord =
  bp_id :: string
  bp_scope_type :: string
  bp_scope_id :: string
  bp_period_type :: BudgetPeriodType
  bp_metric_type :: BudgetMetricType
  bp_limit_value :: int
  bp_soft_limit_percent :: int
  bp_hard_limit_percent :: int
  bp_is_active :: bool

record ModelAliasRuleRecord =
  ma_id :: string
  ma_pattern :: string
  ma_logical_model :: string
  ma_priority :: int
  ma_is_active :: bool

record ModelRouteRecord =
  mr_id :: string
  mr_logical_model :: string
  mr_provider :: string
  mr_bedrock_api_route :: string
  mr_bedrock_model_id :: "string option"
  mr_inference_profile_id :: "string option"
  mr_supports_native_structured_output :: bool
  mr_supports_reasoning :: bool
  mr_supports_prompt_cache_ttl :: bool
  mr_supports_disable_parallel_tool_use :: bool
  mr_priority :: int
  mr_is_active :: bool

record ModelPricingRecord =
  mp_id :: string
  mp_provider :: string
  mp_model_id :: string
  mp_input_cost_per_million :: float64
  mp_output_cost_per_million :: float64
  mp_cache_write_input_cost_per_million :: float64
  mp_cache_read_input_cost_per_million :: float64
  mp_currency :: string
  mp_effective_from :: "int option"
  mp_effective_to :: "int option"

record UsageEventRecord =
  ue_id :: string
  ue_request_id :: string
  ue_user_id :: string
  ue_user_email :: "string option"
  ue_requested_model :: json
  ue_resolved_model :: "string option"
  ue_pricing_catalog_id :: "string option"
  ue_input_tokens :: int
  ue_output_tokens :: int
  ue_total_tokens :: int
  ue_cache_write_input_tokens :: int
  ue_cache_read_input_tokens :: int
  ue_cache_details :: json
  ue_estimated_input_cost_usd :: float64
  ue_estimated_output_cost_usd :: float64
  ue_estimated_cache_write_cost_usd :: float64
  ue_estimated_cache_read_cost_usd :: float64
  ue_estimated_total_cost_usd :: float64
  ue_latency_ms :: "int option"
  ue_team_id :: "string option"
  ue_created_at :: datetime

record AuditEventRecord =
  ae_id :: string
  ae_request_id :: string
  ae_event_type :: string
  ae_actor_user_id :: "string option"
  ae_actor_user_email :: "string option"
  ae_decision :: string
  ae_requested_model :: json
  ae_resolved_model :: "string option"
  ae_denial_reason :: "string option"
  ae_policy_result :: json
  ae_team_id :: "string option"
  ae_created_at :: datetime

subsection \<open>Request contexts\<close>

record UserContext =
  uc_user_id :: string
  uc_email :: "string option"
  uc_groups :: "string list"
  uc_department :: "string option"

record RequestContext =
  rc_request_id :: string
  rc_user :: "UserContext option"

record AuthenticatedRequestContext =
  ac_request :: RequestContext
  ac_user_record :: UserRecord
  ac_virtual_key_id :: string
  ac_key_hash :: string
  ac_key_prefix :: string

definition ac_request_id :: "AuthenticatedRequestContext \<Rightarrow> string" where
  "ac_request_id a = rc_request_id (ac_request a)"

text \<open>The \<open>user\<close> property asserts that the request carries a user.\<close>

definition ac_user :: "AuthenticatedRequestContext \<Rightarrow> UserContext res" where
  "ac_user a =
     (case rc_user (ac_request a) of None \<Rightarrow> Inl (PyErr ''AssertionError'') | Some u \<Rightarrow> Inr u)"

definition optional_str :: "string option \<Rightarrow> json" where
  "optional_str s = (case s of None \<Rightarrow> JNull | Some t \<Rightarrow> JStr t)"

definition optional_int :: "int option \<Rightarrow> json" where
  "optional_int i = (case i of None \<Rightarrow> JNull | Some n \<Rightarrow> JInt n)"

end
