(* ===== verification/Security.thy ===== *)
theory Security
  imports Domain "HOL-Library.Word"
begin

unbundle bit_operations_syntax

section \<open>Keys and encryption (\<open>security/keys.py\<close>, \<open>security/encryption.py\<close>)\<close>

text \<open>
  Virtual keys, their SHA-256 digests and visible prefixes, and the envelope encryption the
  code ships (a prefix and URL-safe base64 of the UTF-8 text). The standard library functions
  it calls (UTF-8, base64, SHA-256) are written out; bytes are natural numbers below 256 and
  the hash works on 32-bit words. The random bytes of a new key are an argument.
  \<open>encryption_service\<close> is the interface the services rely on (the \<open>EncryptionService\<close>
  protocol), interpreted at the end by the shipped implementation.
\<close>

type_synonym byte = nat

subsection \<open>UTF-8\<close>

definition utf8_encode_char :: "char \<Rightarrow> byte list" where
  "utf8_encode_char c =
     (let n = (of_char c :: nat) in if n < 128 then [n] else [192 + n div 64, 128 + n mod 64])"

definition utf8_encode :: "string \<Rightarrow> byte list" where
  "utf8_encode s = concat (map utf8_encode_char s)"

definition continuation :: "byte \<Rightarrow> bool" where
  "continuation b \<longleftrightarrow> 128 \<le> b \<and> b < 192"

definition unicode_decode_error :: py_exc where
  "unicode_decode_error = PyErr ''UnicodeDecodeError''"

text \<open>Strict decoding to code points: overlong forms, surrogates and stray bytes are errors.\<close>

fun utf8_decode :: "byte list \<Rightarrow> nat list res" where
  "utf8_decode [] = Inr []"
| "utf8_decode (a # bs) =
     (if a < 128 then bindR (utf8_decode bs) (\<lambda>cs. Inr (a # cs))
      else if 194 \<le> a \<and> a < 224 then
        (case bs of
           b # bs' \<Rightarrow>
             if continuation b
             then bindR (utf8_decode bs') (\<lambda>cs. Inr (((a - 192) * 64 + (b - 128)) # cs))
             else Inl unicode_decode_error
         | _ \<Rightarrow> Inl unicode_decode_error)
      else if 224 \<le> a \<and> a < 240 then
        (case bs of
           b # c # bs' \<Rightarrow>
             (let n = (a - 224) * 4096 + (b - 128) * 64 + (c - 128) in
              if continuation b \<and> continuation c \<and> 2048 \<le> n \<and> \<not> (55296 \<le> n \<and> n < 57344)
              then bindR (utf8_decode bs') (\<lambda>cs. Inr (n # cs))
              else Inl unicode_decode_error)
         | _ \<Rightarrow> Inl unicode_decode_error)
      else if 240 \<le> a \<and> a < 245 then
        (case bs of
           b # c # d # bs' \<Rightarrow>
             (let n = (a - 240) * 262144 + (b - 128) * 4096 + (c - 128) * 64 + (d - 128) in
              if continuation b \<and> continuation c \<and> continuation d \<and> 65536 \<le> n \<and> n < 1114112
              then bindR (utf8_decode bs') (\<lambda>cs. Inr (n # cs))
              else Inl unicode_decode_error)
         | _ \<Rightarrow> Inl unicode_decode_error)
      else Inl unicode_decode_error)"

text \<open>
  The model's strings hold code points below 256; text with others decodes to no model string,
  and is an error here.
\<close>

definition string_of_code_points :: "nat list \<Rightarrow> string res" where
  "string_of_code_points cs =
     (if list_all (\<lambda>n. n < 256) cs then Inr (map char_of cs) else Inl unicode_decode_error)"

lemma utf8_encode_Cons: "utf8_encode (c # s) = utf8_encode_char c @ utf8_encode s"
  by (simp add: utf8_encode_def)

lemma utf8_roundtrip: "utf8_decode (utf8_encode s) = Inr (map of_char s)"
proof (induction s)
  case Nil
  then show ?case by (simp add: utf8_encode_def)
next
  case (Cons c s)
  let ?n = "of_char c :: nat"
  show ?case
  proof (cases "?n < 128")
    case True
    then show ?thesis using Cons by (simp add: utf8_encode_Cons utf8_encode_char_def)
  next
    case False
    have "?n < 4 * 64" by simp
    then have "?n div 64 < 4" by (rule less_mult_imp_div_less)
    with False have d: "?n div 64 = 2 \<or> ?n div 64 = 3" by linarith
    define m where "m = ?n mod 64"
    have n: "?n = ?n div 64 * 64 + m" by (simp add: m_def)
    have k: "continuation (128 + m)" by (simp add: continuation_def m_def)
    have e: "utf8_encode (c # s) = [192 + ?n div 64, 128 + m] @ utf8_encode s"
      using False by (simp add: utf8_encode_Cons utf8_encode_char_def m_def Let_def)
    from d n k Cons show ?thesis unfolding e by auto
  qed
qed

lemma utf8_encode_bytes: "\<forall>b \<in> set (utf8_encode s). b < 256"
proof -
  have "b < 256" if "b \<in> set (utf8_encode_char c)" for b c
  proof -
    have "(of_char c :: nat) < 4 * 64" by simp
    then have "(of_char c :: nat) div 64 < 4" by (rule less_mult_imp_div_less)
    moreover have "(of_char c :: nat) mod 64 < 64" by simp
    ultimately show ?thesis
      using that by (auto simp: utf8_encode_char_def Let_def split: if_splits)
  qed
  then show ?thesis by (auto simp: utf8_encode_def)
qed

subsection \<open>URL-safe base64\<close>

definition b64_char :: "nat \<Rightarrow> nat" where
  "b64_char v =
     (if v < 26 then 65 + v else if v < 52 then 71 + v else if v < 62 then v - 4
      else if v = 62 then 45 else 95)"

fun b64_encode :: "byte list \<Rightarrow> nat list" where
  "b64_encode [] = []"
| "b64_encode [a] = [b64_char (a div 4), b64_char (a mod 4 * 16), 61, 61]"
| "b64_encode [a, b] =
     [b64_char (a div 4), b64_char (a mod 4 * 16 + b div 16), b64_char (b mod 16 * 4), 61]"
| "b64_encode (a # b # c # bs) =
     [b64_char (a div 4), b64_char (a mod 4 * 16 + b div 16),
      b64_char (b mod 16 * 4 + c div 64), b64_char (c mod 64)] @ b64_encode bs"

text \<open>
  The value of a character after \<open>urlsafe_b64decode\<close> has mapped \<open>-\<close> to \<open>+\<close> and \<open>_\<close> to \<open>/\<close>;
  a character outside the alphabet has none and is skipped.
\<close>

definition b64_value :: "nat \<Rightarrow> nat option" where
  "b64_value c =
     (if 65 \<le> c \<and> c \<le> 90 then Some (c - 65)
      else if 97 \<le> c \<and> c \<le> 122 then Some (c - 71)
      else if 48 \<le> c \<and> c \<le> 57 then Some (c + 4)
      else if c = 43 \<or> c = 45 then Some 62
      else if c = 47 \<or> c = 95 then Some 63 else None)"

text \<open>
  \<open>binascii.a2b_base64\<close> in its lenient mode, as a machine over the position in the group of
  four, the bits left over and the padding seen: padding that completes a group ends the input,
  other padding is skipped, and input that ends inside a group is an error.
\<close>

definition binascii_error :: py_exc where
  "binascii_error = PyErr ''Error''"

fun a2b_base64 :: "nat \<Rightarrow> nat \<Rightarrow> nat \<Rightarrow> nat list \<Rightarrow> byte list res" where
  "a2b_base64 quad left pads [] = (if quad = 0 then Inr [] else Inl binascii_error)"
| "a2b_base64 quad left pads (c # cs) =
     (if c = 61 then
        (if 2 \<le> quad \<and> 4 \<le> quad + Suc pads then Inr []
         else a2b_base64 quad left (if 2 \<le> quad then Suc pads else pads) cs)
      else (case b64_value c of
          None \<Rightarrow> a2b_base64 quad left pads cs
        | Some v \<Rightarrow>
            if quad = 0 then a2b_base64 1 v 0 cs
            else if quad = 1 then
              bindR (a2b_base64 2 (v mod 16) 0 cs) (\<lambda>bs. Inr ((left * 4 + v div 16) # bs))
            else if quad = 2 then
              bindR (a2b_base64 3 (v mod 4) 0 cs) (\<lambda>bs. Inr ((left * 16 + v div 4) # bs))
            else bindR (a2b_base64 0 0 0 cs) (\<lambda>bs. Inr ((left * 64 + v) # bs))))"

lemma b64_value_char: "v < 64 \<Longrightarrow> b64_value (b64_char v) = Some v"
  by (auto simp: b64_value_def b64_char_def)

lemma b64_char_not_pad: "v < 64 \<Longrightarrow> b64_char v \<noteq> 61"
  by (auto simp: b64_char_def)

lemma b64_char_range: "v < 64 \<Longrightarrow> 45 \<le> b64_char v \<and> b64_char v \<le> 122"
  by (auto simp: b64_char_def)

lemma b64_sextets:
  assumes "a < 256" "b < 256" "c < (256 :: nat)"
  shows "a div 4 < 64" "a mod 4 * 16 + b div 16 < 64" "b mod 16 * 4 + c div 64 < 64" "c mod 64 < 64"
    "a mod 4 * 16 < 64" "b mod 16 * 4 < 64"
proof -
  show "a div 4 < 64" by (rule less_mult_imp_div_less) (use assms in simp)
  have b: "b div 16 < 16" by (rule less_mult_imp_div_less) (use assms in simp)
  have c: "c div 64 < 4" by (rule less_mult_imp_div_less) (use assms in simp)
  have "a mod 4 < 4" "b mod 16 < 16" by simp_all
  with b c show "a mod 4 * 16 + b div 16 < 64" "b mod 16 * 4 + c div 64 < 64"
    "a mod 4 * 16 < 64" "b mod 16 * 4 < 64" by linarith+
qed simp

lemma b64_high_bits:
  "b < 256 \<Longrightarrow> b div 16 div 16 = (0 :: nat)" "b < 256 \<Longrightarrow> b div 16 mod 16 = (b div 16 :: nat)"
  "c < 256 \<Longrightarrow> c div 64 div 4 = (0 :: nat)" "c < 256 \<Longrightarrow> c div 64 mod 4 = (c div 64 :: nat)"
proof -
  assume b: "b < 256"
  have "b div 16 < 16" by (rule less_mult_imp_div_less) (use b in simp)
  then show "b div 16 div 16 = 0" "b div 16 mod 16 = b div 16" by simp_all
next
  assume c: "c < 256"
  have "c div 64 < 4" by (rule less_mult_imp_div_less) (use c in simp)
  then show "c div 64 div 4 = 0" "c div 64 mod 4 = c div 64" by simp_all
qed

lemma b64_roundtrip: "\<forall>b \<in> set bs. b < 256 \<Longrightarrow> a2b_base64 0 0 0 (b64_encode bs) = Inr bs"
proof (induction bs rule: b64_encode.induct)
  case (2 a)
  then show ?case
    using b64_sextets [of a 0 0] by (simp add: b64_high_bits b64_value_char b64_char_not_pad)
next
  case (3 a b)
  then show ?case
    using b64_sextets [of a b 0] by (simp add: b64_high_bits b64_value_char b64_char_not_pad)
next
  case (4 a b c bs)
  then show ?case
    using b64_sextets [of a b c] by (simp add: b64_high_bits b64_value_char b64_char_not_pad)
qed simp

lemma b64_encode_range:
  "\<forall>b \<in> set bs. b < 256 \<Longrightarrow> \<forall>c \<in> set (b64_encode bs). 45 \<le> c \<and> c \<le> 122"
proof (induction bs rule: b64_encode.induct)
  case (2 a)
  then show ?case using b64_sextets [of a 0 0] by (simp add: b64_char_range)
next
  case (3 a b)
  then show ?case using b64_sextets [of a b 0] by (simp add: b64_char_range)
next
  case (4 a b c bs)
  then show ?case using b64_sextets [of a b c] by (simp add: b64_char_range)
qed simp

subsection \<open>SHA-256\<close>

type_synonym word32 = "32 word"

definition rotr :: "nat \<Rightarrow> word32 \<Rightarrow> word32" where
  "rotr n x = drop_bit n x OR push_bit (32 - n) x"

text \<open>The round constants and the initial state, from the cube and square roots of the first primes.\<close>

definition sha256_k :: "word32 list" where
  "sha256_k =
    [1116352408, 1899447441, 3049323471, 3921009573, 961987163, 1508970993, 2453635748,
     2870763221, 3624381080, 310598401, 607225278, 1426881987, 1925078388, 2162078206,
     2614888103, 3248222580, 3835390401, 4022224774, 264347078, 604807628, 770255983,
     1249150122, 1555081692, 1996064986, 2554220882, 2821834349, 2952996808, 3210313671,
     3336571891, 3584528711, 113926993, 338241895, 666307205, 773529912, 1294757372,
     1396182291, 1695183700, 1986661051, 2177026350, 2456956037, 2730485921, 2820302411,
     3259730800, 3345764771, 3516065817, 3600352804, 4094571909, 275423344, 430227734,
     506948616, 659060556, 883997877, 958139571, 1322822218, 1537002063, 1747873779,
     1955562222, 2024104815, 2227730452, 2361852424, 2428436474, 2756734187, 3204031479,
     3329325298]"

type_synonym sha_state =
  "word32 \<times> word32 \<times> word32 \<times> word32 \<times> word32 \<times> word32 \<times> word32 \<times> word32"

definition sha256_init :: sha_state where
  "sha256_init =
    (1779033703, 3144134277, 1013904242, 2773480762, 1359893119, 2600822924, 528734635,
     1541459225)"

definition sha_word :: "byte list \<Rightarrow> word32" where
  "sha_word bs = foldl (\<lambda>a b. a * 256 + of_nat b) 0 bs"

text \<open>Consecutive pieces of \<open>n + 1\<close> elements.\<close>

fun chunks :: "nat \<Rightarrow> 'a list \<Rightarrow> 'a list list" where
  "chunks n [] = []"
| "chunks n (x # xs) = (x # take n xs) # chunks n (drop n xs)"

text \<open>Padding: a one bit, zeros, and the bit length in eight bytes.\<close>

definition sha256_pad :: "byte list \<Rightarrow> byte list" where
  "sha256_pad bs =
     (let n = length bs
      in bs @ [128] @ replicate ((119 - n mod 64) mod 64) 0 @
         map (\<lambda>i. nat (int n * 8 div 256 ^ (7 - i) mod 256)) [0..<8])"

text \<open>The message schedule, newest word first.\<close>

fun sha256_extend :: "nat \<Rightarrow> word32 list \<Rightarrow> word32 list" where
  "sha256_extend 0 ws = ws"
| "sha256_extend (Suc k) ws =
     (let w15 = ws ! 14; w2 = ws ! 1;
          s0 = rotr 7 w15 XOR rotr 18 w15 XOR drop_bit 3 w15;
          s1 = rotr 17 w2 XOR rotr 19 w2 XOR drop_bit 10 w2
      in sha256_extend k ((ws ! 15 + s0 + ws ! 6 + s1) # ws))"

fun sha256_round :: "sha_state \<Rightarrow> word32 \<times> word32 \<Rightarrow> sha_state" where
  "sha256_round (a, b, c, d, e, f, g, h) (k, w) =
     (let s1 = rotr 6 e XOR rotr 11 e XOR rotr 25 e;
          ch = (e AND f) XOR (NOT e AND g);
          t1 = h + s1 + ch + k + w;
          s0 = rotr 2 a XOR rotr 13 a XOR rotr 22 a;
          maj = (a AND b) XOR (a AND c) XOR (b AND c)
      in (t1 + s0 + maj, a, b, c, d + t1, e, f, g))"

fun sha_add :: "sha_state \<Rightarrow> sha_state \<Rightarrow> sha_state" where
  "sha_add (a, b, c, d, e, f, g, h) (a', b', c', d', e', f', g', h') =
     (a + a', b + b', c + c', d + d', e + e', f + f', g + g', h + h')"

definition sha256_block :: "sha_state \<Rightarrow> byte list \<Rightarrow> sha_state" where
  "sha256_block st block =
     (let ws = rev (sha256_extend 48 (rev (map sha_word (chunks 3 block))))
      in sha_add st (foldl sha256_round st (zip sha256_k ws)))"

definition sha256 :: "byte list \<Rightarrow> sha_state" where
  "sha256 bs = foldl sha256_block sha256_init (chunks 63 (sha256_pad bs))"

definition hex_word :: "word32 \<Rightarrow> string" where
  "hex_word w = map (\<lambda>i. hex_char (unat (drop_bit (28 - 4 * i) w AND 15))) [0..<8]"

fun hexdigest :: "sha_state \<Rightarrow> string" where
  "hexdigest (a, b, c, d, e, f, g, h) = concat (map hex_word [a, b, c, d, e, f, g, h])"

subsection \<open>\<open>security/keys.py\<close>\<close>

definition VIRTUAL_KEY_PREFIX :: string where
  "VIRTUAL_KEY_PREFIX = ''vk_''"

definition VISIBLE_KEY_PREFIX_LENGTH :: nat where
  "VISIBLE_KEY_PREFIX_LENGTH = 12"

text \<open>\<open>secrets.token_urlsafe\<close> of the random bytes: base64 without the padding.\<close>

definition token_urlsafe :: "byte list \<Rightarrow> string" where
  "token_urlsafe bs = map char_of (filter (\<lambda>c. c \<noteq> 61) (b64_encode bs))"

definition generate_virtual_key :: "byte list \<Rightarrow> string" where
  "generate_virtual_key random_bytes = VIRTUAL_KEY_PREFIX @ token_urlsafe random_bytes"

definition hash_virtual_key :: "string \<Rightarrow> string" where
  "hash_virtual_key virtual_key = hexdigest (sha256 (utf8_encode virtual_key))"

definition get_virtual_key_prefix :: "string \<Rightarrow> string" where
  "get_virtual_key_prefix virtual_key = take VISIBLE_KEY_PREFIX_LENGTH virtual_key"

text \<open>The digest is 64 lower-case hexadecimal digits, which is what the key table stores.\<close>

lemma length_hexdigest: "length (hexdigest s) = 64"
  by (cases s rule: hexdigest.cases) (simp add: hex_word_def)

lemma length_hash_virtual_key [simp]: "length (hash_virtual_key k) = 64"
  by (simp add: hash_virtual_key_def length_hexdigest)

definition is_hex_digit :: "char \<Rightarrow> bool" where
  "is_hex_digit c \<longleftrightarrow>
     (let n = (of_char c :: nat) in (48 \<le> n \<and> n \<le> 57) \<or> (97 \<le> n \<and> n \<le> 102))"

lemma is_hex_digit_hex_char: "d < 16 \<Longrightarrow> is_hex_digit (hex_char d)"
  by (auto simp: is_hex_digit_def hex_char_def)

lemma hex_word_digits: "list_all is_hex_digit (hex_word w)"
proof -
  have "unat (x AND 15 :: word32) < 16" for x
    using word_and_le1 [of x 15] by (simp add: word_le_nat_alt)
  then show ?thesis
    unfolding hex_word_def by (auto simp: list_all_iff intro!: is_hex_digit_hex_char)
qed

lemma hash_virtual_key_hex: "list_all is_hex_digit (hash_virtual_key k)"
  unfolding hash_virtual_key_def
  by (cases "sha256 (utf8_encode k)" rule: hexdigest.cases) (simp add: hex_word_digits)

lemma length_get_virtual_key_prefix: "length (get_virtual_key_prefix k) \<le> 12"
  by (simp add: get_virtual_key_prefix_def VISIBLE_KEY_PREFIX_LENGTH_def)

subsection \<open>\<open>security/encryption.py\<close>\<close>

definition ENCRYPTION_PREFIX :: string where
  "ENCRYPTION_PREFIX = ''enc::''"

definition simple_encrypt :: "string \<Rightarrow> string" where
  "simple_encrypt plaintext = ENCRYPTION_PREFIX @ map char_of (b64_encode (utf8_encode plaintext))"

definition encode_ascii :: "string \<Rightarrow> byte list res" where
  "encode_ascii s =
     (if list_all (\<lambda>c. (of_char c :: nat) < 128) s then Inr (map of_char s)
      else Inl (PyErr ''UnicodeEncodeError''))"

definition simple_decrypt :: "string \<Rightarrow> string res" where
  "simple_decrypt ciphertext =
     (if \<not> py_startswith ciphertext ENCRYPTION_PREFIX then Inl value_error
      else bindR (encode_ascii (py_removeprefix ciphertext ENCRYPTION_PREFIX)) (\<lambda>encoded.
           bindR (a2b_base64 0 0 0 encoded) (\<lambda>bs.
           bindR (utf8_decode bs) string_of_code_points)))"

text \<open>Decryption inverts encryption, for every text.\<close>

lemma simple_decrypt_encrypt: "simple_decrypt (simple_encrypt p) = Inr p"
proof -
  let ?b = "b64_encode (utf8_encode p)"
  have r: "45 \<le> c \<and> c \<le> 122" if "c \<in> set ?b" for c
    using b64_encode_range [OF utf8_encode_bytes] that by blast
  then have m: "c mod 256 = c" "c < 128" if "c \<in> set ?b" for c using that by fastforce+
  then have "map (of_char \<circ> char_of) ?b = ?b" by (intro map_idI) simp
  with m have a: "encode_ascii (map char_of ?b) = Inr ?b"
    by (simp add: encode_ascii_def list_all_iff)
  have c: "string_of_code_points (map of_char p) = Inr p"
    by (simp add: string_of_code_points_def list_all_iff)
  show ?thesis
    by (simp add: simple_decrypt_def simple_encrypt_def a c b64_roundtrip [OF utf8_encode_bytes]
        utf8_roundtrip)
qed

text \<open>Text without the prefix is refused.\<close>

lemma simple_decrypt_no_prefix:
  "\<not> py_startswith c ENCRYPTION_PREFIX \<Longrightarrow> simple_decrypt c = Inl value_error"
  by (simp add: simple_decrypt_def)

text \<open>The interface of \<open>EncryptionService\<close>: what was encrypted can be read back.\<close>

locale encryption_service =
  fixes encrypt :: "string \<Rightarrow> string"
    and decrypt :: "string \<Rightarrow> string res"
  assumes decrypt_encrypt: "decrypt (encrypt p) = Inr p"
begin

lemma encrypt_inj: "encrypt p = encrypt q \<Longrightarrow> p = q"
  by (metis decrypt_encrypt sum.inject(2))

end

interpretation envelope: encryption_service simple_encrypt simple_decrypt
  by unfold_locales (rule simple_decrypt_encrypt)

subsection \<open>Generated keys\<close>

lemma token_urlsafe_chars:
  assumes "\<forall>b \<in> set bs. b < 256" and "c \<in> set (token_urlsafe bs)"
  shows "45 \<le> (of_char c :: nat) \<and> (of_char c :: nat) \<le> 122"
proof -
  from assms(2) obtain n where n: "n \<in> set (b64_encode bs)" "c = char_of n"
    by (auto simp: token_urlsafe_def)
  then have "45 \<le> n \<and> n \<le> 122" using b64_encode_range [OF assms(1)] by blast
  then show ?thesis by (simp add: n(2))
qed

lemma py_isspace_range: "45 \<le> (of_char c :: nat) \<Longrightarrow> (of_char c :: nat) \<le> 122 \<Longrightarrow> \<not> py_isspace c"
  by (auto simp: py_isspace_def)

text \<open>A generated key holds no white space, so the bearer header carries it unchanged.\<close>

lemma generate_virtual_key_no_space:
  assumes "\<forall>b \<in> set bs. b < 256"
  shows "\<forall>c \<in> set (generate_virtual_key bs). \<not> py_isspace c"
proof -
  have "\<forall>c \<in> set VIRTUAL_KEY_PREFIX. \<not> py_isspace c"
    by (simp add: VIRTUAL_KEY_PREFIX_def py_isspace_def)
  moreover have "\<forall>c \<in> set (token_urlsafe bs). \<not> py_isspace c"
    using token_urlsafe_chars [OF assms] py_isspace_range by blast
  ultimately show ?thesis by (auto simp: generate_virtual_key_def)
qed

text \<open>Without padding characters, three bytes make four.\<close>

lemma length_b64_no_pad:
  assumes "\<forall>b \<in> set bs. b < 256" and "length bs = 3 * n"
  shows "length (filter (\<lambda>c. c \<noteq> 61) (b64_encode bs)) = 4 * n"
  using assms
proof (induction bs arbitrary: n rule: b64_encode.induct)
  case (4 a b c bs)
  then obtain m where "n = Suc m" by (cases n) auto
  with 4 show ?case using b64_sextets [of a b c] by (simp add: b64_char_not_pad)
qed (simp_all, presburger+)

lemma length_generate_virtual_key:
  assumes "\<forall>b \<in> set bs. b < 256" and "length bs = 24"
  shows "length (generate_virtual_key bs) = 35"
  using length_b64_no_pad [OF assms(1), of 8] assms(2)
  by (simp add: generate_virtual_key_def token_urlsafe_def VIRTUAL_KEY_PREFIX_def)

end
