(* ===== verification/Stores.thy ===== *)
theory Stores
  imports Security
begin

section \<open>Repositories (\<open>repositories/*.py\<close>, \<open>infra/postgres/schema.py\<close>)\<close>

text \<open>
  The Postgres tables the repositories query, the SQL statements of the three psycopg stores
  run on them (with the constraints \<open>schema.py\<close> declares), the repositories on top, and the
  DynamoDB key cache over the \<open>DynamoDbTable\<close> protocol. A table is the list of its rows.
  \<open>key_ledger\<close>, \<open>dynamodb_table\<close> and \<open>key_cache\<close> are the interfaces the services rely on.
  UUID columns hold their canonical text. Connection failures are not part of this state; the
  services are proved for any repository operations, failing ones included.
\<close>

subsection \<open>Rows and the database\<close>

record UserRow =
  us_id :: string
  us_email :: string
  us_display_name :: string
  us_department :: "string option"
  us_cost_center :: "string option"
  us_groups :: "string list option"
  us_proxy_access_enabled :: bool
  us_is_active :: bool
  us_created_at :: datetime
  us_updated_at :: datetime

record VirtualKeyRow =
  kr_id :: string
  kr_key_hash :: string
  kr_encrypted_key_blob :: "byte list"
  kr_key_prefix :: string
  kr_user_id :: string
  kr_status :: string
  kr_created_at :: datetime
  kr_expires_at :: "datetime option"
  kr_revoked_at :: "datetime option"
  kr_last_used_at :: "datetime option"

record Database =
  db_users :: "UserRow list"
  db_identity_user_mappings :: "IdentityMapping list"
  db_admin_identities :: "AdminIdentityRecord list"
  db_virtual_keys :: "VirtualKeyRow list"

definition fetchone :: "'r list \<Rightarrow> 'r option" where
  "fetchone rows = (case rows of [] \<Rightarrow> None | r # _ \<Rightarrow> Some r)"

text \<open>\<open>ORDER BY created_at DESC\<close>: the rows sorted on the key, latest first.\<close>

definition order_by_desc :: "('r \<Rightarrow> int) \<Rightarrow> 'r list \<Rightarrow> 'r list" where
  "order_by_desc k rows = sort_key (\<lambda>r. - k r) rows"

lemma fetchone_None [simp]: "fetchone rows = None \<longleftrightarrow> rows = []"
  by (cases rows) (auto simp: fetchone_def)

lemma fetchone_Nil [simp]: "fetchone [] = None"
  by simp

lemma fetchone_Some: "fetchone rows = Some r \<Longrightarrow> r \<in> set rows"
  by (cases rows) (auto simp: fetchone_def)

lemma fetchone_filter: "fetchone (filter P rows) = Some r \<Longrightarrow> r \<in> set rows \<and> P r"
  by (drule fetchone_Some) simp

lemma set_order_by_desc [simp]: "set (order_by_desc k rows) = set rows"
  by (simp add: order_by_desc_def)

lemma order_by_desc_sorted: "sorted (map (\<lambda>r. - k r) (order_by_desc k rows))"
  by (simp add: order_by_desc_def)

subsection \<open>Users and administrators\<close>

definition get_identity_mapping :: "string \<Rightarrow> (Database, IdentityMapping option) op" where
  "get_identity_mapping username =
     getsM (\<lambda>db. fetchone (filter (\<lambda>r. im_username r = username) (db_identity_user_mappings db)))"

definition user_row_to_record :: "UserRow \<Rightarrow> UserRecord" where
  "user_row_to_record row =
     \<lparr>ur_id = us_id row, ur_email = us_email row, ur_display_name = us_display_name row,
      ur_department = us_department row, ur_cost_center = us_cost_center row,
      ur_groups = (case us_groups row of None \<Rightarrow> [] | Some gs \<Rightarrow> gs),
      ur_proxy_access_enabled = us_proxy_access_enabled row, ur_is_active = us_is_active row,
      ur_created_at = us_created_at row, ur_updated_at = us_updated_at row\<rparr>"

definition get_user :: "string \<Rightarrow> (Database, UserRecord option) op" where
  "get_user user_id =
     getsM (\<lambda>db. map_option user_row_to_record
       (fetchone (filter (\<lambda>r. us_id r = user_id) (db_users db))))"

definition get_user_id_for_username :: "string \<Rightarrow> (Database, string option) op" where
  "get_user_id_for_username username =
     bindM (get_identity_mapping username) (\<lambda>mapping. returnM (map_option im_user_id mapping))"

definition get_admin_identity :: "string \<Rightarrow> (Database, AdminIdentityRecord option) op" where
  "get_admin_identity principal_id =
     getsM (\<lambda>db. fetchone (filter (\<lambda>r. ai_principal_id r = principal_id) (db_admin_identities db)))"

definition get_admin_role :: "string \<Rightarrow> (Database, string option) op" where
  "get_admin_role principal_id =
     bindM (get_admin_identity principal_id) (\<lambda>identity. returnM (case identity of
         None \<Rightarrow> None
       | Some i \<Rightarrow> (if \<not> ai_is_active i then None else Some (ai_role i))))"

lemma get_user_run:
  "get_user u db = (Inr (map_option user_row_to_record
     (fetchone (filter (\<lambda>r. us_id r = u) (db_users db)))), db)"
  by (simp add: get_user_def)

lemma get_user_id:
  assumes "get_user u db = (Inr (Some r), db')"
  shows "ur_id r = u \<and> db' = db \<and> u \<in> us_id ` set (db_users db)"
  using assms
  by (auto simp: get_user_run user_row_to_record_def dest!: fetchone_filter)

lemma get_admin_role_active:
  assumes "get_admin_role p db = (Inr (Some role), db')"
  shows "\<exists>i \<in> set (db_admin_identities db).
    ai_principal_id i = p \<and> ai_is_active i \<and> ai_role i = role"
  using assms
  by (auto simp: get_admin_role_def get_admin_identity_def bindM_def
      split: option.splits if_splits dest!: fetchone_filter)

subsection \<open>UUID and VARCHAR columns\<close>

definition hex_lower :: "char \<Rightarrow> char option" where
  "hex_lower c =
     (let n = (of_char c :: nat) in
      if (48 \<le> n \<and> n \<le> 57) \<or> (97 \<le> n \<and> n \<le> 102) then Some c
      else if 65 \<le> n \<and> n \<le> 70 then Some (char_of (n + 32)) else None)"

text \<open>
  Postgres reads 32 hexadecimal digits of either case, a hyphen allowed after each group of four
  but the last, in optional braces. \<open>n\<close> counts the digits read; \<open>hy\<close> tells that a hyphen may
  come now.
\<close>

fun uuid_digits :: "nat \<Rightarrow> bool \<Rightarrow> string \<Rightarrow> string option" where
  "uuid_digits n hy [] = (if n = 32 then Some [] else None)"
| "uuid_digits n hy (c # s) =
     (if c = CHR ''-'' \<and> hy \<and> n mod 4 = 0 \<and> 0 < n \<and> n < 32 then uuid_digits n False s
      else (case hex_lower c of
              None \<Rightarrow> None
            | Some d \<Rightarrow> (if 32 \<le> n then None else map_option ((#) d) (uuid_digits (n + 1) True s))))"

definition uuid_canonical :: "string \<Rightarrow> string" where
  "uuid_canonical d =
     take 8 d @ ''-'' @ take 4 (drop 8 d) @ ''-'' @ take 4 (drop 12 d) @ ''-'' @
     take 4 (drop 16 d) @ ''-'' @ drop 20 d"

definition uuid_in :: "string \<Rightarrow> string option" where
  "uuid_in s =
     (let braced = (s \<noteq> [] \<and> hd s = CHR ''{'' \<and> last s = CHR ''}'' \<and> 1 < length s);
          t = (if braced then butlast (tl s) else s)
      in map_option uuid_canonical (uuid_digits 0 False t))"

lemma hex_lower_v [simp]: "hex_lower (CHR ''v'') = None" "hex_lower (CHR ''k'') = None"
  by (simp_all add: hex_lower_def)

text \<open>A generated key is not a UUID.\<close>

lemma uuid_in_vk: "uuid_in (VIRTUAL_KEY_PREFIX @ s) = None"
  by (simp add: uuid_in_def VIRTUAL_KEY_PREFIX_def)

definition varchar_ok :: "nat \<Rightarrow> string \<Rightarrow> bool" where
  "varchar_ok n s \<longleftrightarrow> length s \<le> n"

subsection \<open>The virtual key table\<close>

definition row_to_record :: "VirtualKeyRow \<Rightarrow> VirtualKeyRecord res" where
  "row_to_record row =
     bindR (bindR (utf8_decode (kr_encrypted_key_blob row)) string_of_code_points) (\<lambda>blob.
     bindR (VirtualKeyStatus_of (kr_status row)) (\<lambda>status.
     Inr \<lparr>vk_id = kr_id row, vk_user_id = kr_user_id row, vk_key_hash = kr_key_hash row,
          vk_encrypted_key_blob = blob, vk_key_prefix = kr_key_prefix row, vk_status = status,
          vk_created_at = kr_created_at row, vk_expires_at = kr_expires_at row,
          vk_revoked_at = kr_revoked_at row, vk_last_used_at = kr_last_used_at row\<rparr>))"

definition record_to_row :: "string \<Rightarrow> VirtualKeyRecord \<Rightarrow> VirtualKeyRow" where
  "record_to_row uuid r =
     \<lparr>kr_id = uuid, kr_key_hash = vk_key_hash r,
      kr_encrypted_key_blob = utf8_encode (vk_encrypted_key_blob r),
      kr_key_prefix = vk_key_prefix r, kr_user_id = vk_user_id r,
      kr_status = virtual_key_status_value (vk_status r), kr_created_at = vk_created_at r,
      kr_expires_at = vk_expires_at r, kr_revoked_at = vk_revoked_at r,
      kr_last_used_at = vk_last_used_at r\<rparr>"

text \<open>A record read back from the row it was written to is the record, its id in canonical form.\<close>

lemma row_to_record_to_row: "row_to_record (record_to_row uuid r) = Inr (r\<lparr>vk_id := uuid\<rparr>)"
  by (simp add: row_to_record_def record_to_row_def utf8_roundtrip string_of_code_points_def
      list_all_iff)

definition get_virtual_key_by_hash :: "string \<Rightarrow> (Database, VirtualKeyRecord option) op" where
  "get_virtual_key_by_hash key_hash = bindM
     (getsM (\<lambda>db. fetchone (filter (\<lambda>r. kr_key_hash r = key_hash) (db_virtual_keys db))))
     (\<lambda>row. case row of
         None \<Rightarrow> returnM None
       | Some r \<Rightarrow> liftR (bindR (row_to_record r) (\<lambda>k. Inr (Some k))))"

definition list_virtual_keys_for_user :: "string \<Rightarrow> (Database, VirtualKeyRecord list) op" where
  "list_virtual_keys_for_user user_id = bindM
     (getsM (\<lambda>db. order_by_desc kr_created_at
        (filter (\<lambda>r. kr_user_id r = user_id) (db_virtual_keys db))))
     (\<lambda>rows. liftR (mapR row_to_record rows))"

text \<open>
  What the columns and constraints of \<open>virtual_keys\<close> make of a row that is inserted: it is refused for an
  identifier that is not a UUID, text longer than its column, an \<open>id\<close> or \<open>key_hash\<close> that is there
  already, and a user who does not exist. \<open>Schema\<close> has the constraints as data.
\<close>

definition virtual_keys_accept :: "Database \<Rightarrow> VirtualKeyRecord \<Rightarrow> VirtualKeyRow res" where
  "virtual_keys_accept db r =
     (case uuid_in (vk_id r) of
       None \<Rightarrow> Inl (PyErr ''InvalidTextRepresentation'')
     | Some uuid \<Rightarrow>
         let row = record_to_row uuid r in
         if \<not> varchar_ok 64 (kr_key_hash row) \<or> \<not> varchar_ok 16 (kr_key_prefix row) \<or>
            \<not> varchar_ok 128 (kr_user_id row) \<or> \<not> varchar_ok 16 (kr_status row)
         then Inl (PyErr ''StringDataRightTruncation'')
         else if uuid \<in> kr_id ` set (db_virtual_keys db) \<or>
                 kr_key_hash row \<in> kr_key_hash ` set (db_virtual_keys db)
         then Inl (PyErr ''UniqueViolation'')
         else if kr_user_id row \<notin> us_id ` set (db_users db)
         then Inl (PyErr ''ForeignKeyViolation'')
         else Inr row)"

definition save_virtual_key :: "VirtualKeyRecord \<Rightarrow> (Database, unit) op" where
  "save_virtual_key r = (\<lambda>db. case virtual_keys_accept db r of
       Inl e \<Rightarrow> (Inl e, db)
     | Inr row \<Rightarrow> (Inr (), db\<lparr>db_virtual_keys := db_virtual_keys db @ [row]\<rparr>))"

lemmas save_virtual_key_defs = save_virtual_key_def virtual_keys_accept_def

definition get_active_key_for_user :: "string \<Rightarrow> (Database, VirtualKeyRecord option) op" where
  "get_active_key_for_user user_id =
     bindM (list_virtual_keys_for_user user_id) (\<lambda>records.
       let active_keys = filter (\<lambda>r. vk_status r = ACTIVE) records in
       case active_keys of
         [] \<Rightarrow> returnM None
       | m # rest \<Rightarrow> returnM (Some (py_max_by vk_created_at m rest)))"

text \<open>
  The invariant of the table: every row can be read, its identifier is in canonical form, and no
  two rows share an identifier or a hash. The abstract value of the table is the set of records.
\<close>

definition row_ok :: "VirtualKeyRow \<Rightarrow> bool" where
  "row_ok row \<longleftrightarrow> (case row_to_record row of Inl e \<Rightarrow> False | Inr r \<Rightarrow> True)"

definition the_record :: "VirtualKeyRow \<Rightarrow> VirtualKeyRecord" where
  "the_record row = (case row_to_record row of Inr r \<Rightarrow> r | Inl e \<Rightarrow> undefined)"

definition db_ok :: "Database \<Rightarrow> bool" where
  "db_ok db \<longleftrightarrow> list_all row_ok (db_virtual_keys db) \<and>
     distinct (map kr_id (db_virtual_keys db)) \<and> distinct (map kr_key_hash (db_virtual_keys db)) \<and>
     list_all (\<lambda>r. kr_user_id r \<in> us_id ` set (db_users db)) (db_virtual_keys db)"

definition db_keys :: "Database \<Rightarrow> VirtualKeyRecord set" where
  "db_keys db = the_record ` set (db_virtual_keys db)"

lemma row_ok_the_record: "row_ok row \<Longrightarrow> row_to_record row = Inr (the_record row)"
  by (simp add: row_ok_def the_record_def split: sum.splits)

lemma row_ok_record_to_row [simp]: "row_ok (record_to_row uuid r)"
  by (simp add: row_ok_def row_to_record_to_row)

lemma the_record_to_row [simp]: "the_record (record_to_row uuid r) = r\<lparr>vk_id := uuid\<rparr>"
  by (simp add: the_record_def row_to_record_to_row)

lemma row_to_record_fields:
  "row_to_record row = Inr r \<Longrightarrow>
     vk_key_hash r = kr_key_hash row \<and> vk_user_id r = kr_user_id row \<and> vk_id r = kr_id row \<and>
     vk_created_at r = kr_created_at row"
  by (auto simp: row_to_record_def bindR_eq_Inr)

lemma the_record_fields:
  assumes "row_ok row"
  shows "vk_key_hash (the_record row) = kr_key_hash row"
    and "vk_user_id (the_record row) = kr_user_id row"
    and "vk_id (the_record row) = kr_id row"
  using row_to_record_fields [OF row_ok_the_record [OF assms]] by auto

lemma db_ok_row: "db_ok db \<Longrightarrow> row \<in> set (db_virtual_keys db) \<Longrightarrow> row_ok row"
  by (auto simp: db_ok_def list_all_iff)

lemma get_virtual_key_by_hash_spec:
  assumes "db_ok db"
  shows "\<exists>r. get_virtual_key_by_hash h db = (Inr r, db) \<and>
    (case r of None \<Rightarrow> \<forall>k \<in> db_keys db. vk_key_hash k \<noteq> h
             | Some k \<Rightarrow> k \<in> db_keys db \<and> vk_key_hash k = h)"
proof (cases "fetchone (filter (\<lambda>r. kr_key_hash r = h) (db_virtual_keys db))")
  case None
  then have "\<forall>r \<in> set (db_virtual_keys db). kr_key_hash r \<noteq> h" by (simp add: filter_empty_conv)
  then have "\<forall>k \<in> db_keys db. vk_key_hash k \<noteq> h"
    using the_record_fields(1) [OF db_ok_row [OF assms]] by (auto simp: db_keys_def)
  with None show ?thesis by (simp add: get_virtual_key_by_hash_def)
next
  case (Some row)
  then have row: "row \<in> set (db_virtual_keys db)" "kr_key_hash row = h"
    by (auto dest: fetchone_filter)
  have ok: "row_ok row" by (rule db_ok_row [OF assms row(1)])
  from Some have "get_virtual_key_by_hash h db = (Inr (Some (the_record row)), db)"
    by (simp add: get_virtual_key_by_hash_def row_ok_the_record [OF ok])
  then show ?thesis using row the_record_fields(1) [OF ok] by (auto simp: db_keys_def)
qed

lemma list_virtual_keys_spec:
  assumes "db_ok db"
  shows "\<exists>rs. list_virtual_keys_for_user u db = (Inr rs, db) \<and>
    set rs = {k \<in> db_keys db. vk_user_id k = u}"
proof -
  let ?rows = "order_by_desc kr_created_at (filter (\<lambda>r. kr_user_id r = u) (db_virtual_keys db))"
  have "mapR row_to_record ?rows = Inr (map the_record ?rows)"
    using row_ok_the_record [OF db_ok_row [OF assms]] by (intro mapR_total) auto
  moreover have "set (map the_record ?rows) = {k \<in> db_keys db. vk_user_id k = u}"
    using the_record_fields(2) [OF db_ok_row [OF assms]] by (auto simp: db_keys_def)
  ultimately show ?thesis by (simp add: list_virtual_keys_for_user_def)
qed

lemma get_active_key_spec:
  assumes "db_ok db"
  shows "\<exists>r. get_active_key_for_user u db = (Inr r, db) \<and>
    (case r of
       None \<Rightarrow> \<forall>k \<in> db_keys db. vk_user_id k = u \<longrightarrow> vk_status k \<noteq> ACTIVE
     | Some k \<Rightarrow> k \<in> db_keys db \<and> vk_user_id k = u \<and> vk_status k = ACTIVE \<and>
         (\<forall>k' \<in> db_keys db. vk_user_id k' = u \<and> vk_status k' = ACTIVE \<longrightarrow>
            vk_created_at k' \<le> vk_created_at k))"
proof -
  obtain rs where rs: "list_virtual_keys_for_user u db = (Inr rs, db)"
    "set rs = {k \<in> db_keys db. vk_user_id k = u}"
    using list_virtual_keys_spec [OF assms] by blast
  let ?a = "filter (\<lambda>r. vk_status r = ACTIVE) rs"
  have a: "set ?a = {k \<in> db_keys db. vk_user_id k = u \<and> vk_status k = ACTIVE}"
    using rs(2) by auto
  show ?thesis
  proof (cases ?a)
    case Nil
    with a have "\<forall>k \<in> db_keys db. vk_user_id k = u \<longrightarrow> vk_status k \<noteq> ACTIVE" by auto
    then show ?thesis using Nil rs(1) by (simp add: get_active_key_for_user_def)
  next
    case (Cons m ms)
    have "get_active_key_for_user u db = (Inr (Some (py_max_by vk_created_at m ms)), db)"
      using Cons rs(1) by (simp add: get_active_key_for_user_def)
    moreover have "py_max_by vk_created_at m ms \<in> set ?a"
      unfolding Cons by (rule py_max_by_in)
    moreover have "vk_created_at k' \<le> vk_created_at (py_max_by vk_created_at m ms)"
      if "k' \<in> set ?a" for k'
      using that unfolding Cons by (rule py_max_by_ge)
    ultimately show ?thesis using a by auto
  qed
qed

text \<open>A successful insert keeps the invariant and adds exactly the record.\<close>

lemma save_virtual_key_ok:
  assumes "db_ok db" and "save_virtual_key r db = (Inr (), db')"
  shows "\<exists>uuid. uuid_in (vk_id r) = Some uuid \<and> db_ok db' \<and>
    db_keys db' = insert (r\<lparr>vk_id := uuid\<rparr>) (db_keys db) \<and> db_users db' = db_users db"
proof -
  from assms(2) obtain uuid where u: "uuid_in (vk_id r) = Some uuid"
    and *: "uuid \<notin> kr_id ` set (db_virtual_keys db)" "vk_key_hash r \<notin> kr_key_hash ` set (db_virtual_keys db)"
      "vk_user_id r \<in> us_id ` set (db_users db)"
    and db': "db' = db\<lparr>db_virtual_keys := db_virtual_keys db @ [record_to_row uuid r]\<rparr>"
    by (auto simp: save_virtual_key_defs Let_def record_to_row_def split: option.splits if_splits)
  have r: "kr_id (record_to_row uuid r) = uuid" "kr_key_hash (record_to_row uuid r) = vk_key_hash r"
    "kr_user_id (record_to_row uuid r) = vk_user_id r"
    by (simp_all add: record_to_row_def)
  have "db_ok db'" using assms(1) * by (auto simp: db_ok_def db' r)
  then show ?thesis using u by (auto simp: db' db_keys_def)
qed

lemma save_virtual_key_fail: "save_virtual_key r db = (Inl e, db') \<Longrightarrow> db' = db"
  by (auto simp: save_virtual_key_defs Let_def split: option.splits if_splits)

lemma db_keys_hash_inj:
  assumes "db_ok db" "k \<in> db_keys db" "k' \<in> db_keys db" "vk_key_hash k = vk_key_hash k'"
  shows "k = k'"
proof -
  obtain x y where xy: "x \<in> set (db_virtual_keys db)" "k = the_record x"
    "y \<in> set (db_virtual_keys db)" "k' = the_record y"
    using assms(2, 3) by (auto simp: db_keys_def)
  then have "kr_key_hash x = kr_key_hash y"
    using assms(4) the_record_fields(1) [OF db_ok_row [OF assms(1)]] by simp
  moreover have "inj_on kr_key_hash (set (db_virtual_keys db))"
    using assms(1) by (simp add: db_ok_def distinct_map)
  ultimately show ?thesis using xy by (metis inj_onD)
qed

text \<open>An existing identifier cannot be saved again: the store inserts and never updates.\<close>

lemma save_virtual_key_existing:
  assumes "k \<in> db_keys db" and "db_ok db" and "uuid_in (vk_id r) = Some (vk_id k)"
  shows "\<exists>c. save_virtual_key r db = (Inl (PyErr c), db)"
proof -
  obtain x where x: "x \<in> set (db_virtual_keys db)" "k = the_record x"
    using assms(1) by (auto simp: db_keys_def)
  then have "vk_id k \<in> kr_id ` set (db_virtual_keys db)"
    using the_record_fields(3) [OF db_ok_row [OF assms(2)]] by auto
  then show ?thesis using assms(3) by (auto simp: save_virtual_key_defs Let_def record_to_row_def)
qed

subsection \<open>The ledger interface\<close>

text \<open>
  \<open>VirtualKeyLedgerRepository\<close> and \<open>VirtualKeyAuthRepository\<close>: what the services may assume of
  the key ledger. \<open>keys\<close> is the set of records a state holds; \<open>storable\<close> says that a record's
  identifier is stored as it is.
\<close>

locale key_ledger =
  fixes get_active :: "string \<Rightarrow> ('s, VirtualKeyRecord option) op"
    and get_by_hash :: "string \<Rightarrow> ('s, VirtualKeyRecord option) op"
    and save :: "VirtualKeyRecord \<Rightarrow> ('s, unit) op"
    and inv :: "'s \<Rightarrow> bool"
    and keys :: "'s \<Rightarrow> VirtualKeyRecord set"
    and storable :: "VirtualKeyRecord \<Rightarrow> bool"
  assumes get_active: "inv s \<Longrightarrow> \<exists>r. get_active u s = (Inr r, s) \<and>
      (case r of
         None \<Rightarrow> \<forall>k \<in> keys s. vk_user_id k = u \<longrightarrow> vk_status k \<noteq> ACTIVE
       | Some k \<Rightarrow> k \<in> keys s \<and> vk_user_id k = u \<and> vk_status k = ACTIVE \<and>
           (\<forall>k' \<in> keys s. vk_user_id k' = u \<and> vk_status k' = ACTIVE \<longrightarrow>
              vk_created_at k' \<le> vk_created_at k))"
    and get_by_hash: "inv s \<Longrightarrow> \<exists>r. get_by_hash h s = (Inr r, s) \<and>
      (case r of None \<Rightarrow> \<forall>k \<in> keys s. vk_key_hash k \<noteq> h
               | Some k \<Rightarrow> k \<in> keys s \<and> vk_key_hash k = h)"
    and save_ok: "inv s \<Longrightarrow> storable k \<Longrightarrow> save k s = (Inr (), s') \<Longrightarrow>
      inv s' \<and> keys s' = insert k (keys s)"
    and save_fail: "save k s = (Inl e, s') \<Longrightarrow> s' = s"
    and hash_inj: "inv s \<Longrightarrow> k \<in> keys s \<Longrightarrow> k' \<in> keys s \<Longrightarrow> vk_key_hash k = vk_key_hash k' \<Longrightarrow> k = k'"
begin

lemma get_by_hash_in:
  assumes "inv s" and "k \<in> keys s" and "vk_key_hash k = h"
  shows "get_by_hash h s = (Inr (Some k), s)"
proof -
  obtain r where r: "get_by_hash h s = (Inr r, s)"
    "case r of None \<Rightarrow> \<forall>k \<in> keys s. vk_key_hash k \<noteq> h
             | Some k \<Rightarrow> k \<in> keys s \<and> vk_key_hash k = h"
    using get_by_hash [OF assms(1)] by blast
  with assms(2, 3) obtain k' where "r = Some k'" "k' \<in> keys s" "vk_key_hash k' = h"
    by (cases r) auto
  with r(1) show ?thesis using hash_inj [OF assms(1), of k' k] assms(2, 3) by simp
qed

lemma get_by_hash_Some:
  assumes "inv s" and "get_by_hash h s = (Inr (Some k), s')"
  shows "s' = s \<and> k \<in> keys s \<and> vk_key_hash k = h"
  using get_by_hash [OF assms(1), of h] assms(2) by auto

lemma get_active_Some:
  assumes "inv s" and "get_active u s = (Inr (Some k), s')"
  shows "s' = s \<and> k \<in> keys s \<and> vk_user_id k = u \<and> vk_status k = ACTIVE"
  using get_active [OF assms(1), of u] assms(2) by auto

lemma get_active_total: "inv s \<Longrightarrow> \<exists>r. get_active u s = (Inr r, s)"
  using get_active by blast

text \<open>A saved record is found under its hash, and the user then has an active key.\<close>

lemma saved_found:
  assumes "inv s" and "storable k" and "save k s = (Inr (), s')"
  shows "get_by_hash (vk_key_hash k) s' = (Inr (Some k), s')"
  using save_ok [OF assms] by (intro get_by_hash_in) auto

lemma saved_active:
  assumes "inv s" and "storable k" and "save k s = (Inr (), s')" and "vk_status k = ACTIVE"
  shows "\<exists>k'. get_active (vk_user_id k) s' = (Inr (Some k'), s') \<and> vk_created_at k \<le> vk_created_at k'"
proof -
  have s': "inv s'" "k \<in> keys s'" using save_ok [OF assms(1-3)] by auto
  then obtain r where r: "get_active (vk_user_id k) s' = (Inr r, s')"
    "case r of
         None \<Rightarrow> \<forall>k'' \<in> keys s'. vk_user_id k'' = vk_user_id k \<longrightarrow> vk_status k'' \<noteq> ACTIVE
       | Some k' \<Rightarrow> k' \<in> keys s' \<and> vk_user_id k' = vk_user_id k \<and> vk_status k' = ACTIVE \<and>
           (\<forall>k'' \<in> keys s'. vk_user_id k'' = vk_user_id k \<and> vk_status k'' = ACTIVE \<longrightarrow>
              vk_created_at k'' \<le> vk_created_at k')"
    using get_active by blast
  then show ?thesis using s'(2) assms(4) by (cases r) auto
qed

end

definition storable_id :: "VirtualKeyRecord \<Rightarrow> bool" where
  "storable_id k \<longleftrightarrow> uuid_in (vk_id k) = Some (vk_id k)"

interpretation postgres: key_ledger get_active_key_for_user get_virtual_key_by_hash
  save_virtual_key db_ok db_keys storable_id
proof (unfold_locales, goal_cases)
  case (3 s k s')
  then show ?case using save_virtual_key_ok [of s k s'] by (auto simp: storable_id_def)
qed (rule get_active_key_spec get_virtual_key_by_hash_spec save_virtual_key_fail db_keys_hash_inj,
  assumption+)+

end
