(* ===== verification/AdminApi.thy ===== *)
theory AdminApi
  imports Stores
begin

section \<open>The admin API (\<open>api/admin_*.py\<close>)\<close>

text \<open>
  The endpoints operators and auditors call, each a guard on the caller's role followed by a
  service. The services work on stores that have no implementation in the repository: they are
  operations on an arbitrary state, given by the dependency records below. A request is its
  headers (the lookup the framework offers) and its payload; FastAPI's \<open>HTTPException\<close> is an
  exception with its status, and an answer is kept before it is encoded.
\<close>

subsection \<open>Roles (\<open>api/admin_auth.py\<close>)\<close>

definition ADMIN_ROLE_OPERATOR :: string where "ADMIN_ROLE_OPERATOR = ''operator''"

definition ADMIN_ROLE_AUDITOR :: string where "ADMIN_ROLE_AUDITOR = ''auditor''"

record AdminActor =
  aa_principal_id :: string
  aa_role :: string

record 's AdminAccess =
  ac_get_admin_role :: "(string \<Rightarrow> ('s, string option) op) option"
  ac_principal_header :: string

type_synonym headers = "string \<Rightarrow> string option"

definition admin_denied :: py_exc where
  "admin_denied = HttpErr 403 ''Admin access denied.''"

definition require_admin_role :: "'s AdminAccess \<Rightarrow> headers \<Rightarrow> string list \<Rightarrow> ('s, AdminActor) op" where
  "require_admin_role access headers allowed_roles =
     (case (ac_get_admin_role access, headers (ac_principal_header access)) of
        (Some lookup_role, Some principal_id) \<Rightarrow>
          if py_strip principal_id = [] then raiseM admin_denied
          else bindM (lookup_role (py_strip principal_id)) (\<lambda>role. case role of
              None \<Rightarrow> raiseM admin_denied
            | Some r \<Rightarrow>
                if r \<notin> set allowed_roles then raiseM admin_denied
                else returnM \<lparr>aa_principal_id = py_strip principal_id, aa_role = r\<rparr>)
      | _ \<Rightarrow> raiseM admin_denied)"

definition allowed_roles_for_read :: "string list" where
  "allowed_roles_for_read = [ADMIN_ROLE_OPERATOR, ADMIN_ROLE_AUDITOR]"

definition require_admin_read :: "'s AdminAccess \<Rightarrow> headers \<Rightarrow> ('s, AdminActor) op" where
  "require_admin_read access headers = require_admin_role access headers allowed_roles_for_read"

definition require_admin_write :: "'s AdminAccess \<Rightarrow> headers \<Rightarrow> ('s, AdminActor) op" where
  "require_admin_write access headers = require_admin_role access headers [ADMIN_ROLE_OPERATOR]"

text \<open>A service that is not configured.\<close>

definition configured :: "string \<Rightarrow> 'd option \<Rightarrow> ('s, 'd) op" where
  "configured what d = (case d of
     None \<Rightarrow> raiseM (HttpErr 500 (what @ '' is not configured.'')) | Some x \<Rightarrow> returnM x)"

text \<open>The service each module takes from the application's dependencies.\<close>

definition user_provisioning_service :: "'d option \<Rightarrow> ('s, 'd) op" where
  [simp]: "user_provisioning_service = configured ''User provisioning service''"

definition budget_policy_service :: "'d option \<Rightarrow> ('s, 'd) op" where
  [simp]: "budget_policy_service = configured ''Budget policy service''"

definition virtual_key_service :: "'d option \<Rightarrow> ('s, 'd) op" where
  [simp]: "virtual_key_service = configured ''Virtual key admin service''"

definition model_mapping_service :: "'d option \<Rightarrow> ('s, 'd) op" where
  [simp]: "model_mapping_service = configured ''Model mapping service''"

definition usage_query_service :: "'d option \<Rightarrow> ('s, 'd) op" where
  [simp]: "usage_query_service = configured ''Usage query service''"

definition internal_cache_ops_service :: "'d option \<Rightarrow> ('s, 'd) op" where
  [simp]: "internal_cache_ops_service = configured ''Internal cache operations service''"

subsection \<open>Users (\<open>api/admin_users.py\<close>)\<close>

record UserProvisioningRequest =
  up_username :: string
  up_user_id :: string
  up_email :: string
  up_display_name :: string
  up_department :: "string option"
  up_cost_center :: "string option"
  up_groups :: "string list"
  up_proxy_access_enabled :: bool
  up_is_active :: bool

type_synonym 's user_store = "UserRecord \<Rightarrow> IdentityMapping \<Rightarrow> ('s, unit) op"

text \<open>The three timestamps are the defaults the records draw, in order.\<close>

definition provision ::
    "'s user_store \<Rightarrow> datetime \<times> datetime \<times> datetime \<Rightarrow> UserProvisioningRequest \<Rightarrow>
     ('s, UserRecord \<times> IdentityMapping) op" where
  "provision store stamps request =
     (let user = \<lparr>ur_id = up_user_id request, ur_email = up_email request,
            ur_display_name = up_display_name request, ur_department = up_department request,
            ur_cost_center = up_cost_center request, ur_groups = up_groups request,
            ur_proxy_access_enabled = up_proxy_access_enabled request,
            ur_is_active = up_is_active request, ur_created_at = fst stamps,
            ur_updated_at = fst (snd stamps)\<rparr>;
          mapping = \<lparr>im_username = up_username request, im_user_id = up_user_id request,
            im_identity_provider = ''identity-center'', im_created_at = snd (snd stamps)\<rparr>
      in bindM (store user mapping) (\<lambda>_. returnM (user, mapping)))"

definition create_user ::
    "'s AdminAccess \<Rightarrow> 's user_store option \<Rightarrow> headers \<Rightarrow> datetime \<times> datetime \<times> datetime \<Rightarrow>
     UserProvisioningRequest \<Rightarrow> ('s, (string, json) pydict) op" where
  "create_user access service headers stamps payload =
     bindM (require_admin_write access headers) (\<lambda>_.
     bindM (user_provisioning_service service) (\<lambda>store.
     bindM (provision store stamps payload) (\<lambda>(user, mapping).
     returnM
       [(''user_id'', JStr (ur_id user)), (''username'', JStr (im_username mapping)),
        (''email'', JStr (ur_email user)), (''display_name'', JStr (ur_display_name user)),
        (''proxy_access_enabled'', JBool (ur_proxy_access_enabled user)),
        (''is_active'', JBool (ur_is_active user))])))"

subsection \<open>Budget policies (\<open>api/admin_budget_policies.py\<close>)\<close>

record BudgetPolicyCreateRequest =
  bc_id :: string
  bc_period_type :: BudgetPeriodType
  bc_metric_type :: BudgetMetricType
  bc_limit_value :: int
  bc_soft_limit_percent :: int
  bc_hard_limit_percent :: int

definition validate_percent_thresholds ::
    "BudgetPolicyCreateRequest \<Rightarrow> BudgetPolicyCreateRequest res" where
  "validate_percent_thresholds r =
     (if bc_hard_limit_percent r < bc_soft_limit_percent r then Inl value_error
      else if 100 < bc_hard_limit_percent r then Inl value_error
      else Inr r)"

record 's BudgetPolicyAdminService =
  ba_get_user :: "string \<Rightarrow> ('s, UserRecord option) op"
  ba_create_policy :: "BudgetPolicyRecord \<Rightarrow> ('s, unit) op"

definition require_user :: "'s BudgetPolicyAdminService \<Rightarrow> string \<Rightarrow> ('s, UserRecord) op" where
  "require_user service user_id =
     bindM (ba_get_user service user_id) (\<lambda>user. case user of
         None \<Rightarrow> raiseM (HttpErr 404 ''User not found.'')
       | Some u \<Rightarrow> returnM u)"

definition create_user_policy ::
    "'s BudgetPolicyAdminService \<Rightarrow> string \<Rightarrow> BudgetPolicyCreateRequest \<Rightarrow> ('s, BudgetPolicyRecord) op" where
  "create_user_policy service user_id request =
     bindM (require_user service user_id) (\<lambda>user.
     if \<not> ur_is_active user
     then raiseM (HttpErr 400 ''Cannot create budget policy for inactive user.'')
     else let policy = \<lparr>bp_id = bc_id request, bp_scope_type = ''user'', bp_scope_id = user_id,
            bp_period_type = bc_period_type request, bp_metric_type = bc_metric_type request,
            bp_limit_value = bc_limit_value request,
            bp_soft_limit_percent = bc_soft_limit_percent request,
            bp_hard_limit_percent = bc_hard_limit_percent request, bp_is_active = True\<rparr>
       in bindM (ba_create_policy service policy) (\<lambda>_. returnM policy))"

text \<open>The payload is validated before the endpoint runs.\<close>

definition create_user_budget_policy ::
    "'s AdminAccess \<Rightarrow> 's BudgetPolicyAdminService option \<Rightarrow> headers \<Rightarrow> string \<Rightarrow>
     BudgetPolicyCreateRequest \<Rightarrow> ('s, BudgetPolicyRecord) op" where
  "create_user_budget_policy access service headers user_id payload =
     bindM (liftR (validate_percent_thresholds payload)) (\<lambda>request.
     bindM (require_admin_write access headers) (\<lambda>_.
     bindM (budget_policy_service service) (\<lambda>svc.
     create_user_policy svc user_id request)))"

subsection \<open>Virtual keys (\<open>api/admin_virtual_keys.py\<close>)\<close>

record 's VirtualKeyLifecycleService =
  vl_get_key :: "string \<Rightarrow> ('s, VirtualKeyRecord option) op"
  vl_save_key :: "VirtualKeyRecord \<Rightarrow> ('s, unit) op"
  vl_encrypt :: "string \<Rightarrow> string"
  vl_invalidate_token_service_cache :: "string \<Rightarrow> ('s, unit) op"
  vl_invalidate_proxy_auth_cache :: "string \<Rightarrow> ('s, unit) op"
  vl_clock :: "('s, datetime) op"
  vl_key_generator :: "('s, string) op"
  vl_key_id_generator :: "('s, string) op"

definition require_key :: "'s VirtualKeyLifecycleService \<Rightarrow> string \<Rightarrow> ('s, VirtualKeyRecord) op" where
  "require_key svc key_id =
     bindM (vl_get_key svc key_id) (\<lambda>found. case found of
         None \<Rightarrow> raiseM (HttpErr 404 ''Virtual key not found.'')
       | Some k \<Rightarrow> returnM k)"

definition invalidate :: "'s VirtualKeyLifecycleService \<Rightarrow> VirtualKeyRecord \<Rightarrow> ('s, unit) op" where
  "invalidate svc r =
     bindM (vl_invalidate_token_service_cache svc (vk_user_id r)) (\<lambda>_.
     vl_invalidate_proxy_auth_cache svc (vk_id r))"

definition revoke :: "'s VirtualKeyLifecycleService \<Rightarrow> string \<Rightarrow> ('s, VirtualKeyRecord) op" where
  "revoke svc key_id =
     bindM (require_key svc key_id) (\<lambda>k.
     bindM (vl_clock svc) (\<lambda>now.
     let revoked = k\<lparr>vk_status := REVOKED, vk_revoked_at := Some now\<rparr> in
     bindM (vl_save_key svc revoked) (\<lambda>_.
     bindM (invalidate svc revoked) (\<lambda>_.
     returnM revoked))))"

text \<open>\<open>disable\<close>, which is also the first part of \<open>rotate\<close>.\<close>

definition disable :: "'s VirtualKeyLifecycleService \<Rightarrow> string \<Rightarrow> ('s, VirtualKeyRecord) op" where
  "disable svc key_id =
     bindM (require_key svc key_id) (\<lambda>k.
     let disabled = k\<lparr>vk_status := DISABLED\<rparr> in
     bindM (vl_save_key svc disabled) (\<lambda>_.
     bindM (invalidate svc disabled) (\<lambda>_.
     returnM disabled)))"

definition replacement_key ::
    "'s VirtualKeyLifecycleService \<Rightarrow> VirtualKeyRecord \<Rightarrow> ('s, VirtualKeyRecord) op" where
  "replacement_key svc k =
     bindM (vl_key_generator svc) (\<lambda>new_virtual_key.
     bindM (vl_clock svc) (\<lambda>now.
     bindM (vl_key_id_generator svc) (\<lambda>key_id.
     returnM \<lparr>vk_id = key_id, vk_user_id = vk_user_id k,
       vk_key_hash = hash_virtual_key new_virtual_key,
       vk_encrypted_key_blob = vl_encrypt svc new_virtual_key,
       vk_key_prefix = get_virtual_key_prefix new_virtual_key, vk_status = ACTIVE,
       vk_created_at = now, vk_expires_at = None, vk_revoked_at = None, vk_last_used_at = None\<rparr>)))"

definition rotate ::
    "'s VirtualKeyLifecycleService \<Rightarrow> string \<Rightarrow> ('s, VirtualKeyRecord \<times> VirtualKeyRecord) op" where
  "rotate svc key_id =
     bindM (disable svc key_id) (\<lambda>disabled.
     bindM (replacement_key svc disabled) (\<lambda>replacement.
     bindM (vl_save_key svc replacement) (\<lambda>_.
     returnM (disabled, replacement))))"

definition key_status_payload :: "VirtualKeyRecord \<Rightarrow> (string, string) pydict" where
  "key_status_payload r = [(''key_id'', vk_id r), (''user_id'', vk_user_id r),
     (''status'', virtual_key_status_value (vk_status r))]"

definition revoke_virtual_key ::
    "'s AdminAccess \<Rightarrow> 's VirtualKeyLifecycleService option \<Rightarrow> headers \<Rightarrow> string \<Rightarrow> ('s, (string, string) pydict) op" where
  "revoke_virtual_key access service headers key_id =
     bindM (require_admin_write access headers) (\<lambda>_.
     bindM (virtual_key_service service) (\<lambda>svc.
     bindM (revoke svc key_id) (\<lambda>r. returnM (key_status_payload r))))"

definition disable_virtual_key ::
    "'s AdminAccess \<Rightarrow> 's VirtualKeyLifecycleService option \<Rightarrow> headers \<Rightarrow> string \<Rightarrow> ('s, (string, string) pydict) op" where
  "disable_virtual_key access service headers key_id =
     bindM (require_admin_write access headers) (\<lambda>_.
     bindM (virtual_key_service service) (\<lambda>svc.
     bindM (disable svc key_id) (\<lambda>r. returnM (key_status_payload r))))"

definition rotate_virtual_key ::
    "'s AdminAccess \<Rightarrow> 's VirtualKeyLifecycleService option \<Rightarrow> headers \<Rightarrow> string \<Rightarrow> ('s, (string, string) pydict) op" where
  "rotate_virtual_key access service headers key_id =
     bindM (require_admin_write access headers) (\<lambda>_.
     bindM (virtual_key_service service) (\<lambda>svc.
     bindM (rotate svc key_id) (\<lambda>(previous, replacement).
     returnM [(''old_key_id'', vk_id previous), (''new_key_id'', vk_id replacement),
       (''user_id'', vk_user_id replacement),
       (''status'', virtual_key_status_value (vk_status replacement))])))"

subsection \<open>Routes and prices (\<open>api/admin_model_mappings.py\<close>)\<close>

record ModelRouteUpdateRequest =
  ru_logical_model :: string
  ru_provider :: string
  ru_bedrock_api_route :: string
  ru_bedrock_model_id :: "string option"
  ru_inference_profile_id :: "string option"
  ru_supports_native_structured_output :: bool
  ru_supports_reasoning :: bool
  ru_supports_prompt_cache_ttl :: bool
  ru_supports_disable_parallel_tool_use :: bool
  ru_priority :: int
  ru_is_active :: bool

record PricingCatalogUpdateRequest =
  pu_provider :: string
  pu_model_id :: string
  pu_input_cost_per_million :: float64
  pu_output_cost_per_million :: float64
  pu_cache_write_input_cost_per_million :: float64
  pu_cache_read_input_cost_per_million :: float64
  pu_currency :: string
  pu_effective_from :: "int option"
  pu_effective_to :: "int option"

record 's ModelMappingAdminService =
  mm_upsert_model_route :: "ModelRouteRecord \<Rightarrow> ('s, unit) op"
  mm_resolver_reload :: "('s, unit) op"
  mm_upsert_pricing :: "ModelPricingRecord \<Rightarrow> ('s, unit) op"
  mm_pricing_reload :: "('s, unit) op"

definition route_record :: "string \<Rightarrow> ModelRouteUpdateRequest \<Rightarrow> ModelRouteRecord" where
  "route_record route_id r =
     \<lparr>mr_id = route_id, mr_logical_model = ru_logical_model r, mr_provider = ru_provider r,
      mr_bedrock_api_route = ru_bedrock_api_route r, mr_bedrock_model_id = ru_bedrock_model_id r,
      mr_inference_profile_id = ru_inference_profile_id r,
      mr_supports_native_structured_output = ru_supports_native_structured_output r,
      mr_supports_reasoning = ru_supports_reasoning r,
      mr_supports_prompt_cache_ttl = ru_supports_prompt_cache_ttl r,
      mr_supports_disable_parallel_tool_use = ru_supports_disable_parallel_tool_use r,
      mr_priority = ru_priority r, mr_is_active = ru_is_active r\<rparr>"

definition pricing_record :: "string \<Rightarrow> PricingCatalogUpdateRequest \<Rightarrow> ModelPricingRecord" where
  "pricing_record pricing_id r =
     \<lparr>mp_id = pricing_id, mp_provider = pu_provider r, mp_model_id = pu_model_id r,
      mp_input_cost_per_million = pu_input_cost_per_million r,
      mp_output_cost_per_million = pu_output_cost_per_million r,
      mp_cache_write_input_cost_per_million = pu_cache_write_input_cost_per_million r,
      mp_cache_read_input_cost_per_million = pu_cache_read_input_cost_per_million r,
      mp_currency = pu_currency r, mp_effective_from = pu_effective_from r,
      mp_effective_to = pu_effective_to r\<rparr>"

definition service_update_model_route ::
    "'s ModelMappingAdminService \<Rightarrow> string \<Rightarrow> ModelRouteUpdateRequest \<Rightarrow> ('s, ModelRouteRecord) op" where
  "service_update_model_route svc route_id request =
     bindM (mm_upsert_model_route svc (route_record route_id request)) (\<lambda>_.
     bindM (mm_resolver_reload svc) (\<lambda>_.
     returnM (route_record route_id request)))"

definition service_update_pricing_catalog ::
    "'s ModelMappingAdminService \<Rightarrow> string \<Rightarrow> PricingCatalogUpdateRequest \<Rightarrow> ('s, ModelPricingRecord) op" where
  "service_update_pricing_catalog svc pricing_id request =
     bindM (mm_upsert_pricing svc (pricing_record pricing_id request)) (\<lambda>_.
     bindM (mm_pricing_reload svc) (\<lambda>_.
     returnM (pricing_record pricing_id request)))"

definition update_model_route ::
    "'s AdminAccess \<Rightarrow> 's ModelMappingAdminService option \<Rightarrow> headers \<Rightarrow> string \<Rightarrow> ModelRouteUpdateRequest \<Rightarrow>
     ('s, ModelRouteRecord) op" where
  "update_model_route access service headers route_id payload =
     bindM (require_admin_write access headers) (\<lambda>_.
     bindM (model_mapping_service service) (\<lambda>svc.
     service_update_model_route svc route_id payload))"

definition update_pricing_catalog ::
    "'s AdminAccess \<Rightarrow> 's ModelMappingAdminService option \<Rightarrow> headers \<Rightarrow> string \<Rightarrow> PricingCatalogUpdateRequest \<Rightarrow>
     ('s, ModelPricingRecord) op" where
  "update_pricing_catalog access service headers pricing_id payload =
     bindM (require_admin_write access headers) (\<lambda>_.
     bindM (model_mapping_service service) (\<lambda>svc.
     service_update_pricing_catalog svc pricing_id payload))"

subsection \<open>Usage and audit queries (\<open>api/admin_usage.py\<close>)\<close>

record UsageFilter =
  uf_user_id :: "string option"
  uf_team_id :: "string option"
  uf_model :: "string option"

record 's UsageQueryService =
  uq_query_usage :: "UsageFilter \<Rightarrow> ('s, UsageEventRecord list) op"
  uq_query_audit_events :: "UsageFilter \<Rightarrow> string option \<Rightarrow> ('s, AuditEventRecord list) op"

definition list_usage ::
    "'s AdminAccess \<Rightarrow> 's UsageQueryService option \<Rightarrow> headers \<Rightarrow> UsageFilter \<Rightarrow> ('s, UsageEventRecord list) op" where
  "list_usage access service headers f =
     bindM (require_admin_read access headers) (\<lambda>_.
     bindM (usage_query_service service) (\<lambda>svc.
     uq_query_usage svc f))"

definition list_audit_events ::
    "'s AdminAccess \<Rightarrow> 's UsageQueryService option \<Rightarrow> headers \<Rightarrow> UsageFilter \<Rightarrow> string option \<Rightarrow>
     ('s, AuditEventRecord list) op" where
  "list_audit_events access service headers f event_type =
     bindM (require_admin_read access headers) (\<lambda>_.
     bindM (usage_query_service service) (\<lambda>svc.
     uq_query_audit_events svc f event_type))"

subsection \<open>Internal operations (\<open>api/internal_ops.py\<close>)\<close>

definition require_internal_token :: "string option \<Rightarrow> headers \<Rightarrow> ('s, unit) op" where
  "require_internal_token expected_token headers =
     (case expected_token of
        None \<Rightarrow> raiseM (HttpErr 500 ''Internal operations token is not configured.'')
      | Some t \<Rightarrow>
          if headers ''X-Internal-Token'' \<noteq> Some t
          then raiseM (HttpErr 403 ''Internal access denied.'')
          else returnM ())"

text \<open>The service the deployment gives it, over the cache.\<close>

definition CacheInvalidationService :: "(string \<Rightarrow> ('s, unit) op) \<Rightarrow> string \<Rightarrow> ('s, unit) op" where
  "CacheInvalidationService invalidate_user user_id = invalidate_user user_id"

definition invalidate_user_cache ::
    "string option \<Rightarrow> (string \<Rightarrow> ('s, unit) op) option \<Rightarrow> headers \<Rightarrow> string \<Rightarrow> ('s, (string, string) pydict) op" where
  "invalidate_user_cache token service headers user_id =
     bindM (require_internal_token token headers) (\<lambda>_.
     bindM (internal_cache_ops_service service) (\<lambda>invalidate_user.
     bindM (invalidate_user user_id) (\<lambda>_.
     returnM [(''status'', ''accepted''), (''user_id'', user_id)])))"

subsection \<open>Who may do what\<close>

definition has_role :: "'s AdminAccess \<Rightarrow> headers \<Rightarrow> 's \<Rightarrow> string \<Rightarrow> bool" where
  "has_role access headers s r \<longleftrightarrow> (\<exists>lookup p. ac_get_admin_role access = Some lookup \<and>
     headers (ac_principal_header access) = Some p \<and> py_strip p \<noteq> [] \<and>
     fst (lookup (py_strip p) s) = Inr (Some r))"

text \<open>A role lookup that reads and does not raise.\<close>

definition reads_roles :: "'s AdminAccess \<Rightarrow> bool" where
  "reads_roles access \<longleftrightarrow> (\<forall>lookup p s. ac_get_admin_role access = Some lookup \<longrightarrow>
     (\<exists>r. lookup p s = (Inr r, s)))"

lemma require_admin_role_spec:
  assumes "reads_roles access"
  shows "require_admin_role access headers roles s =
    (if \<exists>r \<in> set roles. has_role access headers s r
     then (Inr \<lparr>aa_principal_id = py_strip (the (headers (ac_principal_header access))),
             aa_role = (THE r. has_role access headers s r)\<rparr>, s)
     else (Inl admin_denied, s))"
proof (cases "ac_get_admin_role access")
  case None
  then show ?thesis by (simp add: require_admin_role_def has_role_def)
next
  case (Some lookup)
  show ?thesis
  proof (cases "headers (ac_principal_header access)")
    case None
    then show ?thesis using Some by (simp add: require_admin_role_def has_role_def)
  next
    case (Some p)
    obtain r where "lookup (py_strip p) s = (Inr r, s)"
      using assms \<open>ac_get_admin_role access = Some lookup\<close> by (auto simp: reads_roles_def)
    then show ?thesis using Some \<open>ac_get_admin_role access = Some lookup\<close>
      by (cases r) (auto simp: require_admin_role_def has_role_def)
  qed
qed

end
