(* ===== verification/KeyCache.thy ===== *)
theory KeyCache
  imports Stores
begin

section \<open>The DynamoDB key cache (\<open>repositories/virtual_key_repository.py\<close>)\<close>

text \<open>
  \<open>DynamoDbVirtualKeyCache\<close> over any table with the operations of the \<open>DynamoDbTable\<close> protocol,
  and \<open>Boto3DynamoDbTable\<close>, the wrapper of the AWS client. An item is an untyped mapping, so
  the cache's reads can fail on a malformed one. The locale \<open>dynamodb_table\<close> states the laws of
  a key-value table and is interpreted by the wrapper over a client that stores items by their
  \<open>user_id\<close>; \<open>key_cache\<close>, the interface of the token service, follows from it.
\<close>

record 't DynamoDbTable =
  dt_get_item :: "string \<Rightarrow> ('t, json) op"
  dt_put_item :: "(string, json) pydict \<Rightarrow> ('t, unit) op"
  dt_delete_item :: "string \<Rightarrow> ('t, unit) op"

definition VirtualKeyStatus_of_json :: "json \<Rightarrow> VirtualKeyStatus res" where
  "VirtualKeyStatus_of_json v = (case v of JStr s \<Rightarrow> VirtualKeyStatus_of s | _ \<Rightarrow> Inl value_error)"

text \<open>The item becomes an entry only when it has not expired and its status is active.\<close>

definition read_cache_item :: "json \<Rightarrow> datetime \<Rightarrow> VirtualKeyCacheEntry option res" where
  "read_cache_item item now =
     (if item = JNull then Inr None
      else bindR (bindR (py_getitem item ''ttl'') py_int) (\<lambda>ttl.
        if ttl \<le> int_timestamp now then Inr None
        else bindR (bindR (py_getitem item ''status'') VirtualKeyStatus_of_json) (\<lambda>status.
          if status \<noteq> ACTIVE then Inr None
          else bindR (py_getitem item ''user_id'') (\<lambda>user_id.
               bindR (py_getitem item ''virtual_key_id'') (\<lambda>virtual_key_id.
               bindR (py_getitem item ''encrypted_key_ref'') (\<lambda>encrypted_key_ref.
               bindR (py_getitem item ''key_prefix'') (\<lambda>key_prefix.
               Inr (Some \<lparr>ce_user_id = py_str user_id, ce_virtual_key_id = py_str virtual_key_id,
                          ce_encrypted_key_ref = py_str encrypted_key_ref,
                          ce_key_prefix = py_str key_prefix, ce_status = status,
                          ce_ttl = ttl\<rparr>)))))))) "

definition cache_get_active_key ::
    "'t DynamoDbTable \<Rightarrow> string \<Rightarrow> datetime \<Rightarrow> ('t, VirtualKeyCacheEntry option) op" where
  "cache_get_active_key table user_id now =
     bindM (dt_get_item table user_id) (\<lambda>item. liftR (read_cache_item item now))"

definition cache_payload :: "VirtualKeyCacheEntry \<Rightarrow> (string, json) pydict" where
  "cache_payload entry =
     [(''user_id'', JStr (ce_user_id entry)),
      (''virtual_key_id'', JStr (ce_virtual_key_id entry)),
      (''encrypted_key_ref'', JStr (ce_encrypted_key_ref entry)),
      (''key_prefix'', JStr (ce_key_prefix entry)),
      (''status'', JStr (virtual_key_status_value (ce_status entry))),
      (''ttl'', JInt (ce_ttl entry))]"

definition cache_put_active_key :: "'t DynamoDbTable \<Rightarrow> VirtualKeyCacheEntry \<Rightarrow> ('t, unit) op" where
  "cache_put_active_key table entry = dt_put_item table (cache_payload entry)"

definition cache_invalidate_user :: "'t DynamoDbTable \<Rightarrow> string \<Rightarrow> ('t, unit) op" where
  "cache_invalidate_user table user_id = dt_delete_item table user_id"

text \<open>An entry that was written is read back while its time to live lasts.\<close>

lemma read_cache_payload:
  "read_cache_item (JObj (cache_payload e)) now =
     Inr (if ce_ttl e \<le> int_timestamp now \<or> ce_status e \<noteq> ACTIVE then None else Some e)"
  by (simp add: read_cache_item_def cache_payload_def VirtualKeyStatus_of_json_def)

lemma read_cache_item_Some:
  assumes "read_cache_item item now = Inr (Some e)"
  shows "int_timestamp now < ce_ttl e \<and> ce_status e = ACTIVE"
  using assms by (auto simp: read_cache_item_def bindR_eq_Inr split: if_splits)

subsection \<open>The wrapper of the AWS client\<close>

text \<open>\<open>Boto3DynamoDbTable\<close>: the client answers \<open>get_item\<close> with a mapping that may hold \<open>Item\<close>.\<close>

record 't Boto3Client =
  bc_get_item :: "string \<Rightarrow> ('t, (string, json) pydict) op"
  bc_put_item :: "(string, json) pydict \<Rightarrow> ('t, unit) op"
  bc_delete_item :: "string \<Rightarrow> ('t, unit) op"

definition Boto3DynamoDbTable :: "'t Boto3Client \<Rightarrow> 't DynamoDbTable" where
  "Boto3DynamoDbTable client =
     \<lparr>dt_get_item = (\<lambda>user_id. bindM (bc_get_item client user_id) (\<lambda>response.
        returnM (dget response ''Item'' JNull))),
      dt_put_item = (\<lambda>item. bc_put_item client item),
      dt_delete_item = (\<lambda>user_id. bc_delete_item client user_id)\<rparr>"

subsection \<open>The interface of the table and of the cache\<close>

locale dynamodb_table =
  fixes table :: "'t DynamoDbTable"
  assumes item_put: "map_of item ''user_id'' = Some (JStr u) \<Longrightarrow> dt_put_item table item t = (Inr (), t') \<Longrightarrow>
      dt_get_item table u t' = (Inr (JObj item), t')"
    and item_put_other: "map_of item ''user_id'' = Some (JStr u) \<Longrightarrow> v \<noteq> u \<Longrightarrow>
      dt_put_item table item t = (Inr (), t') \<Longrightarrow>
      dt_get_item table v t' = (fst (dt_get_item table v t), t')"
    and item_delete: "dt_delete_item table u t = (Inr (), t') \<Longrightarrow> dt_get_item table u t' = (Inr JNull, t')"
    and item_delete_other: "v \<noteq> u \<Longrightarrow> dt_delete_item table u t = (Inr (), t') \<Longrightarrow>
      dt_get_item table v t' = (fst (dt_get_item table v t), t')"
    and item_same: "snd (dt_get_item table u t) = t"

locale key_cache =
  fixes get :: "string \<Rightarrow> datetime \<Rightarrow> ('c, VirtualKeyCacheEntry option) op"
    and put :: "VirtualKeyCacheEntry \<Rightarrow> ('c, unit) op"
    and invalidate :: "string \<Rightarrow> ('c, unit) op"
  assumes get_put: "put e c = (Inr (), c') \<Longrightarrow> get (ce_user_id e) now c' =
      (Inr (if ce_ttl e \<le> int_timestamp now \<or> ce_status e \<noteq> ACTIVE then None else Some e), c')"
    and get_put_other: "put e c = (Inr (), c') \<Longrightarrow> u \<noteq> ce_user_id e \<Longrightarrow>
      get u now c' = (fst (get u now c), c')"
    and get_invalidate: "invalidate u c = (Inr (), c') \<Longrightarrow> get u now c' = (Inr None, c')"
    and get_invalidate_other: "invalidate u c = (Inr (), c') \<Longrightarrow> v \<noteq> u \<Longrightarrow>
      get v now c' = (fst (get v now c), c')"
    and get_same: "snd (get u now c) = c"
    and get_fresh: "get u now c = (Inr (Some e), c') \<Longrightarrow> int_timestamp now < ce_ttl e \<and> ce_status e = ACTIVE"
begin

text \<open>A hit needs a write: nothing is served for a user after an invalidation.\<close>

lemma no_hit_after_invalidate:
  "invalidate u c = (Inr (), c') \<Longrightarrow> fst (get u now c') = Inr None"
  by (simp add: get_invalidate)

text \<open>What is served was written by the last put for that user, and only until it expires.\<close>

lemma hit_is_last_put:
  assumes "put e c = (Inr (), c')" and "get (ce_user_id e) now c' = (Inr (Some e'), c'')"
  shows "e' = e \<and> int_timestamp now < ce_ttl e \<and> c'' = c'"
  using get_put [OF assms(1)] assms(2) by (auto split: if_splits)

lemma expired_put_not_served:
  assumes "put e c = (Inr (), c')" and "ce_ttl e \<le> int_timestamp now"
  shows "get (ce_user_id e) now c' = (Inr None, c')"
  using get_put [OF assms(1), of now] assms(2) by simp

end

context dynamodb_table
begin

lemma cache_get_run:
  "dt_get_item table u t = (Inr item, t') \<Longrightarrow>
     cache_get_active_key table u now t = (read_cache_item item now, t')"
  by (simp add: cache_get_active_key_def)

lemma cache_get_err:
  "dt_get_item table u t = (Inl e, t') \<Longrightarrow> cache_get_active_key table u now t = (Inl e, t')"
  by (simp add: cache_get_active_key_def)

lemma cache_get_other:
  assumes "dt_get_item table v t' = (fst (dt_get_item table v t), t')"
  shows "cache_get_active_key table v now t' = (fst (cache_get_active_key table v now t), t')"
proof (cases "dt_get_item table v t")
  case (Pair r s)
  then show ?thesis using assms by (cases r) (simp_all add: cache_get_active_key_def)
qed

lemma cache_get_same: "snd (cache_get_active_key table u now t) = t"
proof (cases "dt_get_item table u t")
  case (Pair r s)
  then show ?thesis
    using item_same [of u t] by (cases r) (simp_all add: cache_get_active_key_def)
qed

lemma cache_get_payload: "map_of (cache_payload e) ''user_id'' = Some (JStr (ce_user_id e))"
  by (simp add: cache_payload_def)

end

sublocale dynamodb_table \<subseteq> key_cache "cache_get_active_key table" "cache_put_active_key table"
  "cache_invalidate_user table"
proof (unfold_locales, goal_cases)
  case (1 e c c' now)
  then show ?case
    using item_put [OF cache_get_payload] by (simp add: cache_put_active_key_def cache_get_run read_cache_payload)
next
  case (2 e c c' u now)
  then show ?case
    using item_put_other [OF cache_get_payload, of u e c c'] by (simp add: cache_put_active_key_def cache_get_other)
next
  case (3 u c c' now)
  then show ?case
    using item_delete [of u c c'] by (simp add: cache_invalidate_user_def cache_get_run read_cache_item_def)
next
  case (4 u c c' v now)
  then show ?case
    using item_delete_other [of v u c c'] by (simp add: cache_invalidate_user_def cache_get_other)
next
  case (5 u now c)
  show ?case by (rule cache_get_same)
next
  case (6 u now c e c')
  then show ?case
    by (auto simp: cache_get_active_key_def bindM_eq dest: read_cache_item_Some)
qed

subsection \<open>A client that stores items by their key\<close>

text \<open>
  The table the assembled program works on: reads see the last write, and nothing fails but a put
  without a key. What holds of any client is proved in \<open>key_cache\<close>.
\<close>

type_synonym DynamoState = "string \<Rightarrow> (string, json) pydict option"

definition dynamo_client :: "DynamoState Boto3Client" where
  "dynamo_client =
     \<lparr>bc_get_item = (\<lambda>u t. (Inr (case t u of None \<Rightarrow> [] | Some item \<Rightarrow> [(''Item'', JObj item)]), t)),
      bc_put_item = (\<lambda>item t. case map_of item ''user_id'' of
          Some (JStr u) \<Rightarrow> (Inr (), t(u \<mapsto> item))
        | _ \<Rightarrow> (Inl (PyErr ''ClientError''), t)),
      bc_delete_item = (\<lambda>u t. (Inr (), t(u := None)))\<rparr>"

definition dynamo_table :: "DynamoState DynamoDbTable" where
  "dynamo_table = Boto3DynamoDbTable dynamo_client"

lemma dynamo_get_run:
  "dt_get_item dynamo_table u t = (Inr (case t u of None \<Rightarrow> JNull | Some item \<Rightarrow> JObj item), t)"
  by (simp add: dynamo_table_def Boto3DynamoDbTable_def dynamo_client_def dget_def bindM_def
      split: option.splits)

lemma dynamo_put_run:
  "map_of item ''user_id'' = Some (JStr u) \<Longrightarrow>
     dt_put_item dynamo_table item t = (Inr (), t(u \<mapsto> item))"
  by (simp add: dynamo_table_def Boto3DynamoDbTable_def dynamo_client_def)

lemma dynamo_delete_run: "dt_delete_item dynamo_table u t = (Inr (), t(u := None))"
  by (simp add: dynamo_table_def Boto3DynamoDbTable_def dynamo_client_def)

interpretation dynamo: dynamodb_table dynamo_table
  by unfold_locales (auto simp: dynamo_get_run dynamo_put_run dynamo_delete_run)

lemma dynamo_cache_put_run:
  "cache_put_active_key dynamo_table e t = (Inr (), t(ce_user_id e \<mapsto> cache_payload e))"
  by (simp add: cache_put_active_key_def dynamo_put_run cache_payload_def)

end
