(* ===== verification/TokenIssue.thy ===== *)
theory TokenIssue
  imports KeyCache
begin

section \<open>Issuing keys (\<open>token_service/issue_service.py\<close>)\<close>

text \<open>
  \<open>TokenIssueService\<close> over the repositories, cache and encryption it is constructed with: they
  are the fields of \<open>IssueService\<close>, operations on an arbitrary state. What the clock, the key
  generator and \<open>uuid4\<close> return in one call is its \<open>IssueEnv\<close>. The locale \<open>token_issue\<close> holds the
  service's properties under the contracts of its collaborators; it is interpreted for the
  Postgres ledger, the DynamoDB cache and the shipped encryption.
\<close>

definition DEFAULT_CACHE_TTL :: datetime where
  "DEFAULT_CACHE_TTL = 15 * minute"

definition MAX_CACHE_TTL :: datetime where
  "MAX_CACHE_TTL = hour"

definition normalize_cache_ttl :: "datetime \<Rightarrow> datetime" where
  "normalize_cache_ttl cache_ttl =
     (if cache_ttl \<le> 0 then DEFAULT_CACHE_TTL else min cache_ttl MAX_CACHE_TTL)"

lemma normalize_cache_ttl_bounds:
  "0 < normalize_cache_ttl t \<and> normalize_cache_ttl t \<le> MAX_CACHE_TTL"
  by (simp add: normalize_cache_ttl_def DEFAULT_CACHE_TTL_def MAX_CACHE_TTL_def time_defs min_def)

record 's IssueService =
  is_get_user :: "string \<Rightarrow> ('s, UserRecord option) op"
  is_get_active_key :: "string \<Rightarrow> ('s, VirtualKeyRecord option) op"
  is_save_key :: "VirtualKeyRecord \<Rightarrow> ('s, unit) op"
  is_cache_get :: "string \<Rightarrow> datetime \<Rightarrow> ('s, VirtualKeyCacheEntry option) op"
  is_cache_put :: "VirtualKeyCacheEntry \<Rightarrow> ('s, unit) op"
  is_encrypt :: "string \<Rightarrow> string"
  is_decrypt :: "string \<Rightarrow> string res"
  is_cache_ttl :: datetime

record IssueEnv =
  ie_now :: datetime
  ie_generated_key :: string
  ie_uuid :: string

definition TokenIssueService ::
    "(string \<Rightarrow> ('s, UserRecord option) op) \<Rightarrow> (string \<Rightarrow> ('s, VirtualKeyRecord option) op) \<Rightarrow>
     (VirtualKeyRecord \<Rightarrow> ('s, unit) op) \<Rightarrow>
     (string \<Rightarrow> datetime \<Rightarrow> ('s, VirtualKeyCacheEntry option) op) \<Rightarrow>
     (VirtualKeyCacheEntry \<Rightarrow> ('s, unit) op) \<Rightarrow>
     (string \<Rightarrow> string) \<Rightarrow> (string \<Rightarrow> string res) \<Rightarrow> datetime \<Rightarrow> 's IssueService" where
  "TokenIssueService lookup_user get_active save cache_get cache_put encrypt decrypt cache_ttl =
     \<lparr>is_get_user = lookup_user, is_get_active_key = get_active, is_save_key = save,
      is_cache_get = cache_get, is_cache_put = cache_put, is_encrypt = encrypt,
      is_decrypt = decrypt, is_cache_ttl = normalize_cache_ttl cache_ttl\<rparr>"

definition access_disabled_error :: "string \<Rightarrow> ServiceError" where
  "access_disabled_error request_id =
     \<lparr>se_code = ACCESS_DENIED, se_message = ''Proxy access is disabled for this user.'',
      se_status_code = 403, se_request_id = request_id, se_details = None, se_headers = None\<rparr>"

definition require_allowed_user ::
    "'s IssueService \<Rightarrow> string \<Rightarrow> string \<Rightarrow> ('s, UserRecord) op" where
  "require_allowed_user svc user_id request_id =
     bindM (is_get_user svc user_id) (\<lambda>user. case user of
         None \<Rightarrow> raiseM (ServiceErr (user_not_registered_error request_id None))
       | Some u \<Rightarrow>
           if \<not> ur_proxy_access_enabled u \<or> \<not> ur_is_active u
           then raiseM (ServiceErr (access_disabled_error request_id))
           else returnM u)"

definition cache_entry_of :: "'s IssueService \<Rightarrow> VirtualKeyRecord \<Rightarrow> datetime \<Rightarrow> VirtualKeyCacheEntry" where
  "cache_entry_of svc r now =
     \<lparr>ce_user_id = vk_user_id r, ce_virtual_key_id = vk_id r,
      ce_encrypted_key_ref = vk_encrypted_key_blob r, ce_key_prefix = vk_key_prefix r,
      ce_status = vk_status r, ce_ttl = int_timestamp (now + is_cache_ttl svc)\<rparr>"

definition cache_key_record ::
    "'s IssueService \<Rightarrow> VirtualKeyRecord \<Rightarrow> datetime \<Rightarrow> ('s, unit) op" where
  "cache_key_record svc r now = is_cache_put svc (cache_entry_of svc r now)"

definition new_key_record :: "'s IssueService \<Rightarrow> IssueEnv \<Rightarrow> string \<Rightarrow> VirtualKeyRecord" where
  "new_key_record svc env user_id =
     (let virtual_key = ie_generated_key env in
      \<lparr>vk_id = ie_uuid env, vk_user_id = user_id, vk_key_hash = hash_virtual_key virtual_key,
       vk_encrypted_key_blob = is_encrypt svc virtual_key,
       vk_key_prefix = get_virtual_key_prefix virtual_key, vk_status = ACTIVE,
       vk_created_at = ie_now env, vk_expires_at = None, vk_revoked_at = None,
       vk_last_used_at = None\<rparr>)"

definition issue_new_key ::
    "'s IssueService \<Rightarrow> IssueEnv \<Rightarrow> UserRecord \<Rightarrow> ('s, TokenIssueResult) op" where
  "issue_new_key svc env user =
     (let r = new_key_record svc env (ur_id user) in
      bindM (is_save_key svc r) (\<lambda>_.
      bindM (cache_key_record svc r (ie_now env)) (\<lambda>_.
      returnM \<lparr>ti_virtual_key = ie_generated_key env, ti_user_id = ur_id user, ti_key_id = vk_id r,
               ti_key_prefix = vk_key_prefix r, ti_status = vk_status r, ti_source = ISSUED,
               ti_expires_at = None\<rparr>)))"

definition get_or_create_key ::
    "'s IssueService \<Rightarrow> IssueEnv \<Rightarrow> string \<Rightarrow> string \<Rightarrow> ('s, TokenIssueResult) op" where
  "get_or_create_key svc env user_id request_id =
     bindM (is_cache_get svc user_id (ie_now env)) (\<lambda>cached. case cached of
       Some e \<Rightarrow> liftR (bindR (is_decrypt svc (ce_encrypted_key_ref e)) (\<lambda>virtual_key.
         Inr \<lparr>ti_virtual_key = virtual_key, ti_user_id = user_id, ti_key_id = ce_virtual_key_id e,
              ti_key_prefix = ce_key_prefix e, ti_status = ce_status e, ti_source = CACHE,
              ti_expires_at = None\<rparr>))
     | None \<Rightarrow>
         bindM (require_allowed_user svc user_id request_id) (\<lambda>user.
         bindM (is_get_active_key svc (ur_id user)) (\<lambda>existing. case existing of
           Some k \<Rightarrow> bindM (cache_key_record svc k (ie_now env)) (\<lambda>_.
             liftR (bindR (is_decrypt svc (vk_encrypted_key_blob k)) (\<lambda>virtual_key.
               Inr \<lparr>ti_virtual_key = virtual_key, ti_user_id = ur_id user, ti_key_id = vk_id k,
                    ti_key_prefix = vk_key_prefix k, ti_status = vk_status k, ti_source = REUSED,
                    ti_expires_at = vk_expires_at k\<rparr>)))
         | None \<Rightarrow> issue_new_key svc env user)))"

subsection \<open>The contract of the service\<close>

locale token_issue =
  key_ledger get_active get_by_hash save inv keys storable +
  key_cache get put invalidate +
  encryption_service encrypt decrypt
  for get_active :: "string \<Rightarrow> ('s, VirtualKeyRecord option) op"
    and get_by_hash :: "string \<Rightarrow> ('s, VirtualKeyRecord option) op"
    and save :: "VirtualKeyRecord \<Rightarrow> ('s, unit) op"
    and inv :: "'s \<Rightarrow> bool"
    and keys :: "'s \<Rightarrow> VirtualKeyRecord set"
    and storable :: "VirtualKeyRecord \<Rightarrow> bool"
    and get :: "string \<Rightarrow> datetime \<Rightarrow> ('s, VirtualKeyCacheEntry option) op"
    and put :: "VirtualKeyCacheEntry \<Rightarrow> ('s, unit) op"
    and invalidate :: "string \<Rightarrow> ('s, unit) op"
    and encrypt :: "string \<Rightarrow> string"
    and decrypt :: "string \<Rightarrow> string res" +
  fixes lookup_user :: "string \<Rightarrow> ('s, UserRecord option) op"
    and svc :: "'s IssueService"
    and ttl :: datetime
  assumes put_keeps: "put e s = (Inr (), s') \<Longrightarrow> keys s' = keys s \<and> inv s' = inv s"
    and put_fail: "put e s = (Inl err, s') \<Longrightarrow> s' = s"
    and save_keeps: "save k s = (Inr (), s') \<Longrightarrow> fst (get u now s') = fst (get u now s)"
    and lookup_user_same: "snd (lookup_user u s) = s"
    and lookup_user_id: "lookup_user u s = (Inr (Some x), s') \<Longrightarrow> ur_id x = u"
    and svc_def: "svc = TokenIssueService lookup_user get_active save get put encrypt decrypt ttl"
begin

lemma svc_fields [simp]:
  "is_get_user svc = lookup_user" "is_get_active_key svc = get_active" "is_save_key svc = save"
  "is_cache_get svc = get" "is_cache_put svc = put" "is_encrypt svc = encrypt"
  "is_decrypt svc = decrypt" "is_cache_ttl svc = normalize_cache_ttl ttl"
  by (simp_all add: svc_def TokenIssueService_def)

text \<open>
  A record is sealed when its blob, hash and prefix come from one key. The cache is coherent when
  each entry it serves belongs to an active record of the ledger.
\<close>

abbreviation sealed :: "VirtualKeyRecord \<Rightarrow> bool" where
  "sealed k \<equiv> \<exists>v. vk_encrypted_key_blob k = encrypt v \<and> vk_key_hash k = hash_virtual_key v \<and>
     vk_key_prefix k = get_virtual_key_prefix v"

abbreviation entry_of :: "VirtualKeyCacheEntry \<Rightarrow> VirtualKeyRecord \<Rightarrow> bool" where
  "entry_of e k \<equiv> ce_user_id e = vk_user_id k \<and> ce_virtual_key_id e = vk_id k \<and>
     ce_encrypted_key_ref e = vk_encrypted_key_blob k \<and> ce_key_prefix e = vk_key_prefix k \<and>
     vk_status k = ACTIVE"

abbreviation coherent :: "'s \<Rightarrow> bool" where
  "coherent s \<equiv> \<forall>u now e. fst (get u now s) = Inr (Some e) \<longrightarrow>
     (\<exists>k \<in> keys s. entry_of e k \<and> vk_user_id k = u)"

abbreviation single_active :: "'s \<Rightarrow> bool" where
  "single_active s \<equiv> \<forall>k \<in> keys s. \<forall>k' \<in> keys s.
     vk_status k = ACTIVE \<and> vk_status k' = ACTIVE \<and> vk_user_id k = vk_user_id k' \<longrightarrow> k = k'"

abbreviation good :: "'s \<Rightarrow> bool" where
  "good s \<equiv> inv s \<and> (\<forall>k \<in> keys s. sealed k) \<and> coherent s \<and> single_active s"

lemma lookup_user_run: "lookup_user u s = (fst (lookup_user u s), s)"
  by (metis lookup_user_same prod.collapse)

lemma get_run: "get u now s = (fst (get u now s), s)"
  by (metis get_same prod.collapse)

text \<open>The check of the user leaves the state alone and lets through active users with access.\<close>

lemma require_allowed_user_Inr:
  assumes "require_allowed_user svc u rid s = (Inr user, s')"
  shows "s' = s \<and> ur_id user = u \<and> ur_proxy_access_enabled user \<and> ur_is_active user"
  using assms lookup_user_same [of u s]
  by (auto simp: require_allowed_user_def bindM_Inr dest: lookup_user_id
      split: option.splits if_splits)

lemma require_allowed_user_Inl:
  assumes "require_allowed_user svc u rid s = (Inl e, s')"
  shows "s' = s"
  using assms lookup_user_same [of u s]
  by (auto simp: require_allowed_user_def bindM_eq split: option.splits if_splits)

text \<open>Denied callers get an error and change nothing.\<close>

lemma denied_unchanged:
  assumes "fst (get u (ie_now env) s) = Inr None"
    and "fst (lookup_user u s) = Inr None \<or>
      (\<exists>user. fst (lookup_user u s) = Inr (Some user) \<and>
         (\<not> ur_proxy_access_enabled user \<or> \<not> ur_is_active user))"
  shows "\<exists>e. get_or_create_key svc env u rid s = (Inl (ServiceErr e), s) \<and>
    se_status_code e = 403 \<and> se_request_id e = rid"
proof -
  have g: "get u (ie_now env) s = (Inr None, s)" using get_run [of u "ie_now env" s] assms(1) by simp
  from assms(2) have "\<exists>e. require_allowed_user svc u rid s = (Inl (ServiceErr e), s) \<and>
      se_status_code e = 403 \<and> se_request_id e = rid"
  proof
    assume "fst (lookup_user u s) = Inr None"
    then have "lookup_user u s = (Inr None, s)" using lookup_user_run [of u s] by simp
    then show ?thesis by (simp add: require_allowed_user_def user_not_registered_error_def)
  next
    assume "\<exists>user. fst (lookup_user u s) = Inr (Some user) \<and>
         (\<not> ur_proxy_access_enabled user \<or> \<not> ur_is_active user)"
    then obtain user where "lookup_user u s = (Inr (Some user), s)"
      "\<not> ur_proxy_access_enabled user \<or> \<not> ur_is_active user"
      using lookup_user_run [of u s] by auto
    then show ?thesis by (auto simp: require_allowed_user_def access_disabled_error_def)
  qed
  then show ?thesis using g by (auto simp: get_or_create_key_def)
qed

text \<open>The three ways the service answers.\<close>

lemma get_or_create_cases:
  assumes "inv s" and "get_or_create_key svc env u rid s = (Inr r, s')"
  obtains (cache) e where "get u (ie_now env) s = (Inr (Some e), s)" "s' = s"
      "decrypt (ce_encrypted_key_ref e) = Inr (ti_virtual_key r)" "ti_user_id r = u"
      "ti_key_id r = ce_virtual_key_id e" "ti_key_prefix r = ce_key_prefix e" "ti_source r = CACHE"
  | (reused) k where "get u (ie_now env) s = (Inr None, s)" "get_active u s = (Inr (Some k), s)"
      "put (cache_entry_of svc k (ie_now env)) s = (Inr (), s')"
      "decrypt (vk_encrypted_key_blob k) = Inr (ti_virtual_key r)" "ti_user_id r = u"
      "ti_key_id r = vk_id k" "ti_key_prefix r = vk_key_prefix k" "ti_source r = REUSED"
  | (issued) t where "get u (ie_now env) s = (Inr None, s)" "get_active u s = (Inr None, s)"
      "save (new_key_record svc env u) s = (Inr (), t)"
      "put (cache_entry_of svc (new_key_record svc env u) (ie_now env)) t = (Inr (), s')"
      "ti_virtual_key r = ie_generated_key env" "ti_user_id r = u"
      "ti_key_id r = vk_id (new_key_record svc env u)"
      "ti_key_prefix r = vk_key_prefix (new_key_record svc env u)" "ti_source r = ISSUED"
proof -
  obtain c where c: "get u (ie_now env) s = (Inr c, s)"
    using assms(2) get_run [of u "ie_now env" s]
    by (cases "fst (get u (ie_now env) s)") (auto simp: get_or_create_key_def)
  show thesis
  proof (cases c)
    case (Some e)
    then show thesis using assms(2) c
      by (intro cache [of e]) (auto simp: get_or_create_key_def bindR_eq_Inr)
  next
    case None
    with c assms(2) obtain user where user: "require_allowed_user svc u rid s = (Inr user, s)"
      and id: "ur_id user = u"
      by (auto simp: get_or_create_key_def bindM_Inr dest: require_allowed_user_Inr)
    obtain x where x: "get_active u s = (Inr x, s)" using get_active_total [OF assms(1)] by blast
    show thesis
    proof (cases x)
      case (Some k)
      then show thesis using assms(2) c None user x id
        by (intro reused [of k])
          (auto simp: get_or_create_key_def cache_key_record_def bindM_Inr bindR_eq_Inr)
    next
      case N: None
      then have "issue_new_key svc env user s = (Inr r, s')"
        using assms(2) c None user x id by (simp add: get_or_create_key_def)
      then show thesis using c None x N id
        by (auto simp: issue_new_key_def cache_key_record_def bindM_Inr Let_def intro: issued)
    qed
  qed
qed

lemma new_key_record_fields:
  "vk_user_id (new_key_record svc env u) = u" "vk_status (new_key_record svc env u) = ACTIVE"
  "vk_key_hash (new_key_record svc env u) = hash_virtual_key (ie_generated_key env)"
  "vk_encrypted_key_blob (new_key_record svc env u) = encrypt (ie_generated_key env)"
  "vk_key_prefix (new_key_record svc env u) = get_virtual_key_prefix (ie_generated_key env)"
  "vk_id (new_key_record svc env u) = ie_uuid env"
  by (simp_all add: new_key_record_def Let_def)

lemma cache_entry_fields:
  "ce_user_id (cache_entry_of svc k now) = vk_user_id k"
  "ce_virtual_key_id (cache_entry_of svc k now) = vk_id k"
  "ce_encrypted_key_ref (cache_entry_of svc k now) = vk_encrypted_key_blob k"
  "ce_key_prefix (cache_entry_of svc k now) = vk_key_prefix k"
  "ce_status (cache_entry_of svc k now) = vk_status k"
  "ce_ttl (cache_entry_of svc k now) = int_timestamp (now + normalize_cache_ttl ttl)"
  by (simp_all add: cache_entry_of_def)

lemma good_put:
  assumes g: "good s" and k: "k \<in> keys s" "vk_status k = ACTIVE"
    and p: "put (cache_entry_of svc k now) s = (Inr (), s')"
  shows "good s'"
proof -
  have ks: "keys s' = keys s" "inv s' = inv s" using put_keeps [OF p] by auto
  have "\<exists>k \<in> keys s'. entry_of e k \<and> vk_user_id k = v"
    if e: "fst (get v now' s') = Inr (Some e)" for v now' e
  proof (cases "v = vk_user_id k")
    case True
    then have "e = cache_entry_of svc k now"
      using get_put [OF p, of now'] e by (auto simp: cache_entry_fields split: if_splits)
    then show ?thesis using True k ks by (intro bexI [of _ k]) (auto simp: cache_entry_fields)
  next
    case False
    then have "fst (get v now' s) = Inr (Some e)"
      using get_put_other [OF p, of v now'] e by (simp add: cache_entry_fields)
    then show ?thesis using g ks by blast
  qed
  then have "coherent s'" by blast
  then show ?thesis using g ks by simp
qed

lemma good_put_any:
  assumes "good s" "k \<in> keys s" "vk_status k = ACTIVE"
    and "put (cache_entry_of svc k now) s = (p, s')"
  shows "good s'"
proof (cases p)
  case (Inl err)
  then have e: "s' = s" using put_fail assms(4) by blast
  show ?thesis unfolding e by (rule assms(1))
next
  case (Inr x)
  then show ?thesis using assms(4) by (intro good_put [OF assms(1-3)]) simp
qed

lemma good_save:
  assumes g: "good s" and st: "storable k" "sealed k"
    and fresh: "\<forall>k' \<in> keys s. vk_user_id k' = vk_user_id k \<longrightarrow> vk_status k' \<noteq> ACTIVE"
    and sv: "save k s = (Inr (), t)"
  shows "good t"
proof -
  have ks: "keys t = insert k (keys s)" "inv t" using save_ok [OF _ st(1) sv] g by auto
  have "coherent t" using g save_keeps [OF sv] ks by (metis insertCI)
  moreover have "single_active t" using g fresh unfolding ks by auto
  moreover have "\<forall>k \<in> keys t. sealed k" using g st(2) unfolding ks by blast
  ultimately show ?thesis using ks(2) by blast
qed

lemma get_active_None:
  assumes "inv s" and "get_active u s = (Inr None, s')"
  shows "\<forall>k \<in> keys s. vk_user_id k = u \<longrightarrow> vk_status k \<noteq> ACTIVE"
  using get_active [OF assms(1), of u] assms(2) by auto

lemma new_key_sealed: "sealed (new_key_record svc env u)"
  by (auto simp: new_key_record_fields)

text \<open>Every call, whatever its outcome, keeps the state good.\<close>

lemma good_preserved:
  assumes g: "good s" and st: "storable (new_key_record svc env u)"
    and run: "get_or_create_key svc env u rid s = (r, s')"
  shows "good s'"
proof -
  have i: "inv s" using g by blast
  let ?new = "new_key_record svc env u"
  obtain c where c: "get u (ie_now env) s = (c, s)" using get_run by blast
  show ?thesis
  proof (cases "c = Inr None")
    case False
    then have "s' = s" using run c by (auto simp: get_or_create_key_def bindM_def split: sum.splits option.splits)
    then show ?thesis using g by simp
  next
    case True
    show ?thesis
    proof (cases "require_allowed_user svc u rid s")
      case (Pair q t)
      show ?thesis
      proof (cases q)
        case (Inl e)
        then have "s' = s" using run c True Pair require_allowed_user_Inl [of u rid s e t]
          by (simp add: get_or_create_key_def)
        then show ?thesis using g by simp
      next
        case (Inr user)
        then have t: "t = s" "ur_id user = u" using require_allowed_user_Inr Pair by auto
        obtain x where x: "get_active u s = (Inr x, s)" using get_active_total [OF i] by blast
        show ?thesis
        proof (cases x)
          case (Some k)
          then have k: "k \<in> keys s" "vk_status k = ACTIVE" using get_active_Some [OF i] x by auto
          obtain p s1 where p: "put (cache_entry_of svc k (ie_now env)) s = (p, s1)" by force
          have e: "s' = s1" using run c True Pair Inr t x Some p
            by (cases p) (auto simp: get_or_create_key_def cache_key_record_def)
          show ?thesis unfolding e by (rule good_put_any [OF g k p])
        next
          case None
          obtain p s1 where p: "save ?new s = (p, s1)" by force
          have run': "issue_new_key svc env user s = (r, s')"
            using run c True Pair Inr t x None by (simp add: get_or_create_key_def)
          show ?thesis
          proof (cases p)
            case (Inl e)
            then have "s' = s" using run' p t(2) save_fail by (auto simp: issue_new_key_def Let_def)
            then show ?thesis using g by simp
          next
            case (Inr _)
            then have sv: "save ?new s = (Inr (), s1)" using p by simp
            have g1: "good s1"
              by (rule good_save [OF g st new_key_sealed _ sv])
                (use get_active_None [OF i] x None in \<open>simp add: new_key_record_fields\<close>)
            have k1: "?new \<in> keys s1" using save_ok [OF i st sv] by simp
            obtain p2 s2 where p2: "put (cache_entry_of svc ?new (ie_now env)) s1 = (p2, s2)" by force
            have e: "s' = s2" using run' sv p2 t(2)
              by (cases p2) (auto simp: issue_new_key_def cache_key_record_def Let_def)
            show ?thesis unfolding e
              by (rule good_put_any [OF g1 k1 _ p2]) (rule new_key_record_fields)
          qed
        qed
      qed
    qed
  qed
qed

subsection \<open>What callers may rely on\<close>

lemma keys_mono:
  assumes i: "inv s" and st: "storable (new_key_record svc env u)"
    and run: "get_or_create_key svc env u rid s = (Inr r, s')"
  shows "keys s \<subseteq> keys s'"
  using i run
proof (cases rule: get_or_create_cases)
  case cache
  then show ?thesis by simp
next
  case reused
  then show ?thesis using put_keeps by blast
next
  case (issued t)
  then show ?thesis using put_keeps save_ok [OF i st] by blast
qed

text \<open>
  The key handed out belongs to an active record of the ledger, of this user, found under the
  key's hash.
\<close>

lemma handed_out:
  assumes g: "good s" and st: "storable (new_key_record svc env u)"
    and run: "get_or_create_key svc env u rid s = (Inr r, s')"
  shows "\<exists>k \<in> keys s'. vk_encrypted_key_blob k = encrypt (ti_virtual_key r) \<and>
    vk_key_hash k = hash_virtual_key (ti_virtual_key r) \<and> vk_id k = ti_key_id r \<and>
    vk_user_id k = u \<and> ti_user_id r = u \<and> vk_status k = ACTIVE"
proof -
  have i: "inv s" using g by blast
  have seal: "vk_encrypted_key_blob k = encrypt v \<and> vk_key_hash k = hash_virtual_key v"
    if "k \<in> keys s" "decrypt (vk_encrypted_key_blob k) = Inr v" for k v
    using g that decrypt_encrypt by fastforce
  show ?thesis using i run
  proof (cases rule: get_or_create_cases)
    case (cache e)
    then obtain k where k: "k \<in> keys s" "entry_of e k" "vk_user_id k = u"
      using g by (metis fst_conv)
    then show ?thesis using seal [OF k(1)] cache by (intro bexI [of _ k]) auto
  next
    case (reused k)
    then have k: "k \<in> keys s" "vk_user_id k = u" "vk_status k = ACTIVE"
      using get_active_Some [OF i] by auto
    then show ?thesis using seal [OF k(1)] reused put_keeps by (intro bexI [of _ k]) auto
  next
    case (issued t)
    then have "new_key_record svc env u \<in> keys s'" using save_ok [OF i st] put_keeps by blast
    then show ?thesis using issued by (intro bexI [of _ "new_key_record svc env u"])
        (auto simp: new_key_record_fields)
  qed
qed

lemma handed_out_found:
  assumes g: "good s" and st: "storable (new_key_record svc env u)"
    and run: "get_or_create_key svc env u rid s = (Inr r, s')"
  shows "\<exists>k. get_by_hash (hash_virtual_key (ti_virtual_key r)) s' = (Inr (Some k), s') \<and>
    vk_id k = ti_key_id r \<and> vk_user_id k = u \<and> ti_user_id r = u \<and> vk_status k = ACTIVE"
proof -
  have "inv s'" using good_preserved [OF assms] by blast
  then show ?thesis using handed_out [OF assms] get_by_hash_in by blast
qed

text \<open>A user keeps one key: a later call hands out the key of the earlier one.\<close>

lemma same_key_again:
  assumes g: "good s" and st: "storable (new_key_record svc env u)"
    and st': "storable (new_key_record svc env' u)"
    and run: "get_or_create_key svc env u rid s = (Inr r, t)"
    and run': "get_or_create_key svc env' u rid' t = (Inr r', t')"
  shows "ti_virtual_key r' = ti_virtual_key r \<and> ti_key_id r' = ti_key_id r"
proof -
  have g1: "good t" by (rule good_preserved [OF g st run])
  have g2: "good t'" by (rule good_preserved [OF g1 st' run'])
  obtain k where k: "k \<in> keys t" "vk_encrypted_key_blob k = encrypt (ti_virtual_key r)"
    "vk_id k = ti_key_id r" "vk_user_id k = u" "vk_status k = ACTIVE"
    using handed_out [OF g st run] by blast
  obtain k' where k': "k' \<in> keys t'" "vk_encrypted_key_blob k' = encrypt (ti_virtual_key r')"
    "vk_id k' = ti_key_id r'" "vk_user_id k' = u" "vk_status k' = ACTIVE"
    using handed_out [OF g1 st' run'] by blast
  have "k \<in> keys t'" using k(1) keys_mono [OF _ st' run'] g1 by blast
  then have "k = k'" using g2 k k' by blast
  then show ?thesis using k k' encrypt_inj by metis
qed

text \<open>Within the time to live the next call is answered from the cache, with the same key.\<close>

lemma cached_again:
  assumes i: "inv s" and run: "get_or_create_key svc env u rid s = (Inr r, t)"
    and src: "ti_source r \<noteq> CACHE"
    and now: "int_timestamp (ie_now env') < int_timestamp (ie_now env + normalize_cache_ttl ttl)"
  shows "\<exists>r'. get_or_create_key svc env' u rid' t = (Inr r', t) \<and> ti_source r' = CACHE \<and>
    ti_virtual_key r' = ti_virtual_key r \<and> ti_key_id r' = ti_key_id r \<and>
    ti_key_prefix r' = ti_key_prefix r"
proof -
  obtain k s1 where p: "put (cache_entry_of svc k (ie_now env)) s1 = (Inr (), t)"
    and k: "vk_user_id k = u" "vk_status k = ACTIVE"
      "decrypt (vk_encrypted_key_blob k) = Inr (ti_virtual_key r)"
      "vk_id k = ti_key_id r" "vk_key_prefix k = ti_key_prefix r"
    using i run
  proof (cases rule: get_or_create_cases)
    case cache
    then show ?thesis using src by simp
  next
    case (reused k)
    then show ?thesis using that [of k s] get_active_Some [OF i, of u k s] by simp
  next
    case (issued s1)
    then show ?thesis using that [of "new_key_record svc env u" s1]
      by (simp add: new_key_record_fields decrypt_encrypt)
  qed
  have "get u (ie_now env') t = (Inr (Some (cache_entry_of svc k (ie_now env))), t)"
    using get_put [OF p, of "ie_now env'"] now k by (simp add: cache_entry_fields)
  then show ?thesis using k by (simp add: get_or_create_key_def cache_entry_fields)
qed

text \<open>No entry is served an hour after it was written.\<close>

lemma cache_expires:
  assumes i: "inv s" and run: "get_or_create_key svc env u rid s = (Inr r, t)"
    and src: "ti_source r \<noteq> CACHE" and now: "ie_now env + MAX_CACHE_TTL \<le> now'"
  shows "get u now' t = (Inr None, t)"
proof -
  have le: "ce_ttl (cache_entry_of svc k (ie_now env)) \<le> int_timestamp now'" for k
    unfolding cache_entry_fields
    by (rule int_timestamp_mono) (use normalize_cache_ttl_bounds [of ttl] now in linarith)
  show ?thesis using i run
  proof (cases rule: get_or_create_cases)
    case cache
    then show ?thesis using src by simp
  next
    case (reused k)
    then show ?thesis
      using expired_put_not_served [OF reused(3) le] get_active_Some [OF i reused(2)]
      by (simp add: cache_entry_fields)
  next
    case (issued s1)
    then show ?thesis
      using expired_put_not_served [OF issued(4) le] by (simp add: cache_entry_fields new_key_record_fields)
  qed
qed

end

end
