(* ===== verification/TokenWorld.thy ===== *)
theory TokenWorld
  imports TokenIssue
begin

section \<open>The token service on Postgres and DynamoDB\<close>

text \<open>
  The state the deployed service works on, the database and the cache table side by side, with
  the repository operations lifted to it, and the service composed of them
  (\<open>token_service/issue_service.py\<close> over \<open>repositories/*.py\<close> and \<open>security/*.py\<close>). The
  interpretation discharges the contract of \<open>token_issue\<close>, and the properties of the service
  are its facts, written over this state.
\<close>

record World =
  w_db :: Database
  w_cache :: DynamoState

definition on_db :: "(Database, 'a) op \<Rightarrow> (World, 'a) op" where
  "on_db m w = (case m (w_db w) of (r, db) \<Rightarrow> (r, w\<lparr>w_db := db\<rparr>))"

definition on_cache :: "(DynamoState, 'a) op \<Rightarrow> (World, 'a) op" where
  "on_cache m w = (case m (w_cache w) of (r, c) \<Rightarrow> (r, w\<lparr>w_cache := c\<rparr>))"

lemma on_db_run: "m (w_db w) = (r, db) \<Longrightarrow> on_db m w = (r, w\<lparr>w_db := db\<rparr>)"
  by (simp add: on_db_def)

lemma on_cache_run: "m (w_cache w) = (r, c) \<Longrightarrow> on_cache m w = (r, w\<lparr>w_cache := c\<rparr>)"
  by (simp add: on_cache_def)

lemma on_db_eq: "on_db m w = (r, w') \<longleftrightarrow> (\<exists>db. m (w_db w) = (r, db) \<and> w' = w\<lparr>w_db := db\<rparr>)"
  by (auto simp: on_db_def split: prod.splits)

lemma on_cache_eq: "on_cache m w = (r, w') \<longleftrightarrow> (\<exists>c. m (w_cache w) = (r, c) \<and> w' = w\<lparr>w_cache := c\<rparr>)"
  by (auto simp: on_cache_def split: prod.splits)

definition world_keys :: "World \<Rightarrow> VirtualKeyRecord set" where
  "world_keys w = db_keys (w_db w)"

definition world_ok :: "World \<Rightarrow> bool" where
  "world_ok w \<longleftrightarrow> db_ok (w_db w)"

definition world_get_active :: "string \<Rightarrow> (World, VirtualKeyRecord option) op" where
  "world_get_active user_id = on_db (get_active_key_for_user user_id)"

definition world_get_by_hash :: "string \<Rightarrow> (World, VirtualKeyRecord option) op" where
  "world_get_by_hash key_hash = on_db (get_virtual_key_by_hash key_hash)"

definition world_save_key :: "VirtualKeyRecord \<Rightarrow> (World, unit) op" where
  "world_save_key r = on_db (save_virtual_key r)"

definition world_get_user :: "string \<Rightarrow> (World, UserRecord option) op" where
  "world_get_user user_id = on_db (get_user user_id)"

definition world_cache_get :: "string \<Rightarrow> datetime \<Rightarrow> (World, VirtualKeyCacheEntry option) op" where
  "world_cache_get user_id now = on_cache (cache_get_active_key dynamo_table user_id now)"

definition world_cache_put :: "VirtualKeyCacheEntry \<Rightarrow> (World, unit) op" where
  "world_cache_put entry = on_cache (cache_put_active_key dynamo_table entry)"

definition world_invalidate :: "string \<Rightarrow> (World, unit) op" where
  "world_invalidate user_id = on_cache (cache_invalidate_user dynamo_table user_id)"

definition token_service :: "datetime \<Rightarrow> World IssueService" where
  "token_service cache_ttl =
     TokenIssueService world_get_user world_get_active world_save_key world_cache_get
       world_cache_put simple_encrypt simple_decrypt cache_ttl"

lemmas world_op_defs = world_get_active_def world_get_by_hash_def world_save_key_def
  world_get_user_def world_cache_get_def world_cache_put_def world_invalidate_def

subsection \<open>The contracts hold for it\<close>

interpretation world_ledger: key_ledger world_get_active world_get_by_hash world_save_key
  world_ok world_keys storable_id
proof (unfold_locales, goal_cases)
  case (1 s u)
  then show ?case
    using postgres.get_active [of "w_db s" u] by (auto simp: world_op_defs world_ok_def world_keys_def on_db_run
        split: option.splits)
next
  case (2 s h)
  then show ?case
    using postgres.get_by_hash [of "w_db s" h] by (auto simp: world_op_defs world_ok_def world_keys_def on_db_run
        split: option.splits)
next
  case (3 s k s')
  then show ?case
    using postgres.save_ok [of "w_db s" k] by (auto simp: world_op_defs world_ok_def world_keys_def on_db_eq)
next
  case (4 k s e s')
  then show ?case
    by (auto simp: world_op_defs on_db_eq dest: postgres.save_fail)
next
  case (5 s k k')
  then show ?case using postgres.hash_inj by (auto simp: world_ok_def world_keys_def)
qed

interpretation world_cache: key_cache world_cache_get world_cache_put world_invalidate
proof (unfold_locales, goal_cases)
  case (1 e c c' now)
  then show ?case
    by (auto simp: world_op_defs on_cache_eq dynamo.get_put simp del: split_paired_Ex)
next
  case (2 e c c' u now)
  then obtain d where "cache_put_active_key dynamo_table e (w_cache c) = (Inr (), d)"
    "c' = c\<lparr>w_cache := d\<rparr>"
    by (auto simp: world_op_defs on_cache_eq)
  then show ?case using dynamo.get_put_other [of e "w_cache c" d u now] 2(2)
    by (cases "cache_get_active_key dynamo_table u now (w_cache c)")
      (auto simp: world_op_defs on_cache_def)
next
  case (3 u c c' now)
  then show ?case
    by (auto simp: world_op_defs on_cache_eq dynamo.get_invalidate)
next
  case (4 u c c' v now)
  then obtain d where "cache_invalidate_user dynamo_table u (w_cache c) = (Inr (), d)"
    "c' = c\<lparr>w_cache := d\<rparr>"
    by (auto simp: world_op_defs on_cache_eq)
  then show ?case using dynamo.get_invalidate_other [of u "w_cache c" d v now] 4(2)
    by (cases "cache_get_active_key dynamo_table v now (w_cache c)")
      (auto simp: world_op_defs on_cache_def)
next
  case (5 u now c)
  then show ?case using dynamo.get_same [of u now "w_cache c"]
    by (cases "cache_get_active_key dynamo_table u now (w_cache c)")
      (auto simp: world_op_defs on_cache_def)
next
  case (6 u now c e c')
  then show ?case by (auto simp: world_op_defs on_cache_eq dest: dynamo.get_fresh)
qed

interpretation world_issue: token_issue world_get_active world_get_by_hash world_save_key
  world_ok world_keys storable_id world_cache_get world_cache_put world_invalidate
  simple_encrypt simple_decrypt world_get_user "token_service cache_ttl" cache_ttl
  for cache_ttl
proof (unfold_locales, goal_cases)
  case (1 e s s')
  then show ?case by (auto simp: world_op_defs on_cache_eq world_keys_def world_ok_def)
next
  case (2 e s err s')
  then show ?case by (auto simp: world_op_defs on_cache_eq dynamo_cache_put_run)
next
  case (3 k s s' u now)
  then show ?case
    by (cases "cache_get_active_key dynamo_table u now (w_cache s)")
      (auto simp: world_op_defs on_db_eq on_cache_def)
next
  case (4 u s)
  then show ?case by (simp add: world_op_defs on_db_def get_user_run)
next
  case (5 u s x s')
  then show ?case by (auto simp: world_op_defs on_db_eq dest: Stores.get_user_id)
next
  case 6
  show ?case by (rule token_service_def)
qed

subsection \<open>Properties of the deployed service\<close>

text \<open>
  The invariant of the whole state: the key table is well formed, every record's blob, hash and
  prefix come from one key, every entry the cache would serve belongs to an active record of the
  same user, and no user has two active records.
\<close>

definition sealed_record :: "VirtualKeyRecord \<Rightarrow> bool" where
  "sealed_record k \<longleftrightarrow> (\<exists>v. vk_encrypted_key_blob k = simple_encrypt v \<and>
     vk_key_hash k = hash_virtual_key v \<and> vk_key_prefix k = get_virtual_key_prefix v)"

definition cache_coherent :: "World \<Rightarrow> bool" where
  "cache_coherent w \<longleftrightarrow> (\<forall>u now e. fst (world_cache_get u now w) = Inr (Some e) \<longrightarrow>
     (\<exists>k \<in> world_keys w. (ce_user_id e = vk_user_id k \<and> ce_virtual_key_id e = vk_id k \<and>
        ce_encrypted_key_ref e = vk_encrypted_key_blob k \<and> ce_key_prefix e = vk_key_prefix k \<and>
        vk_status k = ACTIVE) \<and> vk_user_id k = u))"

definition one_active_key :: "World \<Rightarrow> bool" where
  "one_active_key w \<longleftrightarrow> (\<forall>k \<in> world_keys w. \<forall>k' \<in> world_keys w.
     vk_status k = ACTIVE \<and> vk_status k' = ACTIVE \<and> vk_user_id k = vk_user_id k' \<longrightarrow> k = k')"

definition world_good :: "World \<Rightarrow> bool" where
  "world_good w \<longleftrightarrow> world_ok w \<and> (\<forall>k \<in> world_keys w. sealed_record k) \<and> cache_coherent w \<and>
     one_active_key w"

lemmas world_good_defs = world_good_def sealed_record_def cache_coherent_def one_active_key_def

lemma storable_new: "storable_id (new_key_record svc env u) \<longleftrightarrow> uuid_in (ie_uuid env) = Some (ie_uuid env)"
  by (simp add: storable_id_def new_key_record_def Let_def)

text \<open>A small deployment: one user with access, one without, no keys yet.\<close>

definition demo_user :: "string \<Rightarrow> bool \<Rightarrow> UserRow" where
  "demo_user u access =
     \<lparr>us_id = u, us_email = u @ ''@example.com'', us_display_name = u, us_department = None,
      us_cost_center = None, us_groups = Some [''dev''], us_proxy_access_enabled = access,
      us_is_active = True, us_created_at = 0, us_updated_at = 0\<rparr>"

definition demo_world :: World where
  "demo_world =
     \<lparr>w_db = \<lparr>db_users = [demo_user ''ana'' True, demo_user ''bob'' False],
              db_identity_user_mappings = [\<lparr>im_username = ''ana@corp'', im_user_id = ''ana'',
                im_identity_provider = ''identity-center'', im_created_at = 0\<rparr>],
              db_admin_identities = [], db_virtual_keys = []\<rparr>,
      w_cache = (\<lambda>_. None)\<rparr>"

definition demo_env :: "datetime \<Rightarrow> IssueEnv" where
  "demo_env now =
     \<lparr>ie_now = now, ie_generated_key = ''vk_abcdefghijklmnopqrstuvwxyz012345'',
      ie_uuid = ''0b9a7a52-6d7e-4c3f-9a51-0e8d2f4c6b1a''\<rparr>"

lemma demo_uuid: "uuid_in (ie_uuid (demo_env n)) = Some (ie_uuid (demo_env n))"
proof -
  have "uuid_in ''0b9a7a52-6d7e-4c3f-9a51-0e8d2f4c6b1a'' = Some ''0b9a7a52-6d7e-4c3f-9a51-0e8d2f4c6b1a''"
    by code_simp
  then show ?thesis by (simp add: demo_env_def)
qed

lemma demo_good: "world_good demo_world"
  by (simp add: world_good_defs world_ok_def db_ok_def world_keys_def db_keys_def demo_world_def
      world_cache_get_def on_cache_def cache_get_active_key_def dynamo_get_run read_cache_item_def)

definition demo_key :: "datetime \<Rightarrow> VirtualKeyRecord" where
  "demo_key now = new_key_record (token_service 0) (demo_env now) ''ana''"

definition demo_issued :: "datetime \<Rightarrow> World" where
  "demo_issued now =
     \<lparr>w_db = (w_db demo_world)\<lparr>db_virtual_keys := [record_to_row (vk_id (demo_key now)) (demo_key now)]\<rparr>,
      w_cache = [''ana'' \<mapsto> cache_payload (cache_entry_of (token_service 0) (demo_key now) now)]\<rparr>"

lemma demo_issue_run:
  "\<exists>r. get_or_create_key (token_service 0) (demo_env now) ''ana'' rid demo_world =
     (Inr r, demo_issued now) \<and> ti_source r = ISSUED"
proof -
  let ?svc = "token_service 0"
  let ?k = "new_key_record ?svc (demo_env now) ''ana''"
  let ?w = "demo_world\<lparr>w_db := (w_db demo_world)\<lparr>db_virtual_keys := [record_to_row (vk_id ?k) ?k]\<rparr>\<rparr>"
  have g: "world_cache_get ''ana'' now demo_world = (Inr None, demo_world)"
    by (simp add: world_cache_get_def on_cache_def cache_get_active_key_def dynamo_get_run
        read_cache_item_def demo_world_def)
  have u: "world_get_user ''ana'' demo_world =
      (Inr (Some (user_row_to_record (demo_user ''ana'' True))), demo_world)"
    by (simp add: world_get_user_def on_db_def get_user_run demo_world_def demo_user_def fetchone_def)
  have a: "world_get_active ''ana'' demo_world = (Inr None, demo_world)"
    by (simp add: world_get_active_def on_db_def get_active_key_for_user_def
        list_virtual_keys_for_user_def demo_world_def order_by_desc_def)
  have s: "world_save_key ?k demo_world = (Inr (), ?w)"
    using demo_uuid [of now]
    by (simp add: world_save_key_def on_db_def save_virtual_key_defs new_key_record_def Let_def
        record_to_row_def varchar_ok_def demo_world_def demo_user_def demo_env_def
        get_virtual_key_prefix_def VISIBLE_KEY_PREFIX_LENGTH_def)
  have p: "world_cache_put (cache_entry_of ?svc ?k now) ?w = (Inr (), demo_issued now)"
    by (simp add: world_cache_put_def on_cache_def dynamo_cache_put_run demo_issued_def demo_key_def
        demo_world_def cache_entry_of_def new_key_record_def Let_def)
  have n: "ie_now (demo_env now) = now" by (simp add: demo_env_def)
  have au: "require_allowed_user ?svc ''ana'' rid demo_world =
      (Inr (user_row_to_record (demo_user ''ana'' True)), demo_world)"
    by (simp add: require_allowed_user_def u user_row_to_record_def demo_user_def)
  have i: "ur_id (user_row_to_record (demo_user ''ana'' True)) = ''ana''"
    by (simp add: user_row_to_record_def demo_user_def)
  show ?thesis
    by (simp add: get_or_create_key_def g n au a i issue_new_key_def cache_key_record_def s p Let_def)
qed

text \<open>
  Property C6: every call of the token service, successful or not, keeps the invariant of the
  state: a well-formed key table, sealed records, a coherent cache and one active key per user.
\<close>

theorem token_service_keeps_good:
  assumes "world_good w" and "uuid_in (ie_uuid env) = Some (ie_uuid env)"
    and "get_or_create_key (token_service ttl) env u rid w = (r, w')"
  shows "world_good w'"
  using world_issue.good_preserved [of w ttl env u rid r w'] assms
  unfolding world_good_defs storable_new by blast

lemma token_service_keeps_good_witness:
  "\<exists>r. get_or_create_key (token_service 0) (demo_env 0) ''ana'' ''r1'' demo_world = (r, demo_issued 0) \<and>
     world_good (demo_issued 0)"
  using demo_issue_run [of 0 "''r1''"] token_service_keeps_good [OF demo_good demo_uuid] by blast

text \<open>
  The key a successful call returns is found in the ledger under its hash, with the
  identifier returned, active, and owned by the user of the call; its envelope is the key
  encrypted. So what is handed out is never a key of another user nor an inactive one.
\<close>

lemma token_service_hands_out_active_key:
  assumes "world_good w" and "uuid_in (ie_uuid env) = Some (ie_uuid env)"
    and "get_or_create_key (token_service ttl) env u rid w = (Inr r, w')"
  shows "\<exists>k. world_get_by_hash (hash_virtual_key (ti_virtual_key r)) w' = (Inr (Some k), w') \<and>
    vk_id k = ti_key_id r \<and> vk_user_id k = u \<and> ti_user_id r = u \<and> vk_status k = ACTIVE"
  using world_issue.handed_out_found [of w ttl env u rid r w'] assms
  unfolding world_good_defs storable_new by blast

text \<open>
  A user keeps one key. Two successful calls for a user, at any times, return the
  same key and key identifier: the second never issues another.
\<close>

lemma token_service_same_key:
  assumes "world_good w" and "uuid_in (ie_uuid env) = Some (ie_uuid env)"
    and "uuid_in (ie_uuid env') = Some (ie_uuid env')"
    and "get_or_create_key (token_service ttl) env u rid w = (Inr r, w1)"
    and "get_or_create_key (token_service ttl) env' u rid' w1 = (Inr r', w2)"
  shows "ti_virtual_key r' = ti_virtual_key r \<and> ti_key_id r' = ti_key_id r"
  using world_issue.same_key_again [of w ttl env u env' rid r w1 rid' r' w2] assms
  unfolding world_good_defs storable_new by blast

text \<open>
  Within the configured time to live after a call that went to the ledger, the next
  call for the user is answered from the cache, with the same key, and changes no state.
\<close>

lemma token_service_cached:
  assumes "world_good w"
    and "get_or_create_key (token_service ttl) env u rid w = (Inr r, w1)" and "ti_source r \<noteq> CACHE"
    and "int_timestamp (ie_now env') < int_timestamp (ie_now env + normalize_cache_ttl ttl)"
  shows "\<exists>r'. get_or_create_key (token_service ttl) env' u rid' w1 = (Inr r', w1) \<and>
    ti_source r' = CACHE \<and> ti_virtual_key r' = ti_virtual_key r \<and> ti_key_id r' = ti_key_id r \<and>
    ti_key_prefix r' = ti_key_prefix r"
  by (rule world_issue.cached_again) (use assms in \<open>simp_all add: world_good_def\<close>)

text \<open>
  Whatever time to live is configured, the entry a call writes is not served an hour
  later.
\<close>

lemma token_service_cache_expires:
  assumes "world_good w"
    and "get_or_create_key (token_service ttl) env u rid w = (Inr r, w1)" and "ti_source r \<noteq> CACHE"
    and "ie_now env + MAX_CACHE_TTL \<le> now'"
  shows "world_cache_get u now' w1 = (Inr None, w1)"
  by (rule world_issue.cache_expires) (use assms in \<open>simp_all add: world_good_def\<close>)

text \<open>
  With no cached entry, a caller that is unknown, inactive or without proxy access
  gets a 403 error with the request's identifier, and nothing changes.
\<close>

lemma token_service_denies:
  assumes "fst (world_cache_get u (ie_now env) w) = Inr None"
    and "fst (world_get_user u w) = Inr None \<or>
      (\<exists>user. fst (world_get_user u w) = Inr (Some user) \<and>
         (\<not> ur_proxy_access_enabled user \<or> \<not> ur_is_active user))"
  shows "\<exists>e. get_or_create_key (token_service ttl) env u rid w = (Inl (ServiceErr e), w) \<and>
    se_status_code e = 403 \<and> se_request_id e = rid"
  by (rule world_issue.denied_unchanged [OF assms])

end
