(* ===== verification/TokenHandler.thy ===== *)
theory TokenHandler
  imports TokenWorld
begin

section \<open>The Lambda handler (\<open>token_service/handler.py\<close>, \<open>token_service/identity.py\<close>)\<close>

text \<open>
  From the API Gateway event to the response, with the metrics and the warning the handler
  emits, which are kept in the state next to the repositories' state. The handler is generic in
  its dependencies, each an operation that may raise; the elapsed milliseconds are an argument. What
  a metrics recorder does is told by the calls it has taken, which are its state. A response keeps
  its payload; the body is its JSON text.
\<close>

subsection \<open>Who calls\<close>

definition extract_identity_section :: "(string, json) pydict \<Rightarrow> (string, json) pydict res" where
  "extract_identity_section event =
     (case dget event ''requestContext'' JNull of
        JObj request_context \<Rightarrow>
          (case dget request_context ''identity'' JNull of
             JObj identity \<Rightarrow> Inr identity
           | _ \<Rightarrow> Inl (IdentityErr ''API Gateway requestContext.identity is missing.''))
      | _ \<Rightarrow> Inl (IdentityErr ''API Gateway requestContext is missing.''))"

definition extract_user_arn :: "(string, json) pydict \<Rightarrow> string res" where
  "extract_user_arn event =
     bindR (extract_identity_section event) (\<lambda>identity.
       case dget identity ''userArn'' JNull of
         JStr user_arn \<Rightarrow>
           if py_strip user_arn = []
           then Inl (IdentityErr ''API Gateway requestContext.identity.userArn is missing.'')
           else Inr user_arn
       | _ \<Rightarrow> Inl (IdentityErr ''API Gateway requestContext.identity.userArn is missing.''))"

definition parse_username_from_user_arn :: "string \<Rightarrow> string res" where
  "parse_username_from_user_arn user_arn =
     (let username = py_strip (py_after_last (CHR ''/'') user_arn) in
      if username = [] \<or> username = user_arn
      then Inl (IdentityErr (''Could not parse username from user ARN: '' @ user_arn))
      else Inr username)"

definition extract_username_from_event :: "(string, json) pydict \<Rightarrow> string res" where
  "extract_username_from_event event = bindR (extract_user_arn event) parse_username_from_user_arn"

lemma identity_errors:
  "extract_username_from_event event = Inl e \<Longrightarrow> \<exists>m. e = IdentityErr m"
  by (auto simp: extract_username_from_event_def extract_user_arn_def extract_identity_section_def
      parse_username_from_user_arn_def bindR_eq_Inl Let_def split: json.splits if_splits)

text \<open>The user name of an assumed-role ARN is what follows its last slash.\<close>

lemma parse_username_session:
  assumes "session \<noteq> []" and "CHR ''/'' \<notin> set session" and "\<forall>c \<in> set session. \<not> py_isspace c"
  shows "parse_username_from_user_arn (arn @ CHR ''/'' # session) = Inr session"
  using assms by (simp add: parse_username_from_user_arn_def py_after_last_found py_strip_no_space)

subsection \<open>Responses and telemetry\<close>

record Response =
  rp_status_code :: int
  rp_headers :: "(string, string) pydict"
  rp_payload :: "(string, json) pydict"

definition rp_body :: "Response \<Rightarrow> string" where
  "rp_body r = json_dumps (JObj (rp_payload r))"

definition json_response :: "int \<Rightarrow> (string, json) pydict \<Rightarrow> Response" where
  "json_response status_code payload =
     \<lparr>rp_status_code = status_code, rp_headers = [(''Content-Type'', ''application/json'')],
      rp_payload = payload\<rparr>"

definition envelope_dict :: "ServiceError \<Rightarrow> (string, json) pydict" where
  "envelope_dict e = [(''error'', JObj (error_info_to_dict (to_envelope e)))]"

datatype MetricCall =
    Increment string int "(string, string) pydict"
  | Observe string float64 "(string, string) pydict"

definition TOKEN_SERVICE_REQUEST_COUNT_METRIC :: string where
  "TOKEN_SERVICE_REQUEST_COUNT_METRIC = ''token_service.requests''"

definition TOKEN_SERVICE_ERROR_COUNT_METRIC :: string where
  "TOKEN_SERVICE_ERROR_COUNT_METRIC = ''token_service.errors''"

definition TOKEN_SERVICE_LATENCY_METRIC :: string where
  "TOKEN_SERVICE_LATENCY_METRIC = ''token_service.request_latency_ms''"

definition TOKEN_SERVICE_CACHE_HIT_METRIC :: string where
  "TOKEN_SERVICE_CACHE_HIT_METRIC = ''token_service.cache_hits''"

definition TOKEN_SERVICE_CACHE_MISS_METRIC :: string where
  "TOKEN_SERVICE_CACHE_MISS_METRIC = ''token_service.cache_misses''"

definition TOKEN_SERVICE_FAILURE_EVENT :: string where
  "TOKEN_SERVICE_FAILURE_EVENT = ''token_service_request_failed''"

record 's HandlerState =
  hs_inner :: 's
  hs_metrics :: "MetricCall list"
  hs_warnings :: "string list"

definition on_inner :: "('s, 'a) op \<Rightarrow> ('s HandlerState, 'a) op" where
  "on_inner m h = (case m (hs_inner h) of (r, s) \<Rightarrow> (r, h\<lparr>hs_inner := s\<rparr>))"

definition on_metrics :: "(MetricCall list, 'a) op \<Rightarrow> ('s HandlerState, 'a) op" where
  "on_metrics m h = (case m (hs_metrics h) of (r, cs) \<Rightarrow> (r, h\<lparr>hs_metrics := cs\<rparr>))"

record TokenServiceMetricsRecorder =
  mr_increment :: "string \<Rightarrow> int \<Rightarrow> (string, string) pydict \<Rightarrow> (MetricCall list, unit) op"
  mr_observe :: "string \<Rightarrow> float64 \<Rightarrow> (string, string) pydict \<Rightarrow> (MetricCall list, unit) op"

record 's HandlerDependencies =
  hd_get_user_id_for_username :: "string \<Rightarrow> ('s, string option) op"
  hd_get_or_create_key :: "string \<Rightarrow> string \<Rightarrow> ('s, TokenIssueResult) op"
  hd_request_id_generator :: "('s, string) op"
  hd_metrics :: "TokenServiceMetricsRecorder option"

text \<open>\<open>requestContext.requestId\<close>, or a new one; the lookup is outside the handler's \<open>try\<close>.\<close>

definition resolve_request_id :: "(string, json) pydict \<Rightarrow> ('s, string) op \<Rightarrow> ('s, string) op" where
  "resolve_request_id event request_id_generator =
     bindM (liftR (py_get (dget event ''requestContext'' (JObj [])) ''requestId'' JNull)) (\<lambda>request_id.
       case request_id of
         JStr s \<Rightarrow> (if py_strip s \<noteq> [] then returnM s else request_id_generator)
       | _ \<Rightarrow> request_id_generator)"

definition TAGS_OPERATION :: "string \<times> string" where
  "TAGS_OPERATION = (''operation'', ''get_or_create_key'')"

definition record_metrics ::
    "'s HandlerDependencies \<Rightarrow> int \<Rightarrow> int \<Rightarrow> string option \<Rightarrow> (MetricCall list, unit) op" where
  "record_metrics deps status_code latency_ms token_source =
     (case hd_metrics deps of
        None \<Rightarrow> returnM ()
      | Some recorder \<Rightarrow>
          let tags = [TAGS_OPERATION, (''status_code'', py_str_int status_code)] in
          bindM (mr_increment recorder TOKEN_SERVICE_REQUEST_COUNT_METRIC 1 tags) (\<lambda>_.
          bindM (mr_observe recorder TOKEN_SERVICE_LATENCY_METRIC (fl (of_int latency_ms)) tags) (\<lambda>_.
          bindM (if 400 \<le> status_code
             then mr_increment recorder TOKEN_SERVICE_ERROR_COUNT_METRIC 1 tags else returnM ()) (\<lambda>_.
          case token_source of
            None \<Rightarrow> returnM ()
          | Some s \<Rightarrow>
              if s = ''cache'' then mr_increment recorder TOKEN_SERVICE_CACHE_HIT_METRIC 1 [TAGS_OPERATION]
              else mr_increment recorder TOKEN_SERVICE_CACHE_MISS_METRIC 1 [TAGS_OPERATION]))))"

definition key_payload :: "TokenIssueResult \<Rightarrow> string \<Rightarrow> (string, json) pydict" where
  "key_payload result request_id =
     [(''virtual_key'', JStr (ti_virtual_key result)), (''user_id'', JStr (ti_user_id result)),
      (''key_id'', JStr (ti_key_id result)), (''key_prefix'', JStr (ti_key_prefix result)),
      (''request_id'', JStr request_id)]"

text \<open>The \<open>try\<close> block, and the response each \<open>except\<close> clause builds.\<close>

definition issue_for_event ::
    "'s HandlerDependencies \<Rightarrow> (string, json) pydict \<Rightarrow> string \<Rightarrow> ('s, TokenIssueResult) op" where
  "issue_for_event deps event request_id =
     bindM (liftR (extract_username_from_event event)) (\<lambda>username.
     bindM (hd_get_user_id_for_username deps username) (\<lambda>user_id. case user_id of
         None \<Rightarrow> raiseM (ServiceErr
           (user_not_registered_error request_id (Some [(''username'', JStr username)])))
       | Some u \<Rightarrow> hd_get_or_create_key deps u request_id))"

definition error_response :: "string \<Rightarrow> py_exc \<Rightarrow> Response" where
  "error_response request_id err = (case err of
       IdentityErr m \<Rightarrow> json_response 400 (envelope_dict
         \<lparr>se_code = INVALID_IDENTITY, se_message = m, se_status_code = 400,
          se_request_id = request_id, se_details = None, se_headers = None\<rparr>)
     | ServiceErr e \<Rightarrow> json_response (se_status_code e) (envelope_dict e)
     | _ \<Rightarrow> json_response 500 (envelope_dict (internal_error request_id)))"

text \<open>\<open>json.loads(body).get("error", {}).get("type")\<close>, on the payload the body was written from.\<close>

definition payload_error_type :: "(string, json) pydict \<Rightarrow> json" where
  "payload_error_type payload =
     (case dget payload ''error'' (JObj []) of JObj d \<Rightarrow> dget d ''type'' JNull | _ \<Rightarrow> JNull)"

definition failure_warning :: "string \<Rightarrow> Response \<Rightarrow> string" where
  "failure_warning request_id response =
     json_dumps (JObj (sort_key fst
       [(''event'', JStr TOKEN_SERVICE_FAILURE_EVENT), (''request_id'', JStr request_id),
        (''status_code'', JInt (rp_status_code response)),
        (''error_type'', payload_error_type (rp_payload response))]))"

definition finish_response ::
    "'s HandlerDependencies \<Rightarrow> string \<Rightarrow> int \<Rightarrow> string option \<Rightarrow> Response \<Rightarrow>
     ('s HandlerState, Response) op" where
  "finish_response deps request_id latency_ms token_source response =
     bindM (on_metrics (record_metrics deps (rp_status_code response) latency_ms token_source)) (\<lambda>_.
     bindM (if 400 \<le> rp_status_code response
        then modifyM (\<lambda>h. h\<lparr>hs_warnings := hs_warnings h @ [failure_warning request_id response]\<rparr>)
        else returnM ()) (\<lambda>_.
     returnM response))"

definition handle_get_or_create_key ::
    "'s HandlerDependencies \<Rightarrow> int \<Rightarrow> (string, json) pydict \<Rightarrow> ('s HandlerState, Response) op" where
  "handle_get_or_create_key deps latency_ms event =
     bindM (on_inner (resolve_request_id event (hd_request_id_generator deps))) (\<lambda>request_id. \<lambda>h.
       case on_inner (issue_for_event deps event request_id) h of
         (Inr result, h') \<Rightarrow>
           finish_response deps request_id latency_ms
             (Some (token_issue_source_value (ti_source result)))
             (json_response 200 (key_payload result request_id)) h'
       | (Inl err, h') \<Rightarrow>
           finish_response deps request_id latency_ms None (error_response request_id err) h')"

text \<open>The handler over the token service and its two stores; no recorder is configured.\<close>

definition token_handler_deps :: "datetime \<Rightarrow> IssueEnv \<Rightarrow> string \<Rightarrow> World HandlerDependencies" where
  "token_handler_deps cache_ttl env generated =
     \<lparr>hd_get_user_id_for_username = (\<lambda>u. on_db (get_user_id_for_username u)),
      hd_get_or_create_key = get_or_create_key (token_service cache_ttl) env,
      hd_request_id_generator = returnM generated, hd_metrics = None\<rparr>"

subsection \<open>Properties\<close>

lemma finish_response_run:
  "finish_response deps request_id latency_ms token_source response h =
     (case record_metrics deps (rp_status_code response) latency_ms token_source (hs_metrics h) of
        (Inl e, cs) \<Rightarrow> (Inl e, h\<lparr>hs_metrics := cs\<rparr>)
      | (Inr _, cs) \<Rightarrow> (Inr response, h\<lparr>hs_metrics := cs, hs_warnings := hs_warnings h @
          (if 400 \<le> rp_status_code response then [failure_warning request_id response] else [])\<rparr>))"
  by (simp add: finish_response_def bindM_def on_metrics_def split: prod.splits sum.splits)

definition response_for :: "string \<Rightarrow> TokenIssueResult res \<Rightarrow> Response" where
  "response_for request_id r = (case r of
       Inr result \<Rightarrow> json_response 200 (key_payload result request_id)
     | Inl err \<Rightarrow> error_response request_id err)"

definition source_for :: "TokenIssueResult res \<Rightarrow> string option" where
  "source_for r = (case r of
       Inr result \<Rightarrow> Some (token_issue_source_value (ti_source result)) | Inl err \<Rightarrow> None)"

lemma handle_run:
  assumes "resolve_request_id event (hd_request_id_generator deps) (hs_inner h) = (Inr rid, s1)"
    and "issue_for_event deps event rid s1 = (r, s2)"
  shows "handle_get_or_create_key deps latency_ms event h =
    finish_response deps rid latency_ms (source_for r) (response_for rid r) (h\<lparr>hs_inner := s2\<rparr>)"
  using assms by (cases r)
    (simp_all add: handle_get_or_create_key_def on_inner_def response_for_def source_for_def bindM_def)

lemma resolve_request_id_mapping:
  assumes "is_mapping (dget event ''requestContext'' (JObj []))"
  shows "(\<exists>rid. resolve_request_id event generator s = (Inr rid, s)) \<or> resolve_request_id event generator s = generator s"
proof -
  obtain d where d: "dget event ''requestContext'' (JObj []) = JObj d"
    using assms by (cases "dget event ''requestContext'' (JObj [])") simp_all
  show ?thesis by (cases "dget d ''requestId'' JNull") (simp_all add: resolve_request_id_def d)
qed

text \<open>What runs outside the handler's \<open>try\<close> and is not its own: the generator and the recorder.\<close>

definition telemetry_answers :: "'s HandlerDependencies \<Rightarrow> bool" where
  "telemetry_answers deps \<longleftrightarrow> (\<forall>s. \<exists>rid. fst (hd_request_id_generator deps s) = Inr rid) \<and>
     (\<forall>recorder. hd_metrics deps = Some recorder \<longrightarrow>
        (\<forall>name value tags cs. fst (mr_increment recorder name value tags cs) = Inr ()) \<and>
        (\<forall>name value tags cs. fst (mr_observe recorder name value tags cs) = Inr ()))"

lemma answers_bind: "(\<And>s. fst (m s) = Inr ()) \<Longrightarrow> (\<And>s. fst (f () s) = Inr ()) \<Longrightarrow> fst (bindM m f s) = Inr ()"
proof -
  assume m: "\<And>s. fst (m s) = Inr ()" and f: "\<And>s. fst (f () s) = Inr ()"
  obtain s' where "m s = (Inr (), s')" using m [of s] by (cases "m s") auto
  then show ?thesis using f by simp
qed

lemma metrics_answer: "telemetry_answers deps \<Longrightarrow> fst (record_metrics deps code lat src cs) = Inr ()"
  unfolding record_metrics_def Let_def
  by (cases "hd_metrics deps") (auto simp: telemetry_answers_def split: option.split intro!: answers_bind)

text \<open>
  Property C36: when the event's request context is a mapping (or absent) whatever the user store
  and the issue service raise is answered: with the key if the service returned one, otherwise with the
  error response of the exception, and with one warning exactly when the status is an error. Only
  what runs outside the handler's \<open>try\<close> can keep the answer back: the generator of request
  identifiers, before the service is called, and the metrics recorder, after it, when the key has
  been issued already. If these two do not raise, the handler always answers.
\<close>

theorem token_handler_always_answers:
  assumes "is_mapping (dget event ''requestContext'' (JObj []))"
    and "handle_get_or_create_key deps latency_ms event h = (x, h')"
  shows "((\<exists>e s. hd_request_id_generator deps (hs_inner h) = (Inl e, s) \<and> x = Inl e \<and> h' = h\<lparr>hs_inner := s\<rparr>) \<or>
      (\<exists>rid s1 r s2. resolve_request_id event (hd_request_id_generator deps) (hs_inner h) = (Inr rid, s1) \<and>
         issue_for_event deps event rid s1 = (r, s2) \<and>
         (case record_metrics deps (rp_status_code (response_for rid r)) latency_ms (source_for r) (hs_metrics h) of
            (Inl e, cs) \<Rightarrow> x = Inl e \<and> h' = h\<lparr>hs_inner := s2, hs_metrics := cs\<rparr>
          | (Inr _, cs) \<Rightarrow> x = Inr (response_for rid r) \<and>
              h' = h\<lparr>hs_inner := s2, hs_metrics := cs, hs_warnings := hs_warnings h @
                (if 400 \<le> rp_status_code (response_for rid r)
                 then [failure_warning rid (response_for rid r)] else [])\<rparr>))) \<and>
    (telemetry_answers deps \<longrightarrow> (\<exists>resp. x = Inr resp))"
proof -
  let ?resolve = "resolve_request_id event (hd_request_id_generator deps) (hs_inner h)"
  show ?thesis
  proof (cases "fst ?resolve")
    case (Inl e)
    then obtain s where s: "?resolve = (Inl e, s)" by (cases ?resolve) simp
    then have g: "hd_request_id_generator deps (hs_inner h) = (Inl e, s)"
      using resolve_request_id_mapping [OF assms(1), of "hd_request_id_generator deps" "hs_inner h"] by auto
    have "x = Inl e \<and> h' = h\<lparr>hs_inner := s\<rparr>"
      using assms(2) s by (simp add: handle_get_or_create_key_def on_inner_def bindM_def)
    then show ?thesis using g unfolding telemetry_answers_def by (metis fst_conv sum.distinct(1))
  next
    case (Inr rid)
    then obtain s1 where s1: "?resolve = (Inr rid, s1)" by (cases ?resolve) simp
    obtain r s2 where r: "issue_for_event deps event rid s1 = (r, s2)" by force
    note run = assms(2) [unfolded handle_run [where h = h, OF s1 r] finish_response_run]
    have "telemetry_answers deps \<longrightarrow> (\<exists>resp. x = Inr resp)"
      using run metrics_answer [of deps "rp_status_code (response_for rid r)" latency_ms "source_for r" "hs_metrics h"]
      by (auto split: prod.splits sum.splits)
    then show ?thesis using run s1 r by (auto split: prod.splits sum.splits)
  qed
qed

text \<open>A recorder that keeps the calls, and what it has after an answer.\<close>

definition list_recorder :: TokenServiceMetricsRecorder where
  "list_recorder =
     \<lparr>mr_increment = (\<lambda>name value tags. modifyM (\<lambda>cs. cs @ [Increment name value tags])),
      mr_observe = (\<lambda>name value tags. modifyM (\<lambda>cs. cs @ [Observe name value tags]))\<rparr>"

definition metric_calls :: "int \<Rightarrow> int \<Rightarrow> string option \<Rightarrow> MetricCall list" where
  "metric_calls status_code latency_ms token_source =
     (let tags = [TAGS_OPERATION, (''status_code'', py_str_int status_code)] in
        [Increment TOKEN_SERVICE_REQUEST_COUNT_METRIC 1 tags,
         Observe TOKEN_SERVICE_LATENCY_METRIC (fl (of_int latency_ms)) tags] @
        (if 400 \<le> status_code then [Increment TOKEN_SERVICE_ERROR_COUNT_METRIC 1 tags] else []) @
        (case token_source of
           None \<Rightarrow> []
         | Some s \<Rightarrow>
             if s = ''cache'' then [Increment TOKEN_SERVICE_CACHE_HIT_METRIC 1 [TAGS_OPERATION]]
             else [Increment TOKEN_SERVICE_CACHE_MISS_METRIC 1 [TAGS_OPERATION]]))"

lemma list_recorder_calls:
  "hd_metrics deps = Some list_recorder \<Longrightarrow>
     record_metrics deps code lat src cs = (Inr (), cs @ metric_calls code lat src)"
  by (simp add: record_metrics_def metric_calls_def list_recorder_def Let_def split: option.split)

definition demo_event :: "string \<Rightarrow> (string, json) pydict" where
  "demo_event arn = [(''requestContext'', JObj [(''requestId'', JStr ''req-1''),
     (''identity'', JObj [(''userArn'', JStr arn)])])]"

definition demo_handler_deps :: "World HandlerDependencies" where
  "demo_handler_deps = token_handler_deps 0 (demo_env 0) ''gen''"

lemmas demo_handler_deps_defs = demo_handler_deps_def token_handler_deps_def

lemma demo_telemetry: "telemetry_answers (demo_handler_deps\<lparr>hd_metrics := Some list_recorder\<rparr>)"
  by (simp add: telemetry_answers_def demo_handler_deps_defs list_recorder_def)

lemma token_handler_always_answers_witness:
  "\<exists>resp h'. handle_get_or_create_key (demo_handler_deps\<lparr>hd_metrics := Some list_recorder\<rparr>) 3
       (demo_event ''arn:aws:sts::1:assumed-role/r/eve'')
     \<lparr>hs_inner = demo_world, hs_metrics = [], hs_warnings = []\<rparr> = (Inr resp, h') \<and>
     hs_inner h' = demo_world \<and> length (hs_warnings h') = 1 \<and> length (hs_metrics h') = 3 \<and> rp_status_code resp = 403"
proof -
  let ?ev = "demo_event ''arn:aws:sts::1:assumed-role/r/eve''"
  let ?deps = "demo_handler_deps\<lparr>hd_metrics := Some list_recorder\<rparr>"
  let ?h = "\<lparr>hs_inner = demo_world, hs_metrics = [], hs_warnings = []\<rparr>"
  have m: "is_mapping (dget ?ev ''requestContext'' (JObj []))"
    by (simp add: demo_event_def dget_def)
  have rid: "resolve_request_id ?ev gen s = (Inr ''req-1'', s)" for gen and s :: World
    by (simp add: resolve_request_id_def demo_event_def dget_def py_strip_def py_lstrip_def py_isspace_def)
  have u: "extract_username_from_event ?ev = Inr ''eve''"
    using parse_username_session [of "''eve''" "''arn:aws:sts::1:assumed-role/r''"]
    by (simp add: extract_username_from_event_def extract_user_arn_def extract_identity_section_def
        demo_event_def dget_def py_isspace_def py_strip_empty)
  have i: "issue_for_event ?deps ?ev ''req-1'' demo_world =
      (Inl (ServiceErr (user_not_registered_error ''req-1'' (Some [(''username'', JStr ''eve'')]))), demo_world)"
    by (simp add: issue_for_event_def u demo_handler_deps_defs on_db_def get_user_id_for_username_def
        get_identity_mapping_def demo_world_def)
  have c: "record_metrics ?deps code 3 None [] = (Inr (), metric_calls code 3 None)" for code
    using list_recorder_calls [of ?deps code 3 None "[]"] by simp
  obtain x h' where run: "handle_get_or_create_key ?deps 3 ?ev ?h = (x, h')" by fastforce
  obtain resp where "x = Inr resp"
    using token_handler_always_answers [OF m run] demo_telemetry by blast
  then show ?thesis
    using token_handler_always_answers [OF m run] run i c rid
    by (auto simp: response_for_def source_for_def error_response_def user_not_registered_error_def json_response_def
        metric_calls_def Let_def demo_handler_deps_defs split: prod.splits sum.splits)
qed

text \<open>
  An event whose \<open>requestContext\<close> is present but not a mapping (\<open>null\<close>, say) makes
  the handler raise \<open>AttributeError\<close> before its \<open>try\<close>: no response, no metrics, no warning,
  although the identity check has an error message for this event.
\<close>

lemma token_handler_null_context_raises:
  assumes "\<not> is_mapping (dget event ''requestContext'' (JObj []))"
  shows "handle_get_or_create_key deps latency_ms event h = (Inl attribute_error, h) \<and>
    (\<exists>m. extract_username_from_event event = Inl (IdentityErr m))"
proof -
  have "dget event ''requestContext'' JNull = dget event ''requestContext'' (JObj [])"
    using assms by (auto simp: dget_def split: option.splits)
  then show ?thesis
    using assms by (cases "dget event ''requestContext'' (JObj [])")
      (auto simp: handle_get_or_create_key_def on_inner_def bindM_def resolve_request_id_def extract_username_from_event_def
        extract_user_arn_def extract_identity_section_def)
qed

lemma response_for_key:
  "map_of (rp_payload (response_for rid r)) ''virtual_key'' = Some v \<Longrightarrow>
     \<exists>res. r = Inr res \<and> v = JStr (ti_virtual_key res) \<and> rp_status_code (response_for rid r) = 200"
  by (cases r) (auto simp: response_for_def error_response_def json_response_def key_payload_def
      envelope_dict_def internal_error_def split: py_exc.splits)

lemma issue_for_event_Inr:
  assumes "issue_for_event (token_handler_deps ttl env generated) event rid w = (Inr r, w')"
  shows "\<exists>name u. extract_username_from_event event = Inr name \<and>
    get_user_id_for_username name (w_db w) = (Inr (Some u), w_db w) \<and>
    get_or_create_key (token_service ttl) env u rid w = (Inr r, w')"
  using assms by (auto simp: issue_for_event_def token_handler_deps_def bindM_Inr on_db_eq
      get_user_id_for_username_def get_identity_mapping_def simp del: fetchone_None split: option.splits)

lemma handle_answer:
  assumes "handle_get_or_create_key (token_handler_deps ttl env generated) latency_ms event h = (Inr resp, h')"
  shows "\<exists>rid r. issue_for_event (token_handler_deps ttl env generated) event rid (hs_inner h) = (r, hs_inner h') \<and>
    resp = response_for rid r"
proof -
  let ?deps = "token_handler_deps ttl env generated"
  have same: "snd (resolve_request_id event (returnM generated) s) = s" for s :: World
    by (cases "py_get (dget event ''requestContext'' (JObj [])) ''requestId'' JNull")
      (auto simp: resolve_request_id_def bindM_def split: json.split)
  obtain rid s1 where "resolve_request_id event (returnM generated) (hs_inner h) = (Inr rid, s1)"
    using assms by (auto simp: handle_get_or_create_key_def bindM_Inr on_inner_def token_handler_deps_def
        split: prod.splits)
  then have rid: "resolve_request_id event (hd_request_id_generator ?deps) (hs_inner h) = (Inr rid, hs_inner h)"
    using same [of "hs_inner h"] by (simp add: token_handler_deps_def)
  obtain r s where r: "issue_for_event ?deps event rid (hs_inner h) = (r, s)" by force
  have "record_metrics ?deps code lat src cs = (Inr (), cs)" for code lat src cs
    by (simp add: record_metrics_def token_handler_deps_def)
  then show ?thesis
    using assms r unfolding handle_run [where h = h, OF rid r] finish_response_run
    by (intro exI [of _ rid] exI [of _ r]) auto
qed

text \<open>
  A response that carries a virtual key has status 200, and the key is an active
  key, recorded in the ledger under its hash, of the very user that the caller's user name (from
  the event's ARN) is mapped to. No error response carries a key.
\<close>

lemma token_handler_key_only_on_success:
  assumes "world_good (hs_inner h)" and "uuid_in (ie_uuid env) = Some (ie_uuid env)"
    and "handle_get_or_create_key (token_handler_deps ttl env generated) latency_ms event h =
      (Inr resp, h')"
    and "map_of (rp_payload resp) ''virtual_key'' = Some v"
  shows "rp_status_code resp = 200 \<and> (\<exists>name u key k. v = JStr key \<and>
    extract_username_from_event event = Inr name \<and>
    fst (get_user_id_for_username name (w_db (hs_inner h))) = Inr (Some u) \<and>
    k \<in> world_keys (hs_inner h') \<and> vk_key_hash k = hash_virtual_key key \<and>
    vk_user_id k = u \<and> vk_status k = ACTIVE)"
proof -
  obtain rid r where r: "issue_for_event (token_handler_deps ttl env generated) event rid (hs_inner h) =
      (r, hs_inner h')" "resp = response_for rid r"
    using handle_answer [OF assms(3)] by blast
  obtain res where res: "r = Inr res" "v = JStr (ti_virtual_key res)" "rp_status_code resp = 200"
    using response_for_key assms(4) r(2) by blast
  obtain name u where u: "extract_username_from_event event = Inr name"
    "get_user_id_for_username name (w_db (hs_inner h)) = (Inr (Some u), w_db (hs_inner h))"
    "get_or_create_key (token_service ttl) env u rid (hs_inner h) = (Inr res, hs_inner h')"
    using issue_for_event_Inr r(1) res(1) by blast
  then show ?thesis
    using world_issue.handed_out [of "hs_inner h" ttl env u rid res "hs_inner h'"] assms(1,2) res
    unfolding world_good_defs storable_new by auto
qed

definition demo_call :: "World HandlerState" where
  "demo_call = \<lparr>hs_inner = demo_world, hs_metrics = [], hs_warnings = []\<rparr>"

lemma demo_handler_run:
  "\<exists>resp h' r. handle_get_or_create_key demo_handler_deps 3
       (demo_event ''arn:aws:sts::1:assumed-role/r/ana@corp'') demo_call = (Inr resp, h') \<and>
     hs_inner h' = demo_issued 0 \<and> map_of (rp_payload resp) ''virtual_key'' = Some (JStr (ti_virtual_key r)) \<and>
     get_or_create_key (token_service 0) (demo_env 0) ''ana'' ''req-1'' demo_world = (Inr r, demo_issued 0) \<and>
     ti_source r = ISSUED"
proof -
  let ?ev = "demo_event ''arn:aws:sts::1:assumed-role/r/ana@corp''"
  have rid: "resolve_request_id ?ev gen s = (Inr ''req-1'', s)" for gen and s :: World
    by (simp add: resolve_request_id_def demo_event_def dget_def py_strip_def py_lstrip_def py_isspace_def)
  have u: "extract_username_from_event ?ev = Inr ''ana@corp''"
    using parse_username_session [of "''ana@corp''" "''arn:aws:sts::1:assumed-role/r''"]
    by (simp add: extract_username_from_event_def extract_user_arn_def extract_identity_section_def
        demo_event_def dget_def py_isspace_def py_strip_empty)
  obtain r where g: "get_or_create_key (token_service 0) (demo_env 0) ''ana'' ''req-1'' demo_world =
      (Inr r, demo_issued 0)" "ti_source r = ISSUED"
    using demo_issue_run by blast
  have i: "issue_for_event demo_handler_deps ?ev ''req-1'' demo_world = (Inr r, demo_issued 0)"
    using g by (simp add: issue_for_event_def u demo_handler_deps_defs on_db_def fetchone_def
        get_user_id_for_username_def get_identity_mapping_def demo_world_def)
  let ?resp = "response_for ''req-1'' (Inr r)"
  have "handle_get_or_create_key demo_handler_deps 3 ?ev demo_call = (Inr ?resp, demo_call\<lparr>hs_inner := demo_issued 0\<rparr>)"
    using i by (simp add: handle_run [OF rid] finish_response_run demo_call_def record_metrics_def
        demo_handler_deps_defs response_for_def json_response_def)
  then obtain resp h' where run: "handle_get_or_create_key demo_handler_deps 3 ?ev demo_call = (Inr resp, h')"
    "resp = response_for ''req-1'' (Inr r)" "hs_inner h' = demo_issued 0"
    by simp
  have "map_of (rp_payload resp) ''virtual_key'' = Some (JStr (ti_virtual_key r))"
    by (simp add: run(2) response_for_def json_response_def key_payload_def)
  then show ?thesis using run(1,3) g by blast
qed

end
