(* ===== verification/Auth.thy ===== *)
theory Auth
  imports TokenHandler
begin

section \<open>Authentication (\<open>proxy/auth.py\<close>, \<open>proxy/context.py\<close>)\<close>

text \<open>
  \<open>ProxyAuthService\<close> over the ledger's lookup by hash and the user repository, both arbitrary
  operations. The client lemmas hold in \<open>proxy_auth\<close>, under the ledger contract; the properties
  are about the service on the same database the token service writes.
\<close>

record 's ProxyAuthService =
  pa_get_key_by_hash :: "string \<Rightarrow> ('s, VirtualKeyRecord option) op"
  pa_get_user :: "string \<Rightarrow> ('s, UserRecord option) op"

definition authentication_error :: "string \<Rightarrow> string \<Rightarrow> py_exc" where
  "authentication_error request_id reason =
     ServiceErr (authentication_failed_error request_id (Some [(''reason'', JStr reason)]))"

definition AUTH_REASON_MISSING_BEARER :: string where
  "AUTH_REASON_MISSING_BEARER = ''missing_bearer_token''"

definition AUTH_REASON_MALFORMED_BEARER :: string where
  "AUTH_REASON_MALFORMED_BEARER = ''malformed_bearer_token''"

definition AUTH_REASON_UNKNOWN_KEY :: string where
  "AUTH_REASON_UNKNOWN_KEY = ''unknown_virtual_key''"

definition AUTH_REASON_INACTIVE_KEY :: string where
  "AUTH_REASON_INACTIVE_KEY = ''inactive_virtual_key''"

definition AUTH_REASON_ORPHANED_KEY :: string where
  "AUTH_REASON_ORPHANED_KEY = ''orphaned_virtual_key''"

lemmas auth_reason_defs = AUTH_REASON_MISSING_BEARER_def AUTH_REASON_MALFORMED_BEARER_def
  AUTH_REASON_UNKNOWN_KEY_def AUTH_REASON_INACTIVE_KEY_def AUTH_REASON_ORPHANED_KEY_def

definition extract_virtual_key :: "string option \<Rightarrow> string \<Rightarrow> string res" where
  "extract_virtual_key authorization_header request_id =
     (case authorization_header of
        None \<Rightarrow> Inl (authentication_error request_id AUTH_REASON_MISSING_BEARER)
      | Some header \<Rightarrow>
          if py_strip header = [] then Inl (authentication_error request_id AUTH_REASON_MISSING_BEARER)
          else case py_partition (CHR '' '') header of (scheme, separator, token) \<Rightarrow>
            if separator \<noteq> '' '' \<or> scheme \<noteq> ''Bearer'' \<or> py_strip token = []
            then Inl (authentication_error request_id AUTH_REASON_MALFORMED_BEARER)
            else let normalized_token = py_strip token in
              if \<not> py_startswith normalized_token VIRTUAL_KEY_PREFIX
              then Inl (authentication_error request_id AUTH_REASON_MALFORMED_BEARER)
              else Inr normalized_token)"

definition restore_trusted_request_context ::
    "string \<Rightarrow> UserRecord \<Rightarrow> string \<Rightarrow> string \<Rightarrow> string \<Rightarrow> AuthenticatedRequestContext" where
  "restore_trusted_request_context request_id user virtual_key_id key_hash key_prefix =
     \<lparr>ac_request = \<lparr>rc_request_id = request_id,
        rc_user = Some \<lparr>uc_user_id = ur_id user, uc_email = Some (ur_email user),
          uc_groups = ur_groups user, uc_department = ur_department user\<rparr>\<rparr>,
      ac_user_record = user, ac_virtual_key_id = virtual_key_id, ac_key_hash = key_hash,
      ac_key_prefix = key_prefix\<rparr>"

definition authenticate ::
    "'s ProxyAuthService \<Rightarrow> string option \<Rightarrow> string \<Rightarrow> ('s, AuthenticatedRequestContext) op" where
  "authenticate svc authorization_header request_id =
     bindM (liftR (extract_virtual_key authorization_header request_id)) (\<lambda>virtual_key.
     bindM (pa_get_key_by_hash svc (hash_virtual_key virtual_key)) (\<lambda>found. case found of
         None \<Rightarrow> raiseM (authentication_error request_id AUTH_REASON_UNKNOWN_KEY)
       | Some k \<Rightarrow>
           if vk_status k \<noteq> ACTIVE
           then raiseM (authentication_error request_id AUTH_REASON_INACTIVE_KEY)
           else bindM (pa_get_user svc (vk_user_id k)) (\<lambda>user. case user of
               None \<Rightarrow> raiseM (authentication_error request_id AUTH_REASON_ORPHANED_KEY)
             | Some u \<Rightarrow> returnM (restore_trusted_request_context request_id u (vk_id k)
                 (vk_key_hash k) (vk_key_prefix k)))))"

subsection \<open>The header\<close>

lemma extract_bearer:
  assumes "\<forall>c \<in> set s. \<not> py_isspace c"
  shows "extract_virtual_key (Some (''Bearer '' @ VIRTUAL_KEY_PREFIX @ s)) rid = Inr (VIRTUAL_KEY_PREFIX @ s)"
proof -
  let ?k = "VIRTUAL_KEY_PREFIX @ s"
  have k: "\<forall>c \<in> set ?k. \<not> py_isspace c" using assms by (auto simp: VIRTUAL_KEY_PREFIX_def py_isspace_def)
  have ne: "?k \<noteq> []" by (simp add: VIRTUAL_KEY_PREFIX_def)
  have "\<not> py_isspace (CHR ''B'')" by (simp add: py_isspace_def)
  then have h: "py_strip (''Bearer '' @ ?k) \<noteq> []" by (simp add: py_strip_empty)
  have "py_partition (CHR '' '') (''Bearer'' @ CHR '' '' # ?k) = (''Bearer'', '' '', ?k)"
    by (rule py_partition_found) simp
  then have p: "py_partition (CHR '' '') (''Bearer '' @ ?k) = (''Bearer'', '' '', ?k)" by simp
  have st: "py_strip ?k = ?k" by (rule py_strip_no_space [OF k])
  show ?thesis using h p st ne
    by (simp only: extract_virtual_key_def option.case if_False prod.case Let_def
        py_startswith_append simp_thms if_True)
qed

lemma extract_virtual_key_Inr:
  assumes "extract_virtual_key h rid = Inr k"
  shows "py_startswith k VIRTUAL_KEY_PREFIX"
  using assms by (auto simp: extract_virtual_key_def Let_def split: option.splits if_splits prod.splits)

lemma extract_virtual_key_Inl:
  assumes "extract_virtual_key h rid = Inl e"
  shows "e \<in> authentication_error rid ` {AUTH_REASON_MISSING_BEARER, AUTH_REASON_MALFORMED_BEARER}"
  using assms by (auto simp: extract_virtual_key_def Let_def split: option.splits if_splits prod.splits)

subsection \<open>The service under the ledger contract\<close>

locale proxy_auth =
  key_ledger get_active get_by_hash save inv keys storable
  for get_active :: "string \<Rightarrow> ('s, VirtualKeyRecord option) op"
    and get_by_hash :: "string \<Rightarrow> ('s, VirtualKeyRecord option) op"
    and save :: "VirtualKeyRecord \<Rightarrow> ('s, unit) op"
    and inv :: "'s \<Rightarrow> bool"
    and keys :: "'s \<Rightarrow> VirtualKeyRecord set"
    and storable :: "VirtualKeyRecord \<Rightarrow> bool" +
  fixes find_user :: "string \<Rightarrow> 's \<Rightarrow> UserRecord option"
    and auth :: "'s ProxyAuthService"
  assumes auth_get_key: "pa_get_key_by_hash auth = get_by_hash"
    and auth_get_user: "pa_get_user auth u s = (Inr (find_user u s), s)"
    and find_user_id: "find_user u s = Some x \<Longrightarrow> ur_id x = u"
begin

text \<open>Who gets through: exactly the bearer of a key whose record is active and has a user.\<close>

lemma authenticate_iff:
  assumes "inv s"
  shows "authenticate auth h rid s = (Inr c, s') \<longleftrightarrow>
    s' = s \<and> (\<exists>vk k u. extract_virtual_key h rid = Inr vk \<and> k \<in> keys s \<and>
      vk_key_hash k = hash_virtual_key vk \<and> vk_status k = ACTIVE \<and>
      find_user (vk_user_id k) s = Some u \<and>
      c = restore_trusted_request_context rid u (vk_id k) (vk_key_hash k) (vk_key_prefix k))"
    (is "?l \<longleftrightarrow> ?r")
proof
  assume ?l
  then obtain vk k u where *: "extract_virtual_key h rid = Inr vk"
    "get_by_hash (hash_virtual_key vk) s = (Inr (Some k), s)" "vk_status k = ACTIVE"
    "find_user (vk_user_id k) s = Some u" "s' = s"
    "c = restore_trusted_request_context rid u (vk_id k) (vk_key_hash k) (vk_key_prefix k)"
    using get_by_hash [OF assms] by (fastforce simp: authenticate_def bindM_Inr auth_get_key
        auth_get_user split: option.splits if_splits)
  then show ?r using get_by_hash_Some [OF assms] by blast
next
  assume ?r
  then obtain vk k u where *: "extract_virtual_key h rid = Inr vk" "k \<in> keys s"
    "vk_key_hash k = hash_virtual_key vk" "vk_status k = ACTIVE"
    "find_user (vk_user_id k) s = Some u" "s' = s"
    "c = restore_trusted_request_context rid u (vk_id k) (vk_key_hash k) (vk_key_prefix k)"
    by blast
  have "get_by_hash (hash_virtual_key vk) s = (Inr (Some k), s)"
    by (rule get_by_hash_in [OF assms *(2, 3)])
  then show ?l using * by (simp add: authenticate_def auth_get_key auth_get_user)
qed

text \<open>Everyone else is refused with a 401, and the state is untouched either way.\<close>

lemma always_answers:
  assumes "inv s"
  shows "\<exists>r. authenticate auth h rid s = (r, s) \<and>
    (case r of Inr c \<Rightarrow> ac_request_id c = rid
             | Inl err \<Rightarrow> \<exists>e. err = ServiceErr e \<and> se_code e = AUTHENTICATION_FAILED \<and>
                 se_status_code e = 401 \<and> se_request_id e = rid)"
proof (cases "extract_virtual_key h rid")
  case (Inl err)
  then show ?thesis using extract_virtual_key_Inl [OF Inl]
    by (auto simp: authenticate_def authentication_error_def authentication_failed_error_def)
next
  case (Inr vk)
  obtain found where f: "get_by_hash (hash_virtual_key vk) s = (Inr found, s)"
    using get_by_hash [OF assms] by blast
  show ?thesis
  proof (cases found)
    case None
    then show ?thesis using Inr f
      by (simp add: authenticate_def auth_get_key authentication_error_def authentication_failed_error_def)
  next
    case (Some k)
    then show ?thesis using Inr f
      by (cases "find_user (vk_user_id k) s")
        (simp_all add: authenticate_def auth_get_key auth_get_user authentication_error_def
          authentication_failed_error_def restore_trusted_request_context_def ac_request_id_def)
  qed
qed

lemma inactive_refused:
  assumes "inv s" and "extract_virtual_key h rid = Inr vk" and "k \<in> keys s"
    and "vk_key_hash k = hash_virtual_key vk" and "vk_status k \<noteq> ACTIVE"
  shows "authenticate auth h rid s = (Inl (authentication_error rid AUTH_REASON_INACTIVE_KEY), s)"
proof -
  have "get_by_hash (hash_virtual_key vk) s = (Inr (Some k), s)"
    by (rule get_by_hash_in [OF assms(1, 3, 4)])
  then show ?thesis using assms by (simp add: authenticate_def auth_get_key)
qed

end

subsection \<open>On the deployed ledger\<close>

definition world_find_user :: "string \<Rightarrow> World \<Rightarrow> UserRecord option" where
  "world_find_user user_id w =
     map_option user_row_to_record (fetchone (filter (\<lambda>r. us_id r = user_id) (db_users (w_db w))))"

definition auth_service :: "World ProxyAuthService" where
  "auth_service = \<lparr>pa_get_key_by_hash = world_get_by_hash, pa_get_user = world_get_user\<rparr>"

interpretation world_auth: proxy_auth world_get_active world_get_by_hash world_save_key world_ok
  world_keys storable_id world_find_user auth_service
  by unfold_locales
    (auto simp: auth_service_def world_get_user_def on_db_def get_user_run world_find_user_def
      user_row_to_record_def dest!: fetchone_filter)

subsection \<open>Properties\<close>

text \<open>
  Property C7: a request is authenticated exactly when its bearer token is a virtual key whose
  hash is in the ledger with an active record of an existing user; the context it gets holds that
  user and that key record, and the request identifier, and nothing the caller sent.
\<close>

theorem authenticate_iff_active_key:
  assumes "world_ok w"
  shows "authenticate auth_service h rid w = (Inr c, w') \<longleftrightarrow>
    w' = w \<and> (\<exists>vk k u. extract_virtual_key h rid = Inr vk \<and> k \<in> world_keys w \<and>
      vk_key_hash k = hash_virtual_key vk \<and> vk_status k = ACTIVE \<and>
      world_find_user (vk_user_id k) w = Some u \<and>
      c = restore_trusted_request_context rid u (vk_id k) (vk_key_hash k) (vk_key_prefix k))"
  by (rule world_auth.authenticate_iff [OF assms])

text \<open>
  Authentication answers every request without changing the state: with a context
  for this request, or with a 401 authentication error that carries the request's identifier.
\<close>

lemma authenticate_total:
  assumes "world_ok w"
  shows "\<exists>r. authenticate auth_service h rid w = (r, w) \<and>
    (case r of Inr c \<Rightarrow> ac_request_id c = rid
             | Inl err \<Rightarrow> \<exists>e. err = ServiceErr e \<and> se_code e = AUTHENTICATION_FAILED \<and>
                 se_status_code e = 401 \<and> se_request_id e = rid)"
  by (rule world_auth.always_answers [OF assms])

text \<open>A generated key with an active record is the bearer token of its user's requests.\<close>

lemma active_key_context:
  assumes ok: "world_ok w" and k: "k \<in> world_keys w" "vk_key_hash k = hash_virtual_key vk" "vk_status k = ACTIVE"
    and vk: "vk = generate_virtual_key bs" "\<forall>b \<in> set bs. b < 256"
  shows "\<exists>c. authenticate auth_service (Some (''Bearer '' @ vk)) rid w = (Inr c, w) \<and>
    world_find_user (vk_user_id k) w = Some (ac_user_record c) \<and> ur_id (ac_user_record c) = vk_user_id k \<and>
    ac_virtual_key_id c = vk_id k \<and> ac_request_id c = rid"
proof -
  have e: "extract_virtual_key (Some (''Bearer '' @ vk)) rid = Inr vk"
    unfolding vk(1) generate_virtual_key_def
    by (rule extract_bearer)
      (use generate_virtual_key_no_space [OF vk(2)] in \<open>auto simp: generate_virtual_key_def\<close>)
  have "vk_user_id k \<in> us_id ` set (db_users (w_db w))"
    using k(1) ok the_record_fields(2) [OF db_ok_row]
    by (auto simp: world_ok_def world_keys_def db_keys_def db_ok_def list_all_iff)
  then have "filter (\<lambda>r. us_id r = vk_user_id k) (db_users (w_db w)) \<noteq> []" by (auto simp: filter_empty_conv)
  then obtain x where x: "world_find_user (vk_user_id k) w = Some x"
    by (cases "filter (\<lambda>r. us_id r = vk_user_id k) (db_users (w_db w))")
      (auto simp: world_find_user_def fetchone_def)
  have "authenticate auth_service (Some (''Bearer '' @ vk)) rid w =
      (Inr (restore_trusted_request_context rid x (vk_id k) (vk_key_hash k) (vk_key_prefix k)), w)"
    unfolding world_auth.authenticate_iff [OF ok] using e k x by blast
  then show ?thesis
    using x world_auth.find_user_id [OF x] by (simp add: restore_trusted_request_context_def ac_request_id_def)
qed

lemma issued_key_record:
  assumes "world_good w" and "uuid_in (ie_uuid env) = Some (ie_uuid env)"
    and "get_or_create_key (token_service ttl) env u rid w = (Inr r, w')"
  shows "world_ok w' \<and> (\<exists>k. k \<in> world_keys w' \<and> vk_key_hash k = hash_virtual_key (ti_virtual_key r) \<and>
    vk_status k = ACTIVE \<and> vk_id k = ti_key_id r \<and> vk_user_id k = u)"
proof -
  have "world_good w'"
    using world_issue.good_preserved [of w ttl env u rid "Inr r" w'] assms
    unfolding world_good_defs storable_new by blast
  moreover have "\<exists>k. k \<in> world_keys w' \<and> vk_key_hash k = hash_virtual_key (ti_virtual_key r) \<and>
      vk_status k = ACTIVE \<and> vk_id k = ti_key_id r \<and> vk_user_id k = u"
    using world_issue.handed_out [of w ttl env u rid r w'] assms
    unfolding world_good_defs storable_new by blast
  ultimately show ?thesis by (simp add: world_good_def)
qed

text \<open>
  The key the token service hands out gets its user through the proxy's
  authentication: sent as \<open>Bearer <key>\<close>, it is accepted, with the user of the call.
\<close>

lemma handed_out_key_authenticates:
  assumes "world_good w" and "uuid_in (ie_uuid env) = Some (ie_uuid env)"
    and "get_or_create_key (token_service ttl) env u rid w = (Inr r, w')"
    and "ti_virtual_key r = generate_virtual_key bs" and "\<forall>b \<in> set bs. b < 256"
  shows "\<exists>c. authenticate auth_service (Some (''Bearer '' @ ti_virtual_key r)) rid' w' = (Inr c, w') \<and>
    ur_id (ac_user_record c) = u \<and> ac_virtual_key_id c = ti_key_id r \<and> ac_request_id c = rid'"
  using issued_key_record [OF assms(1-3)] active_key_context [OF _ _ _ _ assms(4,5), of w' _ rid'] by metis

definition demo_bytes :: "byte list" where
  "demo_bytes = [105, 183, 29, 121, 248, 33, 138, 57, 37, 154, 122, 41, 170, 187, 45, 186, 252, 49,
     203, 61, 53, 219, 126, 57]"

lemma demo_bytes_key: "ie_generated_key (demo_env n) = generate_virtual_key demo_bytes"
proof -
  have "generate_virtual_key demo_bytes = ''vk_abcdefghijklmnopqrstuvwxyz012345''" by code_simp
  then show ?thesis by (simp add: demo_env_def)
qed

lemma demo_issued_good: "world_good (demo_issued 0)"
  using demo_issue_run [of 0 "''r''"] world_issue.good_preserved [of demo_world 0 "demo_env 0" "''ana''"]
    demo_good demo_uuid unfolding world_good_defs storable_new by blast

lemma demo_key_in: "demo_key 0 \<in> world_keys (demo_issued 0)"
  by (simp add: demo_issued_def world_keys_def db_keys_def)

lemma demo_issued_key:
  assumes "get_or_create_key (token_service 0) (demo_env 0) ''ana'' rid demo_world = (Inr r, demo_issued 0)"
    and "ti_source r = ISSUED"
  shows "ti_virtual_key r = generate_virtual_key demo_bytes"
  by (rule world_issue.get_or_create_cases [of demo_world 0 "demo_env 0" "''ana''" rid r "demo_issued 0"])
    (use assms demo_good in \<open>simp_all add: world_good_def demo_bytes_key\<close>)

lemma demo_bytes_small: "\<forall>b \<in> set demo_bytes. b < 256"
  by (simp add: demo_bytes_def)

lemma demo_extract: "extract_virtual_key (Some (''Bearer '' @ ie_generated_key (demo_env 0))) rid =
    Inr (ie_generated_key (demo_env 0))"
  unfolding demo_bytes_key generate_virtual_key_def
  by (rule extract_bearer)
    (use generate_virtual_key_no_space [of demo_bytes] in
      \<open>auto simp: generate_virtual_key_def demo_bytes_def\<close>)

lemma demo_active: "vk_key_hash (demo_key 0) = hash_virtual_key (ie_generated_key (demo_env 0)) \<and>
    vk_status (demo_key 0) = ACTIVE"
  by (simp add: demo_key_def new_key_record_def Let_def)

lemma demo_find_user: "world_find_user (vk_user_id (demo_key 0)) (demo_issued 0) =
    Some (user_row_to_record (demo_user ''ana'' True))"
  by (simp add: world_find_user_def demo_issued_def demo_world_def demo_user_def demo_key_def
      new_key_record_def Let_def fetchone_def)

lemma demo_issued_ok: "world_ok (demo_issued 0)"
  using demo_issued_good by (simp add: world_good_def)

definition demo_header :: "string option" where
  "demo_header = Some (''Bearer '' @ ie_generated_key (demo_env 0))"

lemma demo_authenticated:
  "\<exists>a. authenticate auth_service demo_header rid (demo_issued 0) = (Inr a, demo_issued 0) \<and>
     ac_user_record a = user_row_to_record (demo_user ''ana'' True)"
proof -
  let ?a = "restore_trusted_request_context rid (user_row_to_record (demo_user ''ana'' True))
      (vk_id (demo_key 0)) (vk_key_hash (demo_key 0)) (vk_key_prefix (demo_key 0))"
  have "authenticate auth_service demo_header rid (demo_issued 0) = (Inr ?a, demo_issued 0)"
    unfolding world_auth.authenticate_iff [OF demo_issued_ok] demo_header_def
    using demo_extract demo_key_in demo_active demo_find_user by blast
  then show ?thesis by (auto simp: restore_trusted_request_context_def)
qed

lemma authenticate_iff_active_key_witness:
  "\<exists>u. authenticate auth_service (Some (''Bearer '' @ ie_generated_key (demo_env 0))) ''r2'' (demo_issued 0) =
     (Inr (restore_trusted_request_context ''r2'' u (vk_id (demo_key 0)) (vk_key_hash (demo_key 0))
        (vk_key_prefix (demo_key 0))), demo_issued 0)"
  unfolding authenticate_iff_active_key [OF demo_issued_ok]
  using demo_extract demo_key_in demo_active demo_find_user by blast

end
