(* ===== verification/Schema.thy ===== *)
theory Schema
  imports Stores
begin

section \<open>The database schema (\<open>infra/postgres/schema.py\<close>, \<open>alembic/versions\<close>)\<close>

text \<open>
  The tables of \<open>POSTGRES_SCHEMA_SQL\<close> as data, the migration that creates and drops them, and what
  their constraints let in. Postgres is modelled as far as the repository's statements use it: a
  catalog of tables, and an \<open>INSERT\<close> that gives every column. The key ledger of \<open>Stores\<close> is shown
  to be this insert on this schema.
\<close>

datatype SqlType =
    SVarchar nat | SUuid | SText | STextArray | SBoolean | STimestamptz | SBytea | SJsonb | SBigint
  | SInteger | SNumeric nat nat | SDate

record Column =
  c_name :: string
  c_type :: SqlType
  c_not_null :: bool
  c_default :: "string option"
  c_references :: "string option"

datatype Check = CheckLe string string | CheckMax string int

record Table =
  t_name :: string
  t_columns :: "Column list"
  t_primary_key :: string
  t_unique :: "string list list"
  t_checks :: "Check list"

text \<open>
  The forms a column takes; a reference is to the \<open>id\<close> of the table. A default is kept as text.
\<close>

definition required :: "string \<Rightarrow> SqlType \<Rightarrow> Column" where
  "required n t = \<lparr>c_name = n, c_type = t, c_not_null = True, c_default = None, c_references = None\<rparr>"

definition optional :: "string \<Rightarrow> SqlType \<Rightarrow> Column" where
  "optional n t = \<lparr>c_name = n, c_type = t, c_not_null = False, c_default = None, c_references = None\<rparr>"

definition defaulted :: "string \<Rightarrow> SqlType \<Rightarrow> string \<Rightarrow> Column" where
  "defaulted n t d = \<lparr>c_name = n, c_type = t, c_not_null = True, c_default = Some d, c_references = None\<rparr>"

definition references :: "string \<Rightarrow> SqlType \<Rightarrow> string \<Rightarrow> Column" where
  "references n t table = \<lparr>c_name = n, c_type = t, c_not_null = True, c_default = None,
     c_references = Some table\<rparr>"

definition may_reference :: "string \<Rightarrow> SqlType \<Rightarrow> string \<Rightarrow> Column" where
  "may_reference n t table = \<lparr>c_name = n, c_type = t, c_not_null = False, c_default = None,
     c_references = Some table\<rparr>"

lemmas column_defs = required_def optional_def defaulted_def references_def may_reference_def

subsection \<open>The tables\<close>

definition users_table :: Table where
  "users_table = \<lparr>t_name = ''users'',
     t_columns =
       [required ''id'' (SVarchar 128),
        required ''email'' (SVarchar 320),
        required ''display_name'' (SVarchar 255),
        optional ''department'' (SVarchar 255),
        optional ''cost_center'' (SVarchar 64),
        defaulted ''groups'' STextArray ''{}'',
        defaulted ''proxy_access_enabled'' SBoolean ''FALSE'',
        defaulted ''is_active'' SBoolean ''TRUE'',
        defaulted ''created_at'' STimestamptz ''NOW()'',
        defaulted ''updated_at'' STimestamptz ''NOW()''],
     t_primary_key = ''id'', t_unique = [],
     t_checks = []\<rparr>"

definition identity_user_mappings_table :: Table where
  "identity_user_mappings_table = \<lparr>t_name = ''identity_user_mappings'',
     t_columns =
       [required ''username'' (SVarchar 255),
        references ''user_id'' (SVarchar 128) ''users'',
        required ''identity_provider'' (SVarchar 64),
        defaulted ''created_at'' STimestamptz ''NOW()''],
     t_primary_key = ''username'', t_unique = [],
     t_checks = []\<rparr>"

definition admin_identities_table :: Table where
  "admin_identities_table = \<lparr>t_name = ''admin_identities'',
     t_columns =
       [required ''principal_id'' (SVarchar 255),
        required ''role'' (SVarchar 32),
        defaulted ''is_active'' SBoolean ''TRUE'',
        defaulted ''created_at'' STimestamptz ''NOW()'',
        defaulted ''updated_at'' STimestamptz ''NOW()''],
     t_primary_key = ''principal_id'', t_unique = [],
     t_checks = []\<rparr>"

definition virtual_keys_table :: Table where
  "virtual_keys_table = \<lparr>t_name = ''virtual_keys'',
     t_columns =
       [required ''id'' SUuid,
        required ''key_hash'' (SVarchar 64),
        required ''encrypted_key_blob'' SBytea,
        required ''key_prefix'' (SVarchar 16),
        references ''user_id'' (SVarchar 128) ''users'',
        required ''status'' (SVarchar 16),
        defaulted ''created_at'' STimestamptz ''NOW()'',
        optional ''expires_at'' STimestamptz,
        optional ''revoked_at'' STimestamptz,
        optional ''last_used_at'' STimestamptz],
     t_primary_key = ''id'', t_unique = [[''key_hash'']],
     t_checks = []\<rparr>"

definition teams_table :: Table where
  "teams_table = \<lparr>t_name = ''teams'',
     t_columns =
       [required ''id'' SUuid,
        required ''name'' (SVarchar 255),
        optional ''description'' SText,
        defaulted ''status'' (SVarchar 16) ''active'',
        optional ''cost_center'' (SVarchar 64),
        defaulted ''created_at'' STimestamptz ''NOW()'',
        defaulted ''updated_at'' STimestamptz ''NOW()''],
     t_primary_key = ''id'', t_unique = [],
     t_checks = []\<rparr>"

definition team_memberships_table :: Table where
  "team_memberships_table = \<lparr>t_name = ''team_memberships'',
     t_columns =
       [required ''id'' SUuid,
        references ''team_id'' SUuid ''teams'',
        references ''user_id'' (SVarchar 128) ''users'',
        defaulted ''is_primary'' SBoolean ''FALSE'',
        defaulted ''created_at'' STimestamptz ''NOW()''],
     t_primary_key = ''id'', t_unique = [[''team_id'', ''user_id'']],
     t_checks = []\<rparr>"

definition policies_table :: Table where
  "policies_table = \<lparr>t_name = ''policies'',
     t_columns =
       [required ''id'' SUuid,
        required ''scope_type'' (SVarchar 16),
        required ''scope_id'' (SVarchar 128),
        required ''rule_type'' (SVarchar 64),
        required ''rule_value'' SJsonb,
        defaulted ''is_active'' SBoolean ''TRUE'',
        defaulted ''created_at'' STimestamptz ''NOW()'',
        defaulted ''updated_at'' STimestamptz ''NOW()''],
     t_primary_key = ''id'', t_unique = [],
     t_checks = []\<rparr>"

definition budget_policies_table :: Table where
  "budget_policies_table = \<lparr>t_name = ''budget_policies'',
     t_columns =
       [required ''id'' SUuid,
        required ''scope_type'' (SVarchar 16),
        required ''scope_id'' (SVarchar 128),
        required ''period_type'' (SVarchar 16),
        required ''metric_type'' (SVarchar 16),
        required ''limit_value'' SBigint,
        required ''soft_limit_percent'' SInteger,
        required ''hard_limit_percent'' SInteger,
        defaulted ''is_active'' SBoolean ''TRUE'',
        defaulted ''created_at'' STimestamptz ''NOW()'',
        defaulted ''updated_at'' STimestamptz ''NOW()''],
     t_primary_key = ''id'', t_unique = [],
     t_checks = [CheckLe ''soft_limit_percent'' ''hard_limit_percent'', CheckMax ''hard_limit_percent'' 100]\<rparr>"

definition model_alias_rules_table :: Table where
  "model_alias_rules_table = \<lparr>t_name = ''model_alias_rules'',
     t_columns =
       [required ''id'' SUuid,
        required ''pattern'' (SVarchar 255),
        required ''logical_model'' (SVarchar 64),
        required ''priority'' SInteger,
        defaulted ''is_active'' SBoolean ''TRUE'',
        defaulted ''created_at'' STimestamptz ''NOW()'',
        defaulted ''updated_at'' STimestamptz ''NOW()''],
     t_primary_key = ''id'', t_unique = [],
     t_checks = []\<rparr>"

definition model_routes_table :: Table where
  "model_routes_table = \<lparr>t_name = ''model_routes'',
     t_columns =
       [required ''id'' SUuid,
        required ''logical_model'' (SVarchar 64),
        required ''provider'' (SVarchar 64),
        required ''bedrock_api_route'' (SVarchar 32),
        optional ''bedrock_model_id'' (SVarchar 255),
        optional ''inference_profile_id'' (SVarchar 255),
        defaulted ''supports_native_structured_output'' SBoolean ''FALSE'',
        defaulted ''supports_reasoning'' SBoolean ''FALSE'',
        defaulted ''supports_prompt_cache_ttl'' SBoolean ''FALSE'',
        defaulted ''supports_disable_parallel_tool_use'' SBoolean ''FALSE'',
        required ''priority'' SInteger,
        defaulted ''is_active'' SBoolean ''TRUE'',
        defaulted ''created_at'' STimestamptz ''NOW()'',
        defaulted ''updated_at'' STimestamptz ''NOW()''],
     t_primary_key = ''id'', t_unique = [[''logical_model'', ''provider'', ''priority'']],
     t_checks = []\<rparr>"

definition model_pricing_catalog_table :: Table where
  "model_pricing_catalog_table = \<lparr>t_name = ''model_pricing_catalog'',
     t_columns =
       [required ''id'' SUuid,
        required ''provider'' (SVarchar 64),
        required ''model_id'' (SVarchar 255),
        required ''input_cost_per_million'' (SNumeric 18 6),
        required ''output_cost_per_million'' (SNumeric 18 6),
        defaulted ''cache_write_input_cost_per_million'' (SNumeric 18 6) ''0'',
        defaulted ''cache_read_input_cost_per_million'' (SNumeric 18 6) ''0'',
        defaulted ''currency'' (SVarchar 8) ''USD'',
        required ''effective_from'' SDate,
        optional ''effective_to'' SDate,
        defaulted ''created_at'' STimestamptz ''NOW()''],
     t_primary_key = ''id'', t_unique = [],
     t_checks = []\<rparr>"

definition usage_events_table :: Table where
  "usage_events_table = \<lparr>t_name = ''usage_events'',
     t_columns =
       [required ''id'' SUuid,
        required ''request_id'' SUuid,
        references ''user_id'' (SVarchar 128) ''users'',
        required ''model'' (SVarchar 255),
        defaulted ''input_tokens'' SBigint ''0'',
        defaulted ''output_tokens'' SBigint ''0'',
        defaulted ''total_tokens'' SBigint ''0'',
        defaulted ''cost_usd'' (SNumeric 18 6) ''0'',
        may_reference ''pricing_catalog_id'' SUuid ''model_pricing_catalog'',
        defaulted ''cache_write_input_tokens'' SBigint ''0'',
        defaulted ''cache_read_input_tokens'' SBigint ''0'',
        defaulted ''cache_details'' SJsonb ''{}'',
        defaulted ''estimated_cache_write_cost_usd'' (SNumeric 18 6) ''0'',
        defaulted ''estimated_cache_read_cost_usd'' (SNumeric 18 6) ''0'',
        required ''decision'' (SVarchar 32),
        optional ''denial_reason'' SText,
        required ''latency_ms'' SInteger,
        defaulted ''created_at'' STimestamptz ''NOW()''],
     t_primary_key = ''id'', t_unique = [],
     t_checks = []\<rparr>"

definition audit_events_table :: Table where
  "audit_events_table = \<lparr>t_name = ''audit_events'',
     t_columns =
       [required ''id'' SUuid,
        required ''request_id'' SUuid,
        optional ''actor_user_id'' (SVarchar 128),
        required ''event_type'' (SVarchar 64),
        required ''decision'' (SVarchar 32),
        defaulted ''metadata'' SJsonb ''{}'',
        defaulted ''created_at'' STimestamptz ''NOW()''],
     t_primary_key = ''id'', t_unique = [],
     t_checks = []\<rparr>"

definition schema_tables :: "Table list" where
  "schema_tables = [users_table, identity_user_mappings_table, admin_identities_table,
     virtual_keys_table, teams_table, team_memberships_table, policies_table, budget_policies_table,
     model_alias_rules_table, model_routes_table, model_pricing_catalog_table, usage_events_table,
     audit_events_table]"

text \<open>Index, table and columns.\<close>

definition schema_indexes :: "(string \<times> string \<times> string list) list" where
  "schema_indexes = [(''idx_virtual_keys_key_hash'', ''virtual_keys'', [''key_hash'']),
     (''idx_virtual_keys_user_status'', ''virtual_keys'', [''user_id'', ''status''])]"

lemmas table_defs = users_table_def identity_user_mappings_table_def admin_identities_table_def
  virtual_keys_table_def teams_table_def team_memberships_table_def policies_table_def
  budget_policies_table_def model_alias_rules_table_def model_routes_table_def
  model_pricing_catalog_table_def usage_events_table_def audit_events_table_def

subsection \<open>The migration\<close>

text \<open>\<open>_split_sql_statements\<close>, and the statements a migration executes one after the other.\<close>

definition split_sql_statements :: "string \<Rightarrow> string list" where
  "split_sql_statements sql = map py_strip (filter (\<lambda>s. py_strip s \<noteq> []) (py_split (CHR '';'') sql))"

datatype Statement =
    CreateTable Table
  | CreateIndex "string \<times> string \<times> string list"
  | DropTableIfExistsCascade string

record Catalog =
  ct_tables :: "Table list"
  ct_indexes :: "(string \<times> string \<times> string list) list"

text \<open>
  Creating a table needs a new name, columns for its keys, and each referenced table with that
  key; an index needs its table's columns. Dropping with \<open>CASCADE\<close> takes the table's indexes and
  the references to it along.
\<close>

definition column_names :: "Table \<Rightarrow> string set" where
  "column_names t = c_name ` set (t_columns t)"

definition drop_references :: "string \<Rightarrow> Table \<Rightarrow> Table" where
  "drop_references n t = t\<lparr>t_columns := map (\<lambda>c. if c_references c = Some n then c\<lparr>c_references := None\<rparr> else c)
     (t_columns t)\<rparr>"

fun execute :: "Statement \<Rightarrow> Catalog \<Rightarrow> Catalog option" where
  "execute (CreateTable t) c =
     (if t_name t \<notin> t_name ` set (ct_tables c) \<and> distinct (map c_name (t_columns t)) \<and>
         t_primary_key t \<in> column_names t \<and> (\<forall>u \<in> set (t_unique t). set u \<subseteq> column_names t) \<and>
         (\<forall>col \<in> set (t_columns t). case c_references col of None \<Rightarrow> True
            | Some r \<Rightarrow> \<exists>t' \<in> set (ct_tables c). t_name t' = r \<and> t_primary_key t' = ''id'')
      then Some (c\<lparr>ct_tables := ct_tables c @ [t]\<rparr>) else None)"
| "execute (CreateIndex (n, tab, cols)) c =
     (if n \<notin> fst ` set (ct_indexes c) \<and>
         (\<exists>t \<in> set (ct_tables c). t_name t = tab \<and> set cols \<subseteq> column_names t)
      then Some (c\<lparr>ct_indexes := ct_indexes c @ [(n, tab, cols)]\<rparr>) else None)"
| "execute (DropTableIfExistsCascade n) c = Some
     \<lparr>ct_tables = map (drop_references n) (filter (\<lambda>t. t_name t \<noteq> n) (ct_tables c)),
      ct_indexes = filter (\<lambda>(i, tab, cols). tab \<noteq> n) (ct_indexes c)\<rparr>"

fun execute_all :: "Statement list \<Rightarrow> Catalog \<Rightarrow> Catalog option" where
  "execute_all [] c = Some c"
| "execute_all (s # ss) c = (case execute s c of None \<Rightarrow> None | Some c' \<Rightarrow> execute_all ss c')"

definition upgrade :: "Statement list" where
  "upgrade = map CreateTable schema_tables @ map CreateIndex schema_indexes"

definition downgrade :: "Statement list" where
  "downgrade = map DropTableIfExistsCascade
     [''audit_events'', ''usage_events'', ''model_routes'', ''model_alias_rules'', ''budget_policies'',
      ''policies'', ''team_memberships'', ''teams'', ''virtual_keys'', ''admin_identities'',
      ''identity_user_mappings'', ''users'', ''model_pricing_catalog'']"

text \<open>Statements that end in a semicolon and hold none are split apart again, blank ones dropped.\<close>

lemma split_sql_statements_concat:
  assumes "\<forall>s \<in> set ss. CHR '';'' \<notin> set s"
  shows "split_sql_statements (concat (map (\<lambda>s. s @ '';'') ss)) =
    map py_strip (filter (\<lambda>s. py_strip s \<noteq> []) ss)"
  using assms
proof (induction ss)
  case Nil
  have "py_strip [] = []" by (simp add: py_strip_empty)
  then show ?case by (simp add: split_sql_statements_def)
next
  case (Cons s ss)
  then show ?case
    using py_split_append [of "CHR '';''" s "concat (map (\<lambda>s. s @ '';'') ss)"]
    by (simp add: split_sql_statements_def)
qed

subsection \<open>The migration can be applied and undone\<close>

text \<open>
  The initial migration can be applied and undone: on an empty database every
  statement of the upgrade finds the tables and columns it refers to, all tables and indexes
  exist afterwards, and the downgrade removes every one of them.
\<close>

lemma migration_roundtrip:
  "execute_all upgrade \<lparr>ct_tables = [], ct_indexes = []\<rparr> =
     Some \<lparr>ct_tables = schema_tables, ct_indexes = schema_indexes\<rparr> \<and>
   execute_all (upgrade @ downgrade) \<lparr>ct_tables = [], ct_indexes = []\<rparr> =
     Some \<lparr>ct_tables = [], ct_indexes = []\<rparr>"
  by code_simp


subsection \<open>Inserting a row\<close>

text \<open>
  The values the code binds. A column takes a value of its type: text of at most its length, a
  UUID in any of the spellings Postgres reads, stored in its canonical one. The statements bind no
  number, date or JSON value, which no column takes here.
\<close>

datatype Cell = CNull | CText string | CBytes "byte list" | CTime datetime | CBool bool | CTexts "string list" | CInt int

type_synonym Row = "(string \<times> Cell) list"

type_synonym Instance = "string \<Rightarrow> Row list"

definition cell :: "Row \<Rightarrow> string \<Rightarrow> Cell" where
  "cell row n = (case map_of row n of None \<Rightarrow> CNull | Some v \<Rightarrow> v)"

definition nullable :: "('v \<Rightarrow> Cell) \<Rightarrow> 'v option \<Rightarrow> Cell" where
  "nullable f v = (case v of None \<Rightarrow> CNull | Some x \<Rightarrow> f x)"

fun type_in :: "SqlType \<Rightarrow> Cell \<Rightarrow> Cell option" where
  "type_in SUuid (CText s) = map_option CText (uuid_in s)"
| "type_in (SVarchar n) (CText s) = (if varchar_ok n s then Some (CText s) else None)"
| "type_in SText (CText s) = Some (CText s)"
| "type_in STextArray (CTexts l) = Some (CTexts l)"
| "type_in SBoolean (CBool b) = Some (CBool b)"
| "type_in STimestamptz (CTime t) = Some (CTime t)"
| "type_in SBytea (CBytes b) = Some (CBytes b)"
| "type_in t v = None"

definition column_in :: "Column \<Rightarrow> Cell \<Rightarrow> Cell option" where
  "column_in c v = (if v = CNull then if c_not_null c then None else Some CNull else type_in (c_type c) v)"

fun row_in :: "Column list \<Rightarrow> Row \<Rightarrow> Row option" where
  "row_in [] [] = Some []"
| "row_in (c # cs) ((n, v) # row) =
     (if n \<noteq> c_name c then None
      else case column_in c v of None \<Rightarrow> None
        | Some v' \<Rightarrow> map_option ((#) (n, v')) (row_in cs row))"
| "row_in cs row = None"

definition conflicts :: "string list \<Rightarrow> Row \<Rightarrow> Row \<Rightarrow> bool" where
  "conflicts key r r' \<longleftrightarrow> (\<forall>n \<in> set key. cell r n \<noteq> CNull \<and> cell r n = cell r' n)"

fun check_ok :: "Row \<Rightarrow> Check \<Rightarrow> bool" where
  "check_ok row (CheckLe a b) = (case (cell row a, cell row b) of (CInt x, CInt y) \<Rightarrow> x \<le> y | _ \<Rightarrow> True)"
| "check_ok row (CheckMax a m) = (case cell row a of CInt x \<Rightarrow> x \<le> m | _ \<Rightarrow> True)"

definition insert_row :: "Table \<Rightarrow> Row \<Rightarrow> Instance \<Rightarrow> Instance option" where
  "insert_row t row db =
     (case row_in (t_columns t) row of
        None \<Rightarrow> None
      | Some r \<Rightarrow>
          if (\<forall>key \<in> set ([t_primary_key t] # t_unique t). \<forall>r' \<in> set (db (t_name t)). \<not> conflicts key r r') \<and>
             (\<forall>c \<in> set (t_columns t). case c_references c of None \<Rightarrow> True
                | Some table \<Rightarrow> cell r (c_name c) = CNull \<or>
                    (\<exists>r' \<in> set (db table). cell r' ''id'' = cell r (c_name c))) \<and>
             (\<forall>k \<in> set (t_checks t). check_ok r k)
          then Some (db(t_name t := db (t_name t) @ [r]))
          else None)"

subsection \<open>The key ledger is this insert\<close>

definition user_cells :: "UserRow \<Rightarrow> Row" where
  "user_cells u =
     [(''id'', CText (us_id u)), (''email'', CText (us_email u)), (''display_name'', CText (us_display_name u)),
      (''department'', nullable CText (us_department u)), (''cost_center'', nullable CText (us_cost_center u)),
      (''groups'', nullable CTexts (us_groups u)),
      (''proxy_access_enabled'', CBool (us_proxy_access_enabled u)), (''is_active'', CBool (us_is_active u)),
      (''created_at'', CTime (us_created_at u)), (''updated_at'', CTime (us_updated_at u))]"

definition key_cells :: "VirtualKeyRow \<Rightarrow> Row" where
  "key_cells k =
     [(''id'', CText (kr_id k)), (''key_hash'', CText (kr_key_hash k)),
      (''encrypted_key_blob'', CBytes (kr_encrypted_key_blob k)), (''key_prefix'', CText (kr_key_prefix k)),
      (''user_id'', CText (kr_user_id k)), (''status'', CText (kr_status k)),
      (''created_at'', CTime (kr_created_at k)), (''expires_at'', nullable CTime (kr_expires_at k)),
      (''revoked_at'', nullable CTime (kr_revoked_at k)), (''last_used_at'', nullable CTime (kr_last_used_at k))]"

definition instance_of :: "Database \<Rightarrow> Instance" where
  "instance_of db = (\<lambda>_. [])(''users'' := map user_cells (db_users db),
     ''virtual_keys'' := map key_cells (db_virtual_keys db))"

lemma column_in_nullable_time: "column_in (optional n STimestamptz) (nullable CTime v) = Some (nullable CTime v)"
  by (cases v) (simp_all add: column_in_def optional_def nullable_def)

lemma row_in_Some:
  "row_in cs row = Some r \<Longrightarrow> (c, (n, v)) \<in> set (zip cs row) \<Longrightarrow> column_in c v \<noteq> None"
  by (induction cs row arbitrary: r rule: row_in.induct) (auto split: if_splits option.splits)

lemma column_in_text: "column_in (required n t) (CText s) = type_in t (CText s)"
  "column_in (references n t table) (CText s) = type_in t (CText s)"
  by (simp_all add: column_in_def column_defs)

lemma column_in_other: "column_in (required n SBytea) (CBytes b) = Some (CBytes b)"
  "column_in (defaulted n STimestamptz d) (CTime t) = Some (CTime t)"
  by (simp_all add: column_in_def column_defs)

lemma c_name_simps: "c_name (required n t) = n" "c_name (optional n t) = n" "c_name (defaulted n t d) = n"
  "c_name (references n t table) = n"
  by (simp_all add: column_defs)

definition key_row_ok :: "VirtualKeyRow \<Rightarrow> bool" where
  "key_row_ok k \<longleftrightarrow> varchar_ok 64 (kr_key_hash k) \<and> varchar_ok 16 (kr_key_prefix k) \<and>
     varchar_ok 128 (kr_user_id k) \<and> varchar_ok 16 (kr_status k)"

lemma key_row_in_ok:
  assumes "uuid_in (kr_id k) = Some u" and "key_row_ok k"
  shows "row_in (t_columns virtual_keys_table) (key_cells k) = Some (key_cells (k\<lparr>kr_id := u\<rparr>))"
  using assms
  by (simp add: virtual_keys_table_def key_cells_def key_row_ok_def c_name_simps column_in_nullable_time
      column_in_text column_in_other)

lemma key_row_in_bad:
  assumes "uuid_in (kr_id k) = None \<or> \<not> key_row_ok k"
  shows "row_in (t_columns virtual_keys_table) (key_cells k) = None"
proof (rule ccontr)
  assume "\<not> ?thesis"
  then obtain r where r: "row_in (t_columns virtual_keys_table) (key_cells k) = Some r" by blast
  have z: "(required ''id'' SUuid, (''id'', CText (kr_id k))) \<in> set (zip (t_columns virtual_keys_table) (key_cells k))"
    "(required ''key_hash'' (SVarchar 64), (''key_hash'', CText (kr_key_hash k))) \<in> set (zip (t_columns virtual_keys_table) (key_cells k))"
    "(required ''key_prefix'' (SVarchar 16), (''key_prefix'', CText (kr_key_prefix k))) \<in> set (zip (t_columns virtual_keys_table) (key_cells k))"
    "(references ''user_id'' (SVarchar 128) ''users'', (''user_id'', CText (kr_user_id k))) \<in> set (zip (t_columns virtual_keys_table) (key_cells k))"
    "(required ''status'' (SVarchar 16), (''status'', CText (kr_status k))) \<in> set (zip (t_columns virtual_keys_table) (key_cells k))"
    by (simp_all add: virtual_keys_table_def key_cells_def)
  from z [THEN row_in_Some [OF r]] assms show False
    by (simp add: column_in_text key_row_ok_def split: if_splits)
qed

text \<open>
  Property C33: saving a key in the ledger is the insert of its row on the schema. It succeeds
  exactly when the constraints of \<open>virtual_keys\<close> and its reference to \<open>users\<close> let the row in, and
  the table is then the old one with that row.
\<close>

theorem ledger_save_is_schema_insert:
  "insert_row virtual_keys_table (key_cells (record_to_row (vk_id r) r)) (instance_of db) =
     (case save_virtual_key r db of (Inr saved, db') \<Rightarrow> Some (instance_of db') | (Inl e, db') \<Rightarrow> None)"
proof (cases "\<exists>u. uuid_in (vk_id r) = Some u \<and> key_row_ok (record_to_row u r)")
  case False
  then have "uuid_in (vk_id r) = None \<or> \<not> key_row_ok (record_to_row (vk_id r) r)"
    by (auto simp: key_row_ok_def record_to_row_def)
  then have "row_in (t_columns virtual_keys_table) (key_cells (record_to_row (vk_id r) r)) = None"
    by (intro key_row_in_bad) (simp add: record_to_row_def)
  moreover have "\<exists>e. save_virtual_key r db = (Inl e, db)"
    using False by (auto simp: save_virtual_key_defs Let_def key_row_ok_def split: option.split)
  ultimately show ?thesis by (auto simp: insert_row_def)
next
  case True
  then obtain u where u: "uuid_in (vk_id r) = Some u" "key_row_ok (record_to_row u r)" by blast
  let ?row = "record_to_row u r"
  have row_in: "row_in (t_columns virtual_keys_table) (key_cells (record_to_row (vk_id r) r)) = Some (key_cells ?row)"
    using key_row_in_ok [of "record_to_row (vk_id r) r" u] u by (simp add: record_to_row_def key_row_ok_def)
  have keys: "instance_of db ''virtual_keys'' = map key_cells (db_virtual_keys db)"
    "instance_of db ''users'' = map user_cells (db_users db)" by (simp_all add: instance_of_def)
  have id: "cell (key_cells k) ''id'' = CText (kr_id k)" "cell (key_cells k) ''key_hash'' = CText (kr_key_hash k)"
    "cell (key_cells k) ''user_id'' = CText (kr_user_id k)" for k
    by (simp_all add: cell_def key_cells_def)
  have uid: "cell (user_cells x) ''id'' = CText (us_id x)" for x by (simp add: cell_def user_cells_def)
  have tab: "t_name virtual_keys_table = ''virtual_keys''" "t_primary_key virtual_keys_table = ''id''"
    "t_unique virtual_keys_table = [[''key_hash'']]" "t_checks virtual_keys_table = []"
    by (simp_all add: virtual_keys_table_def)
  have refs: "(\<forall>c \<in> set (t_columns virtual_keys_table). case c_references c of None \<Rightarrow> True
      | Some table \<Rightarrow> cell (key_cells ?row) (c_name c) = CNull \<or>
          (\<exists>r' \<in> set (instance_of db table). cell r' ''id'' = cell (key_cells ?row) (c_name c))) \<longleftrightarrow>
      kr_user_id ?row \<in> us_id ` set (db_users db)"
    by (simp add: virtual_keys_table_def column_defs id uid keys image_iff) (metis)
  have "insert_row virtual_keys_table (key_cells (record_to_row (vk_id r) r)) (instance_of db) =
      (if u \<notin> kr_id ` set (db_virtual_keys db) \<and> kr_key_hash ?row \<notin> kr_key_hash ` set (db_virtual_keys db) \<and>
          kr_user_id ?row \<in> us_id ` set (db_users db)
       then Some ((instance_of db)(''virtual_keys'' := map key_cells (db_virtual_keys db) @ [key_cells ?row]))
       else None)"
    unfolding insert_row_def row_in option.case tab refs
    by (auto simp: conflicts_def id uid keys record_to_row_def)
  moreover have "(instance_of db)(''virtual_keys'' := map key_cells (db_virtual_keys db) @ [key_cells ?row]) =
      instance_of (db\<lparr>db_virtual_keys := db_virtual_keys db @ [?row]\<rparr>)"
    by (simp add: instance_of_def fun_eq_iff)
  moreover have "\<not> (\<not> varchar_ok 64 (kr_key_hash ?row) \<or> \<not> varchar_ok 16 (kr_key_prefix ?row) \<or>
      \<not> varchar_ok 128 (kr_user_id ?row) \<or> \<not> varchar_ok 16 (kr_status ?row))"
    using u(2) by (simp add: key_row_ok_def)
  ultimately show ?thesis using u(1) by (simp add: save_virtual_key_defs Let_def)
qed

end
