(* ===== verification/AdminWorld.thy ===== *)
theory AdminWorld
  imports AdminApi Auth Schema
begin

section \<open>Administration of the running service\<close>

text \<open>
  The admin endpoints on the state the token service and the proxy share: roles are looked up in
  the \<open>admin_identities\<close> table, and a key's life cycle acts on the ledger that authentication
  reads and on the cache the token service serves from. \<open>VirtualKeyAdminRepository\<close> has no
  implementation in the repository: its two operations are arguments, with what the service needs
  of them as named conditions. The properties follow a key through revocation, also when a token
  request is under way.
\<close>

definition admin_access :: "World AdminAccess" where
  "admin_access = \<lparr>ac_get_admin_role = Some (\<lambda>p. on_db (get_admin_role p)),
     ac_principal_header = ''X-Admin-Principal''\<rparr>"

subsection \<open>The endpoints (\<open>api/app.py\<close>)\<close>

datatype AdminCall =
    CreateUser UserProvisioningRequest
  | CreateBudgetPolicy string BudgetPolicyCreateRequest
  | RevokeKey string
  | DisableKey string
  | RotateKey string
  | UpdateModelRoute string ModelRouteUpdateRequest
  | UpdatePricing string PricingCatalogUpdateRequest
  | ListUsage UsageFilter
  | ListAuditEvents UsageFilter "string option"

datatype AdminReply =
    Payload "(string, json) pydict"
  | KeyPayload "(string, string) pydict"
  | BudgetPolicy BudgetPolicyRecord
  | ModelRoute ModelRouteRecord
  | ModelPricing ModelPricingRecord
  | UsageItems "UsageEventRecord list"
  | AuditItems "AuditEventRecord list"

record 's AdminServices =
  as_user_store :: "'s user_store option"
  as_budget_policies :: "'s BudgetPolicyAdminService option"
  as_virtual_keys :: "'s VirtualKeyLifecycleService option"
  as_model_mappings :: "'s ModelMappingAdminService option"
  as_usage_queries :: "'s UsageQueryService option"

definition mapM_result :: "('a \<Rightarrow> 'b) \<Rightarrow> ('s, 'a) op \<Rightarrow> ('s, 'b) op" where
  "mapM_result f m = bindM m (\<lambda>x. returnM (f x))"

fun admin_handle ::
    "'s AdminAccess \<Rightarrow> 's AdminServices \<Rightarrow> datetime \<times> datetime \<times> datetime \<Rightarrow> headers \<Rightarrow> AdminCall \<Rightarrow>
     ('s, AdminReply) op" where
  "admin_handle access svcs stamps headers (CreateUser p) =
     mapM_result Payload (create_user access (as_user_store svcs) headers stamps p)"
| "admin_handle access svcs stamps headers (CreateBudgetPolicy u p) =
     mapM_result BudgetPolicy (create_user_budget_policy access (as_budget_policies svcs) headers u p)"
| "admin_handle access svcs stamps headers (RevokeKey k) =
     mapM_result KeyPayload (revoke_virtual_key access (as_virtual_keys svcs) headers k)"
| "admin_handle access svcs stamps headers (DisableKey k) =
     mapM_result KeyPayload (disable_virtual_key access (as_virtual_keys svcs) headers k)"
| "admin_handle access svcs stamps headers (RotateKey k) =
     mapM_result KeyPayload (rotate_virtual_key access (as_virtual_keys svcs) headers k)"
| "admin_handle access svcs stamps headers (UpdateModelRoute r p) =
     mapM_result ModelRoute (update_model_route access (as_model_mappings svcs) headers r p)"
| "admin_handle access svcs stamps headers (UpdatePricing r p) =
     mapM_result ModelPricing (update_pricing_catalog access (as_model_mappings svcs) headers r p)"
| "admin_handle access svcs stamps headers (ListUsage f) =
     mapM_result UsageItems (list_usage access (as_usage_queries svcs) headers f)"
| "admin_handle access svcs stamps headers (ListAuditEvents f e) =
     mapM_result AuditItems (list_audit_events access (as_usage_queries svcs) headers f e)"

fun is_read :: "AdminCall \<Rightarrow> bool" where
  "is_read (ListUsage f) = True"
| "is_read (ListAuditEvents f e) = True"
| "is_read c = False"

text \<open>An active admin identity of the caller, with its role.\<close>

definition active_admin :: "headers \<Rightarrow> World \<Rightarrow> string \<Rightarrow> bool" where
  "active_admin headers w r \<longleftrightarrow> (\<exists>p a. headers ''X-Admin-Principal'' = Some p \<and> py_strip p \<noteq> [] \<and>
     a \<in> set (db_admin_identities (w_db w)) \<and> ai_principal_id a = py_strip p \<and> ai_is_active a \<and>
     ai_role a = r)"

lemma admin_access_reads: "reads_roles admin_access"
  unfolding reads_roles_def admin_access_def AdminAccess.simps
proof (intro allI impI)
  fix lookup :: "string \<Rightarrow> (World, string option) op" and p and w :: World
  assume "Some (\<lambda>p. on_db (get_admin_role p)) = Some lookup"
  then have l: "lookup = (\<lambda>p. on_db (get_admin_role p))" by simp
  have "\<exists>r. get_admin_role p (w_db w) = (Inr r, w_db w)"
    by (auto simp: get_admin_role_def get_admin_identity_def split: option.split)
  then show "\<exists>r. lookup p w = (Inr r, w)" by (auto simp: l on_db_def)
qed

lemma has_role_active_admin:
  assumes "has_role admin_access headers w r"
  shows "active_admin headers w r"
proof -
  obtain p where p: "headers ''X-Admin-Principal'' = Some p" "py_strip p \<noteq> []"
    and r: "fst (on_db (get_admin_role (py_strip p)) w) = Inr (Some r)"
    using assms by (auto simp: has_role_def admin_access_def)
  obtain db where "get_admin_role (py_strip p) (w_db w) = (Inr (Some r), db)"
    using r by (cases "get_admin_role (py_strip p) (w_db w)") (auto simp: on_db_def)
  from get_admin_role_active [OF this] p show ?thesis unfolding active_admin_def by blast
qed

lemma guard_eq:
  assumes "\<not> (\<exists>r \<in> set roles. has_role admin_access headers w r)"
  shows "require_admin_role admin_access headers roles w = (Inl admin_denied, w)"
  using require_admin_role_spec [OF admin_access_reads, of headers roles w] assms by simp

lemma refused_write:
  assumes "\<not> has_role admin_access headers w ADMIN_ROLE_OPERATOR" and "\<not> is_read call"
  shows "\<exists>e. admin_handle admin_access svcs stamps headers call w = (Inl e, w)"
proof -
  have "require_admin_write admin_access headers w = (Inl admin_denied, w)"
    unfolding require_admin_write_def by (rule guard_eq) (simp add: assms)
  then show ?thesis using assms(2)
    by (cases call) (auto simp: mapM_result_def create_user_def create_user_budget_policy_def
        revoke_virtual_key_def disable_virtual_key_def rotate_virtual_key_def update_model_route_def
        update_pricing_catalog_def validate_percent_thresholds_def)
qed

lemma refused_read:
  assumes "\<not> has_role admin_access headers w ADMIN_ROLE_OPERATOR"
    and "\<not> has_role admin_access headers w ADMIN_ROLE_AUDITOR" and "is_read call"
  shows "\<exists>e. admin_handle admin_access svcs stamps headers call w = (Inl e, w)"
proof -
  have "require_admin_read admin_access headers w = (Inl admin_denied, w)"
    unfolding require_admin_read_def by (rule guard_eq) (simp add: assms allowed_roles_for_read_def)
  then show ?thesis using assms(3)
    by (cases call) (auto simp: mapM_result_def list_usage_def list_audit_events_def)
qed

subsection \<open>A key's life cycle\<close>

text \<open>
  The conditions on the repository: a key that exists is found; saving a record with the
  identifier, hash and user of an existing key replaces that key and nothing else; saving one with
  a new identifier and hash for a user who exists adds it.
\<close>

definition finds_keys :: "(string \<Rightarrow> (World, VirtualKeyRecord option) op) \<Rightarrow> bool" where
  "finds_keys get \<longleftrightarrow> (\<forall>w k. world_ok w \<longrightarrow> k \<in> world_keys w \<longrightarrow> get (vk_id k) w = (Inr (Some k), w))"

definition replaces_keys :: "(VirtualKeyRecord \<Rightarrow> (World, unit) op) \<Rightarrow> bool" where
  "replaces_keys save \<longleftrightarrow> (\<forall>w k r. world_ok w \<longrightarrow> k \<in> world_keys w \<longrightarrow> vk_id r = vk_id k \<longrightarrow>
     vk_key_hash r = vk_key_hash k \<longrightarrow> vk_user_id r = vk_user_id k \<longrightarrow>
     (\<exists>w'. save r w = (Inr (), w') \<and> world_ok w' \<and> world_keys w' = insert r (world_keys w - {k}) \<and>
        w_cache w' = w_cache w \<and> db_users (w_db w') = db_users (w_db w)))"

definition adds_keys :: "(VirtualKeyRecord \<Rightarrow> (World, unit) op) \<Rightarrow> bool" where
  "adds_keys save \<longleftrightarrow> (\<forall>w r. world_ok w \<longrightarrow> vk_id r \<notin> vk_id ` world_keys w \<longrightarrow>
     vk_key_hash r \<notin> vk_key_hash ` world_keys w \<longrightarrow> vk_user_id r \<in> us_id ` set (db_users (w_db w)) \<longrightarrow>
     (\<exists>w'. save r w = (Inr (), w') \<and> world_ok w' \<and> world_keys w' = insert r (world_keys w) \<and>
        w_cache w' = w_cache w \<and> db_users (w_db w') = db_users (w_db w)))"

text \<open>
  The service, its dispatcher emptying the token service's cache; the proxy keeps no cache of its
  own, so invalidating it is nothing.
\<close>

definition key_admin ::
    "(string \<Rightarrow> (World, VirtualKeyRecord option) op) \<Rightarrow> (VirtualKeyRecord \<Rightarrow> (World, unit) op) \<Rightarrow>
     datetime \<Rightarrow> string \<Rightarrow> string \<Rightarrow> World VirtualKeyLifecycleService" where
  "key_admin get save now new_key new_id =
     \<lparr>vl_get_key = get, vl_save_key = save, vl_encrypt = simple_encrypt,
      vl_invalidate_token_service_cache = world_invalidate,
      vl_invalidate_proxy_auth_cache = (\<lambda>_. returnM ()), vl_clock = returnM now,
      vl_key_generator = returnM new_key, vl_key_id_generator = returnM new_id\<rparr>"

lemma world_invalidate_run: "\<exists>c. world_invalidate u w = (Inr (), w\<lparr>w_cache := c\<rparr>)"
  by (auto simp: world_invalidate_def on_cache_def cache_invalidate_user_def dynamo_delete_run)

text \<open>\<open>VirtualKeyAdminRepository\<close> as an interface, and the life cycle on it.\<close>

lemma world_key_user:
  assumes "world_ok w" and "k \<in> world_keys w"
  shows "vk_user_id k \<in> us_id ` set (db_users (w_db w))"
  using assms the_record_fields(2) [OF db_ok_row]
  by (auto simp: world_ok_def world_keys_def db_keys_def db_ok_def list_all_iff)

locale key_admin_repository =
  fixes get :: "string \<Rightarrow> (World, VirtualKeyRecord option) op"
    and save :: "VirtualKeyRecord \<Rightarrow> (World, unit) op"
  assumes finds: "finds_keys get"
    and replaces: "replaces_keys save"
begin

abbreviation service :: "datetime \<Rightarrow> string \<Rightarrow> string \<Rightarrow> World VirtualKeyLifecycleService" where
  "service \<equiv> key_admin get save"

lemma found: "world_ok w \<Longrightarrow> k \<in> world_keys w \<Longrightarrow> get (vk_id k) w = (Inr (Some k), w)"
  using finds unfolding finds_keys_def by blast

text \<open>Changing the status of a key and invalidating.\<close>

lemma status_change:
  assumes "world_ok w" and "k \<in> world_keys w"
    and r: "vk_id r = vk_id k" "vk_key_hash r = vk_key_hash k" "vk_user_id r = vk_user_id k"
  shows "\<exists>w'. bindM (save r) (\<lambda>_. bindM (invalidate (service now nk ni) r) (\<lambda>_. returnM r)) w =
      (Inr r, w') \<and> world_ok w' \<and> world_keys w' = insert r (world_keys w - {k}) \<and>
    db_users (w_db w') = db_users (w_db w) \<and>
    (\<forall>t. world_cache_get (vk_user_id k) t w' = (Inr None, w'))"
proof -
  obtain w1 where w1: "save r w = (Inr (), w1)" "world_ok w1" "world_keys w1 = insert r (world_keys w - {k})"
    "db_users (w_db w1) = db_users (w_db w)"
    using assms replaces unfolding replaces_keys_def by blast
  obtain c where c: "world_invalidate (vk_user_id k) w1 = (Inr (), w1\<lparr>w_cache := c\<rparr>)"
    using world_invalidate_run by blast
  have "\<forall>t. world_cache_get (vk_user_id k) t (w1\<lparr>w_cache := c\<rparr>) = (Inr None, w1\<lparr>w_cache := c\<rparr>)"
    using world_cache.get_invalidate [OF c] by blast
  then show ?thesis using w1 c r
    by (auto simp: invalidate_def key_admin_def world_ok_def world_keys_def)
qed

lemma revoke_run:
  assumes "world_ok w" and "k \<in> world_keys w"
  shows "\<exists>w'. revoke (service now nk ni) (vk_id k) w =
      (Inr (k\<lparr>vk_status := REVOKED, vk_revoked_at := Some now\<rparr>), w') \<and> world_ok w' \<and>
    world_keys w' = insert (k\<lparr>vk_status := REVOKED, vk_revoked_at := Some now\<rparr>) (world_keys w - {k}) \<and>
    db_users (w_db w') = db_users (w_db w) \<and>
    (\<forall>t. world_cache_get (vk_user_id k) t w' = (Inr None, w'))"
  using status_change [OF assms, of "k\<lparr>vk_status := REVOKED, vk_revoked_at := Some now\<rparr>" now nk ni]
    found [OF assms] by (simp add: revoke_def require_key_def key_admin_def Let_def)

lemma disable_run:
  assumes "world_ok w" and "k \<in> world_keys w"
  shows "\<exists>w'. disable (service now nk ni) (vk_id k) w = (Inr (k\<lparr>vk_status := DISABLED\<rparr>), w') \<and>
    world_ok w' \<and> world_keys w' = insert (k\<lparr>vk_status := DISABLED\<rparr>) (world_keys w - {k}) \<and>
    db_users (w_db w') = db_users (w_db w) \<and>
    (\<forall>t. world_cache_get (vk_user_id k) t w' = (Inr None, w'))"
  using status_change [OF assms, of "k\<lparr>vk_status := DISABLED\<rparr>" now nk ni]
    found [OF assms] by (simp add: disable_def require_key_def key_admin_def Let_def)

text \<open>Rotation: the old key disabled, a new one beside it, the cache still empty for the user.\<close>

lemma rotate_run:
  assumes "world_ok w" and "k \<in> world_keys w" and "adds_keys save"
    and fresh: "ni \<notin> vk_id ` world_keys w" "hash_virtual_key nk \<notin> vk_key_hash ` world_keys w"
  shows "\<exists>w' r. rotate (service now nk ni) (vk_id k) w = (Inr (k\<lparr>vk_status := DISABLED\<rparr>, r), w') \<and>
    replacement_key (service now nk ni) k w = (Inr r, w) \<and> world_ok w' \<and>
    world_keys w' = insert r (insert (k\<lparr>vk_status := DISABLED\<rparr>) (world_keys w - {k})) \<and>
    db_users (w_db w') = db_users (w_db w) \<and>
    (\<forall>t. fst (world_cache_get (vk_user_id k) t w') = Inr None)"
proof -
  let ?d = "k\<lparr>vk_status := DISABLED\<rparr>"
  obtain w1 where w1: "disable (service now nk ni) (vk_id k) w = (Inr ?d, w1)" "world_ok w1"
    "world_keys w1 = insert ?d (world_keys w - {k})" "db_users (w_db w1) = db_users (w_db w)"
    "\<forall>t. world_cache_get (vk_user_id k) t w1 = (Inr None, w1)"
    using disable_run [OF assms(1,2)] by blast
  obtain r where r: "\<And>v. replacement_key (service now nk ni) k v = (Inr r, v)"
    "\<And>v. replacement_key (service now nk ni) ?d v = (Inr r, v)"
    "vk_id r = ni" "vk_key_hash r = hash_virtual_key nk" "vk_user_id r = vk_user_id k"
    by (simp add: replacement_key_def key_admin_def)
  have "vk_user_id k \<in> us_id ` set (db_users (w_db w))" by (rule world_key_user [OF assms(1,2)])
  moreover have new: "vk_id r \<notin> vk_id ` world_keys w1" "vk_key_hash r \<notin> vk_key_hash ` world_keys w1"
    using fresh assms(2) unfolding w1(3) r(3,4) by auto
  ultimately obtain w2 where w2: "save r w1 = (Inr (), w2)" "world_ok w2" "world_keys w2 = insert r (world_keys w1)"
    "w_cache w2 = w_cache w1" "db_users (w_db w2) = db_users (w_db w1)"
    using assms(3) [unfolded adds_keys_def, rule_format, of w1 r] w1(2,4) new r(5) by auto
  have "fst (world_cache_get (vk_user_id k) t w2) = Inr None" for t
    using w1(5) w2(4) by (auto simp: world_cache_get_def on_cache_def split: prod.splits)
  then show ?thesis using w1 w2 r(1,2)
    by (simp add: rotate_def) (simp add: key_admin_def)
qed

end

text \<open>A user's only active key is the one found.\<close>

lemma world_active_only:
  assumes "world_ok w" and "k \<in> world_keys w" and "vk_status k = ACTIVE"
    and "\<forall>k' \<in> world_keys w. vk_status k' = ACTIVE \<and> vk_user_id k' = vk_user_id k \<longrightarrow> k' = k"
  shows "world_get_active (vk_user_id k) w = (Inr (Some k), w)"
proof -
  obtain r where r: "world_get_active (vk_user_id k) w = (Inr r, w)"
    "case r of None \<Rightarrow> \<forall>k' \<in> world_keys w. vk_user_id k' = vk_user_id k \<longrightarrow> vk_status k' \<noteq> ACTIVE
     | Some k' \<Rightarrow> k' \<in> world_keys w \<and> vk_user_id k' = vk_user_id k \<and> vk_status k' = ACTIVE"
    using world_ledger.get_active [OF assms(1), of "vk_user_id k"] by (auto split: option.splits)
  then obtain k' where "r = Some k'" "k' \<in> world_keys w" "vk_user_id k' = vk_user_id k" "vk_status k' = ACTIVE"
    using assms(2,3) by (cases r) auto
  then show ?thesis using r(1) assms(4) by auto
qed

subsection \<open>Properties\<close>

definition budget_cells :: "BudgetPolicyRecord \<Rightarrow> Row" where
  "budget_cells p = [(''soft_limit_percent'', CInt (bp_soft_limit_percent p)),
     (''hard_limit_percent'', CInt (bp_hard_limit_percent p))]"

lemma budget_checks: "(\<forall>k \<in> set (t_checks budget_policies_table). check_ok (budget_cells p) k) \<longleftrightarrow>
    bp_soft_limit_percent p \<le> bp_hard_limit_percent p \<and> bp_hard_limit_percent p \<le> 100"
  by (simp add: budget_policies_table_def cell_def budget_cells_def)

text \<open>
  A budget policy is created only by an operator, for a user who exists and is active,
  and what is stored and answered is that user's active policy with the thresholds requested,
  which meet the constraint of the \<open>budget_policies\<close> table; a request whose thresholds do not is
  refused before anything is looked up.
\<close>

lemma budget_policy_created:
  assumes "create_user_budget_policy admin_access (Some svc) headers u payload w = (r, w')"
  shows "case r of
      Inr p \<Rightarrow> active_admin headers w ADMIN_ROLE_OPERATOR \<and>
        (\<exists>user w1. ba_get_user svc u w = (Inr (Some user), w1) \<and> ur_is_active user \<and>
           ba_create_policy svc p w1 = (Inr (), w')) \<and>
        bp_scope_type p = ''user'' \<and> bp_scope_id p = u \<and> bp_is_active p \<and>
        bp_soft_limit_percent p = bc_soft_limit_percent payload \<and>
        bp_hard_limit_percent p = bc_hard_limit_percent payload \<and>
        (\<forall>k \<in> set (t_checks budget_policies_table). check_ok (budget_cells p) k)
    | Inl e \<Rightarrow> \<not> (bc_soft_limit_percent payload \<le> bc_hard_limit_percent payload \<and>
          bc_hard_limit_percent payload \<le> 100) \<longrightarrow> e = value_error \<and> w' = w"
proof (cases "validate_percent_thresholds payload")
  case (Inl e)
  then have "e = value_error" by (auto simp: validate_percent_thresholds_def split: if_splits)
  then show ?thesis using assms Inl by (auto simp: create_user_budget_policy_def)
next
  case (Inr q)
  then have q: "q = payload" "bc_soft_limit_percent payload \<le> bc_hard_limit_percent payload"
    "bc_hard_limit_percent payload \<le> 100"
    by (auto simp: validate_percent_thresholds_def split: if_splits)
  show ?thesis
  proof (cases r)
    case (Inl e)
    then show ?thesis using q by simp
  next
    case p: (Inr p)
    have run: "bindM (require_admin_write admin_access headers)
        (\<lambda>_. bindM (returnM svc) (\<lambda>svc. create_user_policy svc u payload)) w = (Inr p, w')"
      using assms Inr p q(1) by (simp add: create_user_budget_policy_def configured_def)
    then have role: "has_role admin_access headers w ADMIN_ROLE_OPERATOR"
      and pol: "create_user_policy svc u payload w = (Inr p, w')"
      using require_admin_role_spec [OF admin_access_reads, of headers "[ADMIN_ROLE_OPERATOR]" w]
      by (auto simp: require_admin_write_def bindM_Inr split: if_splits)
    have "active_admin headers w ADMIN_ROLE_OPERATOR" by (rule has_role_active_admin [OF role])
    moreover have "\<exists>user w1. ba_get_user svc u w = (Inr (Some user), w1) \<and> ur_is_active user \<and>
        ba_create_policy svc p w1 = (Inr (), w') \<and> bp_scope_type p = ''user'' \<and> bp_scope_id p = u \<and>
        bp_is_active p \<and> bp_soft_limit_percent p = bc_soft_limit_percent payload \<and>
        bp_hard_limit_percent p = bc_hard_limit_percent payload"
      using pol by (auto simp: create_user_policy_def require_user_def bindM_Inr Let_def
          split: option.split_asm if_split_asm)
    ultimately show ?thesis using q p by (auto simp: budget_checks)
  qed
qed

text \<open>
  Property C14: only a caller whose principal header names an active admin identity gets an answer
  other than an error from an admin endpoint, or changes any state: an operator, or, for the two
  endpoints that list usage and audit events, an auditor. This holds whatever the services do.
\<close>

theorem admin_needs_role:
  assumes "admin_handle admin_access svcs stamps headers call w = (r, w')"
    and "(\<exists>x. r = Inr x) \<or> w' \<noteq> w"
  shows "active_admin headers w ADMIN_ROLE_OPERATOR \<or>
    (is_read call \<and> active_admin headers w ADMIN_ROLE_AUDITOR)"
proof (rule ccontr)
  assume no: "\<not> ?thesis"
  then have op: "\<not> has_role admin_access headers w ADMIN_ROLE_OPERATOR"
    using has_role_active_admin by blast
  have "\<exists>e. admin_handle admin_access svcs stamps headers call w = (Inl e, w)"
  proof (cases "is_read call")
    case True
    with no have "\<not> has_role admin_access headers w ADMIN_ROLE_AUDITOR"
      using has_role_active_admin by blast
    from refused_read [OF op this True] show ?thesis .
  next
    case False
    from refused_write [OF op False] show ?thesis .
  qed
  with assms show False by auto
qed

text \<open>
  Property C8: once an operator has revoked a key, it is shut out everywhere: its record in the
  ledger is revoked with the time of the revocation, the token service's cache has no entry for
  its user at any time, and the proxy refuses every request that carries it, with the reason
  \<open>inactive_virtual_key\<close>. The key repository is any that finds and replaces keys.
\<close>

theorem revoke_cuts_off_key:
  assumes "world_ok w" and "k \<in> world_keys w" and "finds_keys get" and "replaces_keys save"
    and "revoke (key_admin get save now nk ni) (vk_id k) w = (r, w')"
    and "extract_virtual_key h rid = Inr vk" and "vk_key_hash k = hash_virtual_key vk"
  shows "k\<lparr>vk_status := REVOKED, vk_revoked_at := Some now\<rparr> \<in> world_keys w' \<and>
    world_cache_get (vk_user_id k) t w' = (Inr None, w') \<and>
    authenticate auth_service h rid w' = (Inl (authentication_error rid AUTH_REASON_INACTIVE_KEY), w')"
proof -
  let ?k = "k\<lparr>vk_status := REVOKED, vk_revoked_at := Some now\<rparr>"
  have *: "world_ok w'" "world_keys w' = insert ?k (world_keys w - {k})"
    "world_cache_get (vk_user_id k) t w' = (Inr None, w')"
    using key_admin_repository.revoke_run [OF key_admin_repository.intro [OF assms(3,4)] assms(1,2), of now nk ni]
      assms(5) by auto
  have "?k \<in> world_keys w'" by (simp add: *(2))
  moreover from world_auth.inactive_refused [OF *(1) assms(6) this] assms(7)
  have "authenticate auth_service h rid w' = (Inl (authentication_error rid AUTH_REASON_INACTIVE_KEY), w')"
    by simp
  ultimately show ?thesis using *(3) by blast
qed

text \<open>
  Property C17: a token request under way while its key is revoked brings the key back into the
  cache. It has read the active record before the revocation and writes the cache after it: until
  the entry expires, the token service hands out the revoked key, which the proxy refuses.
\<close>

theorem stale_cache_after_revoke:
  assumes "world_good w" and "finds_keys get" and "replaces_keys save"
    and "world_get_active u w = (Inr (Some k), w)"
    and "revoke (key_admin get save now nk ni) (vk_id k) w = (Inr k', w1)"
    and "cache_key_record (token_service ttl) k read_at w1 = (Inr (), w2)"
    and "int_timestamp (ie_now env) < int_timestamp (read_at + normalize_cache_ttl ttl)"
  shows "\<exists>r. get_or_create_key (token_service ttl) env u rid w2 = (Inr r, w2) \<and>
    ti_source r = CACHE \<and> ti_status r = ACTIVE \<and> ti_key_id r = vk_id k \<and>
    (\<forall>h. extract_virtual_key h rid' = Inr (ti_virtual_key r) \<longrightarrow>
       authenticate auth_service h rid' w2 = (Inl (authentication_error rid' AUTH_REASON_INACTIVE_KEY), w2))"
proof -
  let ?k = "k\<lparr>vk_status := REVOKED, vk_revoked_at := Some now\<rparr>"
  let ?e = "cache_entry_of (token_service ttl) k read_at"
  have ok: "world_ok w" using assms(1) by (simp add: world_good_def)
  have k: "k \<in> world_keys w" "vk_user_id k = u" "vk_status k = ACTIVE"
    using world_ledger.get_active_Some [OF ok assms(4)] by auto
  obtain v where v: "vk_encrypted_key_blob k = simple_encrypt v" "vk_key_hash k = hash_virtual_key v"
    using assms(1) k(1) unfolding world_good_defs by blast
  have w1: "world_ok w1" "?k \<in> world_keys w1"
    using key_admin_repository.revoke_run [OF key_admin_repository.intro [OF assms(2,3)] ok k(1), of now nk ni]
      assms(5) by auto
  have put: "world_cache_put ?e w1 = (Inr (), w2)"
    using assms(6) by (simp add: cache_key_record_def)
  have w2: "world_ok w2" "?k \<in> world_keys w2" using world_issue.put_keeps [OF put] w1 by auto
  have hit: "world_cache_get u (ie_now env) w2 = (Inr (Some ?e), w2)"
    using world_cache.get_put [OF put, of "ie_now env"] assms(7) k(2,3)
    by (simp add: world_issue.cache_entry_fields)
  have "get_or_create_key (token_service ttl) env u rid w2 =
      (Inr \<lparr>ti_virtual_key = v, ti_user_id = u, ti_key_id = vk_id k, ti_key_prefix = vk_key_prefix k,
         ti_status = vk_status k, ti_source = CACHE, ti_expires_at = None\<rparr>, w2)"
    using hit v(1) by (simp add: get_or_create_key_def world_issue.cache_entry_fields envelope.decrypt_encrypt)
  then show ?thesis using world_auth.inactive_refused [OF w2(1) _ w2(2)] k(3) v(2) by auto
qed

text \<open>
  Property C34: the ledger the token service writes to cannot serve the key administration: it
  inserts and never updates, so on it revoking or disabling a key fails with the database's error
  and the key stays active, in the ledger and in the cache.
\<close>

theorem lifecycle_fails_on_insert_only_ledger:
  assumes "world_ok w" and "k \<in> world_keys w" and "finds_keys get"
    and "uuid_in (vk_id k) = Some (vk_id k)"
  shows "(\<exists>c. revoke (key_admin get world_save_key now nk ni) (vk_id k) w = (Inl (PyErr c), w)) \<and>
    (\<exists>c. disable (key_admin get world_save_key now nk ni) (vk_id k) w = (Inl (PyErr c), w)) \<and>
    (\<exists>c. rotate (key_admin get world_save_key now nk ni) (vk_id k) w = (Inl (PyErr c), w))"
proof -
  have g: "get (vk_id k) w = (Inr (Some k), w)" using assms unfolding finds_keys_def by blast
  have save: "\<exists>c. world_save_key r w = (Inl (PyErr c), w)" if "vk_id r = vk_id k" for r
    using save_virtual_key_existing [of k "w_db w" r] assms(1,2,4) that
    by (auto simp: world_keys_def world_ok_def world_save_key_def on_db_def)
  have r: "\<exists>c. revoke (key_admin get world_save_key now nk ni) (vk_id k) w = (Inl (PyErr c), w)"
    using save [of "k\<lparr>vk_status := REVOKED, vk_revoked_at := Some now\<rparr>"] g
    by (auto simp: revoke_def require_key_def key_admin_def Let_def)
  have d: "\<exists>c. disable (key_admin get world_save_key now nk ni) (vk_id k) w = (Inl (PyErr c), w)"
    using save [of "k\<lparr>vk_status := DISABLED\<rparr>"] g
    by (auto simp: disable_def require_key_def key_admin_def Let_def)
  then have "\<exists>c. rotate (key_admin get world_save_key now nk ni) (vk_id k) w = (Inl (PyErr c), w)"
    by (auto simp: rotate_def)
  with r d show ?thesis by blast
qed

text \<open>
  Property C9: rotating a user's active key puts the new one in its place everywhere. The old key
  is disabled and the proxy refuses it; the new key is accepted, for the same user; and the next
  call of the token service for a user in good standing hands out the new key, not the old one
  nor a third.
\<close>

theorem rotate_replaces_key:
  assumes "world_ok w" and "one_active_key w" and "k \<in> world_keys w" and "vk_status k = ACTIVE"
    and "finds_keys get" and "replaces_keys save" and "adds_keys save"
    and "ni \<notin> vk_id ` world_keys w" and "hash_virtual_key nk \<notin> vk_key_hash ` world_keys w"
    and "rotate (key_admin get save now nk ni) (vk_id k) w = (r, w')"
    and "extract_virtual_key h' rid = Inr nk"
    and "world_find_user (vk_user_id k) w = Some x" and "ur_is_active x" and "ur_proxy_access_enabled x"
  shows "(\<forall>h vk. extract_virtual_key h rid = Inr vk \<and> hash_virtual_key vk = vk_key_hash k \<longrightarrow>
      authenticate auth_service h rid w' = (Inl (authentication_error rid AUTH_REASON_INACTIVE_KEY), w')) \<and>
    (\<exists>c. authenticate auth_service h' rid w' = (Inr c, w') \<and> ac_virtual_key_id c = ni \<and> ac_user_record c = x) \<and>
    (\<exists>res w''. get_or_create_key (token_service ttl) env (vk_user_id k) rid w' = (Inr res, w'') \<and>
       ti_virtual_key res = nk \<and> ti_key_id res = ni)"
proof -
  let ?d = "k\<lparr>vk_status := DISABLED\<rparr>"
  have single: "\<forall>k' \<in> world_keys w. vk_status k' = ACTIVE \<and> vk_user_id k' = vk_user_id k \<longrightarrow> k' = k"
    using assms(2-4) unfolding one_active_key_def by auto
  obtain n where n: "replacement_key (key_admin get save now nk ni) k w = (Inr n, w)" "world_ok w'"
    "world_keys w' = insert n (insert ?d (world_keys w - {k}))" "db_users (w_db w') = db_users (w_db w)"
    "\<forall>t. fst (world_cache_get (vk_user_id k) t w') = Inr None"
    using key_admin_repository.rotate_run [OF key_admin_repository.intro [OF assms(5,6)] assms(1,3,7-9), of now] assms(10)
    by auto
  have nf: "vk_id n = ni" "vk_user_id n = vk_user_id k" "vk_key_hash n = hash_virtual_key nk" "vk_status n = ACTIVE"
    "vk_encrypted_key_blob n = simple_encrypt nk"
    using n(1) by (auto simp: replacement_key_def key_admin_def)
  have user: "world_find_user (vk_user_id k) w' = Some x" "ur_id x = vk_user_id k"
    using assms(12) n(4) world_auth.find_user_id [OF assms(12)] by (simp_all add: world_find_user_def)
  have "authenticate auth_service h rid w' = (Inl (authentication_error rid AUTH_REASON_INACTIVE_KEY), w')"
    if "extract_virtual_key h rid = Inr vk" "hash_virtual_key vk = vk_key_hash k" for h vk
    using world_auth.inactive_refused [OF n(2) that(1), of ?d] n(3) that(2) by simp
  moreover have "authenticate auth_service h' rid w' =
      (Inr (restore_trusted_request_context rid x (vk_id n) (vk_key_hash n) (vk_key_prefix n)), w')"
    unfolding world_auth.authenticate_iff [OF n(2)] using assms(11) n(3) nf user(1) by auto
  moreover have "\<exists>res w''. get_or_create_key (token_service ttl) env (vk_user_id k) rid w' = (Inr res, w'') \<and>
       ti_virtual_key res = nk \<and> ti_key_id res = ni"
  proof -
    have a: "world_get_active (vk_user_id k) w' = (Inr (Some n), w')"
      using world_active_only [OF n(2), of n] n(3) nf single by auto
    have c: "world_cache_get (vk_user_id k) (ie_now env) w' = (Inr None, w')"
      using n(5) world_cache.get_same by (metis prod.collapse)
    have "world_get_user (vk_user_id k) w' = (Inr (Some x), w')"
      using user(1) by (simp add: world_get_user_def on_db_def get_user_run world_find_user_def)
    then have u: "require_allowed_user (token_service ttl) (vk_user_id k) rid w' = (Inr x, w')"
      using assms(13,14) by (simp add: require_allowed_user_def)
    have "\<exists>v. cache_key_record (token_service ttl) n (ie_now env) w' = (Inr (), v)"
      by (simp add: cache_key_record_def world_cache_put_def on_cache_def dynamo_cache_put_run)
    then obtain v where v: "cache_key_record (token_service ttl) n (ie_now env) w' = (Inr (), v)" by blast
    show ?thesis using a c u v user(2) nf
      by (simp add: get_or_create_key_def envelope.decrypt_encrypt)
  qed
  ultimately show ?thesis using nf(1) by (auto simp: restore_trusted_request_context_def)
qed

text \<open>
  Property C10: rotation does not look at the key's status. Rotating a key that is revoked or disabled,
  while its user has an active key, gives the user a second one: the new key and the
  active key are both in use afterwards, and the record of the old key says disabled although it had been
  revoked.
\<close>

theorem rotate_inactive_adds_second_key:
  assumes "world_ok w" and "finds_keys get" and "replaces_keys save" and "adds_keys save"
    and "k \<in> world_keys w" and "vk_status k \<noteq> ACTIVE"
    and "a \<in> world_keys w" and "vk_status a = ACTIVE" and "vk_user_id a = vk_user_id k"
    and "ni \<notin> vk_id ` world_keys w" and "hash_virtual_key nk \<notin> vk_key_hash ` world_keys w"
    and "rotate (key_admin get save now nk ni) (vk_id k) w = (r, w')"
  shows "\<exists>n. r = Inr (k\<lparr>vk_status := DISABLED\<rparr>, n) \<and> vk_key_hash n = hash_virtual_key nk \<and>
    {a, n, k\<lparr>vk_status := DISABLED\<rparr>} \<subseteq> world_keys w' \<and> (vk_status k = REVOKED \<longrightarrow> k \<notin> world_keys w') \<and>
    a \<noteq> n \<and> vk_status n = ACTIVE \<and> vk_user_id n = vk_user_id a \<and> \<not> one_active_key w'"
proof -
  let ?d = "k\<lparr>vk_status := DISABLED\<rparr>"
  obtain n where n: "r = Inr (?d, n)" "replacement_key (key_admin get save now nk ni) k w = (Inr n, w)"
    "world_keys w' = insert n (insert ?d (world_keys w - {k}))"
    using key_admin_repository.rotate_run [OF key_admin_repository.intro [OF assms(2,3)] assms(1,5,4,10,11), of now]
      assms(12) by auto
  have nf: "vk_id n = ni" "vk_user_id n = vk_user_id a" "vk_key_hash n = hash_virtual_key nk" "vk_status n = ACTIVE"
    using n(2) assms(9) by (auto simp: replacement_key_def key_admin_def)
  have ne: "a \<noteq> n" "k \<noteq> n" using nf(1) assms(5,7,10) by auto
  have "a \<noteq> k" using assms(6,8) by auto
  then have in_w': "{a, n, ?d} \<subseteq> world_keys w'" using assms(7) by (simp add: n(3))
  then have "\<not> one_active_key w'"
    unfolding one_active_key_def using ne(1) nf(2,4) assms(8) by force
  moreover have "k \<notin> world_keys w'" if "vk_status k = REVOKED"
  proof -
    have "?d \<noteq> k" using that by (auto dest: arg_cong [where f = vk_status])
    then show ?thesis using ne(2) by (auto simp: n(3))
  qed
  ultimately show ?thesis using n(1) nf ne(1) in_w' by blast
qed

subsection \<open>Witnesses\<close>

text \<open>
  A key repository that replaces the record of a known identifier and adds the others, as the one
  of the admin tests does (\<open>tests/admin/support.py\<close>), on the same database.
\<close>

definition key_by_id :: "string \<Rightarrow> (World, VirtualKeyRecord option) op" where
  "key_by_id i = on_db (getsM (\<lambda>db.
     map_option the_record (fetchone (filter (\<lambda>row. kr_id row = i) (db_virtual_keys db)))))"

definition upsert_key :: "VirtualKeyRecord \<Rightarrow> (World, unit) op" where
  "upsert_key r = on_db (\<lambda>db. (Inr (), db\<lparr>db_virtual_keys :=
     (if vk_id r \<in> kr_id ` set (db_virtual_keys db)
      then map (\<lambda>row. if kr_id row = vk_id r then record_to_row (vk_id r) r else row) (db_virtual_keys db)
      else db_virtual_keys db @ [record_to_row (vk_id r) r])\<rparr>))"

lemma key_by_id_finds: "finds_keys key_by_id"
  unfolding finds_keys_def
proof (intro allI impI)
  fix w k assume w: "world_ok w" and k: "k \<in> world_keys w"
  let ?rows = "db_virtual_keys (w_db w)"
  obtain row where row: "row \<in> set ?rows" "k = the_record row"
    using k by (auto simp: world_keys_def db_keys_def)
  have id: "vk_id k = kr_id row"
    using the_record_fields(3) [OF db_ok_row] w row by (auto simp: world_ok_def)
  have "filter (\<lambda>r. kr_id r = vk_id k) ?rows \<noteq> []" using row(1) id by (auto simp: filter_empty_conv)
  then obtain x where x: "fetchone (filter (\<lambda>r. kr_id r = vk_id k) ?rows) = Some x"
    by (metis fetchone_None not_None_eq)
  then have "x \<in> set ?rows" "kr_id x = kr_id row" using fetchone_filter [OF x] id by auto
  moreover have "inj_on kr_id (set ?rows)" using w by (simp add: world_ok_def db_ok_def distinct_map)
  ultimately have "x = row" using row(1) by (auto dest: inj_onD)
  then show "key_by_id (vk_id k) w = (Inr (Some k), w)"
    using x row(2) by (simp add: key_by_id_def on_db_def)
qed

lemma upsert_key_replaces: "replaces_keys upsert_key"
  unfolding replaces_keys_def
proof (intro allI impI)
  fix w and k r :: VirtualKeyRecord assume w: "world_ok w" and k: "k \<in> world_keys w"
    and r: "vk_id r = vk_id k" "vk_key_hash r = vk_key_hash k" "vk_user_id r = vk_user_id k"
  let ?rows = "db_virtual_keys (w_db w)"
  let ?f = "\<lambda>row. if kr_id row = vk_id r then record_to_row (vk_id r) r else row"
  obtain row where row: "row \<in> set ?rows" "k = the_record row"
    using k by (auto simp: world_keys_def db_keys_def)
  have flds: "vk_id k = kr_id row" "vk_key_hash k = kr_key_hash row" "vk_user_id k = kr_user_id row"
    using the_record_fields [OF db_ok_row] w row by (auto simp: world_ok_def)
  have inj: "inj_on kr_id (set ?rows)" using w by (simp add: world_ok_def db_ok_def distinct_map)
  have only: "x = row" if "x \<in> set ?rows" "kr_id x = kr_id row" for x
    using inj that row(1) by (auto dest: inj_onD)
  have keep: "kr_id (?f x) = kr_id x \<and> kr_key_hash (?f x) = kr_key_hash x \<and> kr_user_id (?f x) = kr_user_id x"
    if "x \<in> set ?rows" for x
    using only [OF that] r flds by (auto simp: record_to_row_def)
  let ?w = "w\<lparr>w_db := (w_db w)\<lparr>db_virtual_keys := map ?f ?rows\<rparr>\<rparr>"
  have "vk_id r \<in> kr_id ` set ?rows" using r(1) flds(1) row(1) by simp
  then have run: "upsert_key r w = (Inr (), ?w)" by (simp add: upsert_key_def on_db_def)
  have ids: "map kr_id (map ?f ?rows) = map kr_id ?rows" using keep by simp
  have hashes: "map kr_key_hash (map ?f ?rows) = map kr_key_hash ?rows" using keep by simp
  have "list_all row_ok (map ?f ?rows)"
    using w by (auto simp: world_ok_def db_ok_def list_all_iff)
  moreover have "list_all (\<lambda>r. kr_user_id r \<in> us_id ` set (db_users (w_db w))) (map ?f ?rows)"
    unfolding list_all_iff
  proof
    fix y assume "y \<in> set (map ?f ?rows)"
    then obtain x where x: "x \<in> set ?rows" "y = ?f x" by auto
    then have "kr_user_id y = kr_user_id x" using keep [OF x(1)] by simp
    then show "kr_user_id y \<in> us_id ` set (db_users (w_db w))"
      using w x(1) by (auto simp: world_ok_def db_ok_def list_all_iff)
  qed
  ultimately have ok: "world_ok ?w"
    using w ids hashes by (simp add: world_ok_def db_ok_def del: map_map)
  have f: "the_record (?f x) = (if x = row then r else the_record x)" if "x \<in> set ?rows" for x
    using only [OF that] r(1) flds(1) by auto
  have ne: "the_record x \<noteq> k" if "x \<in> set ?rows" and "x \<noteq> row" for x
    using that only [OF that(1)] the_record_fields(3) [OF db_ok_row, of "w_db w" x] w flds(1)
    by (auto simp: world_ok_def)
  have "(\<lambda>x. the_record (?f x)) ` set ?rows = (\<lambda>x. if x = row then r else the_record x) ` set ?rows"
    by (rule image_cong [OF refl f])
  also have "\<dots> = insert r (the_record ` (set ?rows - {row}))" using row(1) by auto
  finally have "the_record ` set (map ?f ?rows) = insert r (the_record ` (set ?rows - {row}))"
    by (simp only: set_map image_image)
  moreover have "the_record ` (set ?rows - {row}) = the_record ` set ?rows - {k}"
    using ne row(2) by blast
  ultimately have "the_record ` set (map ?f ?rows) = insert r (the_record ` set ?rows - {k})" by (simp only:)
  then have "world_keys ?w = insert r (world_keys w - {k})" by (simp add: world_keys_def db_keys_def)
  then show "\<exists>w'. upsert_key r w = (Inr (), w') \<and> world_ok w' \<and>
      world_keys w' = insert r (world_keys w - {k}) \<and> w_cache w' = w_cache w \<and>
      db_users (w_db w') = db_users (w_db w)"
    using run ok by auto
qed

lemma upsert_key_adds: "adds_keys upsert_key"
  unfolding adds_keys_def
proof (intro allI impI)
  fix w and r :: VirtualKeyRecord
  assume w: "world_ok w" and new: "vk_id r \<notin> vk_id ` world_keys w"
    "vk_key_hash r \<notin> vk_key_hash ` world_keys w" and user: "vk_user_id r \<in> us_id ` set (db_users (w_db w))"
  let ?rows = "db_virtual_keys (w_db w)"
  let ?w = "w\<lparr>w_db := (w_db w)\<lparr>db_virtual_keys := ?rows @ [record_to_row (vk_id r) r]\<rparr>\<rparr>"
  have flds: "vk_id (the_record x) = kr_id x" "vk_key_hash (the_record x) = kr_key_hash x" if "x \<in> set ?rows" for x
    using the_record_fields [OF db_ok_row] w that by (auto simp: world_ok_def)
  have n: "vk_id r \<notin> kr_id ` set ?rows" "vk_key_hash r \<notin> kr_key_hash ` set ?rows"
    using new flds by (auto simp: world_keys_def db_keys_def image_iff)
  have row: "kr_id (record_to_row (vk_id r) r) = vk_id r" "kr_key_hash (record_to_row (vk_id r) r) = vk_key_hash r"
    "kr_user_id (record_to_row (vk_id r) r) = vk_user_id r" by (simp_all add: record_to_row_def)
  have "world_ok ?w" using w n user by (simp add: world_ok_def db_ok_def row)
  moreover have "world_keys ?w = insert r (world_keys w)" by (simp add: world_keys_def db_keys_def)
  moreover have "upsert_key r w = (Inr (), ?w)" using n(1) by (simp add: upsert_key_def on_db_def)
  ultimately show "\<exists>w'. upsert_key r w = (Inr (), w') \<and> world_ok w' \<and>
      world_keys w' = insert r (world_keys w) \<and> w_cache w' = w_cache w \<and> db_users (w_db w') = db_users (w_db w)"
    by auto
qed

interpretation updating: key_admin_repository key_by_id upsert_key
  by unfold_locales (rule key_by_id_finds upsert_key_replaces)+

definition demo_administered :: "string \<Rightarrow> World" where
  "demo_administered role = demo_world\<lparr>w_db := (w_db demo_world)\<lparr>db_admin_identities :=
     [\<lparr>ai_principal_id = ''sre'', ai_role = role, ai_is_active = True,
       ai_created_at = 0, ai_updated_at = 0\<rparr>]\<rparr>\<rparr>"

definition demo_services :: "World AdminServices" where
  "demo_services = \<lparr>as_user_store = None, as_budget_policies = None, as_virtual_keys = None,
     as_model_mappings = None, as_usage_queries = Some \<lparr>uq_query_usage = (\<lambda>_. returnM []),
       uq_query_audit_events = (\<lambda>_ _. returnM [])\<rparr>\<rparr>"

definition demo_headers :: headers where
  "demo_headers = [''X-Admin-Principal'' \<mapsto> '' sre '']"

lemma admin_needs_role_witness:
  "\<exists>f. admin_handle admin_access demo_services (0, 0, 0) demo_headers (ListUsage f) (demo_administered ADMIN_ROLE_AUDITOR) =
      (Inr (UsageItems []), (demo_administered ADMIN_ROLE_AUDITOR)) \<and>
     (active_admin demo_headers (demo_administered ADMIN_ROLE_AUDITOR) ADMIN_ROLE_OPERATOR \<or>
      active_admin demo_headers (demo_administered ADMIN_ROLE_AUDITOR) ADMIN_ROLE_AUDITOR)"
proof -
  let ?f = "\<lparr>uf_user_id = None, uf_team_id = None, uf_model = None\<rparr>"
  have "py_strip '' sre '' = ''sre''" by code_simp
  then have "admin_handle admin_access demo_services (0, 0, 0) demo_headers (ListUsage ?f) (demo_administered ADMIN_ROLE_AUDITOR) =
      (Inr (UsageItems []), (demo_administered ADMIN_ROLE_AUDITOR))"
    by (simp add: mapM_result_def list_usage_def require_admin_read_def require_admin_role_def
        admin_access_def demo_headers_def on_db_def get_admin_role_def get_admin_identity_def
        demo_administered_def allowed_roles_for_read_def configured_def demo_services_def fetchone_def)
  with admin_needs_role [OF this] show ?thesis by blast
qed

definition demo_budgets :: "World BudgetPolicyAdminService" where
  "demo_budgets = \<lparr>ba_get_user = world_get_user, ba_create_policy = (\<lambda>_. returnM ())\<rparr>"

definition demo_budget :: BudgetPolicyCreateRequest where
  "demo_budget = \<lparr>bc_id = ''b1'', bc_period_type = MONTH, bc_metric_type = TOKENS, bc_limit_value = 1000,
     bc_soft_limit_percent = 80, bc_hard_limit_percent = 100\<rparr>"

lemma demo_stored: "world_good (demo_issued 0)" "demo_key 0 \<in> world_keys (demo_issued 0)"
  "extract_virtual_key demo_header rid = Inr (ie_generated_key (demo_env 0))"
  "vk_key_hash (demo_key 0) = hash_virtual_key (ie_generated_key (demo_env 0))"
  using demo_issued_good demo_key_in demo_extract demo_active by (simp_all add: demo_header_def)

lemma revoke_cuts_off_key_witness:
  "\<exists>r w'. revoke (key_admin key_by_id upsert_key 5 ''n'' ''i'') (vk_id (demo_key 0)) (demo_issued 0) = (r, w') \<and>
     (demo_key 0)\<lparr>vk_status := REVOKED, vk_revoked_at := Some 5\<rparr> \<in> world_keys w' \<and>
     authenticate auth_service demo_header ''r2'' w' =
       (Inl (authentication_error ''r2'' AUTH_REASON_INACTIVE_KEY), w')"
proof -
  obtain r w' where r: "revoke (key_admin key_by_id upsert_key 5 ''n'' ''i'') (vk_id (demo_key 0))
      (demo_issued 0) = (r, w')" by fastforce
  with revoke_cuts_off_key [OF demo_issued_ok demo_stored(2) key_by_id_finds upsert_key_replaces r
      demo_stored(3,4)] show ?thesis by blast
qed

lemma stale_cache_after_revoke_witness:
  "\<exists>w1 w2 r. revoke (key_admin key_by_id upsert_key 5 ''n'' ''i'') (vk_id (demo_key 0)) (demo_issued 0) =
      (Inr ((demo_key 0)\<lparr>vk_status := REVOKED, vk_revoked_at := Some 5\<rparr>), w1) \<and>
     cache_key_record (token_service 0) (demo_key 0) 0 w1 = (Inr (), w2) \<and>
     get_or_create_key (token_service 0) (demo_env minute) ''ana'' ''r2'' w2 = (Inr r, w2) \<and>
     ti_source r = CACHE \<and> ti_status r = ACTIVE"
proof -
  obtain w1 where w1: "revoke (key_admin key_by_id upsert_key 5 ''n'' ''i'') (vk_id (demo_key 0)) (demo_issued 0) =
      (Inr ((demo_key 0)\<lparr>vk_status := REVOKED, vk_revoked_at := Some 5\<rparr>), w1)"
    using updating.revoke_run [OF demo_issued_ok demo_stored(2)] by blast
  obtain w2 where w2: "cache_key_record (token_service 0) (demo_key 0) 0 w1 = (Inr (), w2)"
    by (auto simp: cache_key_record_def world_cache_put_def on_cache_def dynamo_cache_put_run)
  have u: "vk_user_id (demo_key 0) = ''ana''" by (simp add: demo_key_def new_key_record_def Let_def)
  have "world_get_active (vk_user_id (demo_key 0)) (demo_issued 0) = (Inr (Some (demo_key 0)), demo_issued 0)"
    by (rule world_active_only) (use demo_stored demo_active in \<open>auto simp: world_good_defs\<close>)
  then have a: "world_get_active ''ana'' (demo_issued 0) = (Inr (Some (demo_key 0)), demo_issued 0)"
    unfolding u .
  have "int_timestamp (ie_now (demo_env minute)) < int_timestamp (0 + normalize_cache_ttl 0)"
    by (simp add: demo_env_def normalize_cache_ttl_def DEFAULT_CACHE_TTL_def int_timestamp_def time_defs)
  from stale_cache_after_revoke [OF demo_stored(1) key_by_id_finds upsert_key_replaces a w1 w2 this] w1 w2
  show ?thesis by blast
qed

lemma lifecycle_fails_on_insert_only_ledger_witness:
  "\<exists>c. revoke (key_admin key_by_id world_save_key 5 ''n'' ''i'') (vk_id (demo_key 0)) (demo_issued 0) =
     (Inl (PyErr c), demo_issued 0)"
proof -
  have "uuid_in (vk_id (demo_key 0)) = Some (vk_id (demo_key 0))"
    using demo_uuid [of 0] by (simp add: demo_key_def new_key_record_def Let_def)
  from lifecycle_fails_on_insert_only_ledger [OF demo_issued_ok demo_stored(2) key_by_id_finds this]
  show ?thesis by blast
qed

text \<open>A ledger whose key was imported under a hash that no key has.\<close>

definition demo_imported :: World where
  "demo_imported = (demo_issued 0)\<lparr>w_db := (w_db (demo_issued 0))\<lparr>db_virtual_keys :=
     [record_to_row (vk_id (demo_key 0)) ((demo_key 0)\<lparr>vk_key_hash := ''imported''\<rparr>)]\<rparr>\<rparr>"

lemma rotate_replaces_key_witness:
  "\<exists>r w' res w''. rotate (key_admin key_by_id upsert_key 5 ''vk_new'' ''new-id'') (vk_id (demo_key 0)) demo_imported = (r, w') \<and>
     get_or_create_key (token_service 0) (demo_env 7) ''ana'' ''r2'' w' = (Inr res, w'') \<and>
     ti_virtual_key res = ''vk_new'' \<and> ti_key_id res = ''new-id''"
proof -
  let ?k = "(demo_key 0)\<lparr>vk_key_hash := ''imported''\<rparr>"
  have keys: "world_keys demo_imported = {?k}" by (simp add: demo_imported_def world_keys_def db_keys_def)
  have k: "vk_user_id ?k = ''ana''" "vk_id ?k = vk_id (demo_key 0)" "vk_id ?k \<noteq> ''new-id''" "vk_status ?k = ACTIVE"
    by (simp_all add: demo_key_def new_key_record_def Let_def demo_env_def)
  have ok: "world_ok demo_imported"
    by (simp add: world_ok_def db_ok_def demo_imported_def demo_issued_def demo_world_def)
      (simp add: record_to_row_def demo_key_def new_key_record_def Let_def demo_user_def)
  have one: "one_active_key demo_imported" by (simp add: one_active_key_def keys)
  have "hash_virtual_key ''vk_new'' \<noteq> ''imported''"
  proof
    assume "hash_virtual_key ''vk_new'' = ''imported''"
    then have "length (hash_virtual_key ''vk_new'') = length ''imported''" by (rule arg_cong)
    then show False by simp
  qed
  then have fresh: "''new-id'' \<notin> vk_id ` world_keys demo_imported"
    "hash_virtual_key ''vk_new'' \<notin> vk_key_hash ` world_keys demo_imported"
    using k(3) by (auto simp: keys)
  obtain r w' where r: "rotate (key_admin key_by_id upsert_key 5 ''vk_new'' ''new-id'') (vk_id ?k)
      demo_imported = (r, w')" by fastforce
  have "extract_virtual_key (Some (''Bearer '' @ VIRTUAL_KEY_PREFIX @ ''new'')) ''r2'' = Inr (VIRTUAL_KEY_PREFIX @ ''new'')"
    by (rule extract_bearer) (simp add: py_isspace_def)
  then have header: "extract_virtual_key (Some ''Bearer vk_new'') ''r2'' = Inr ''vk_new''"
    by (simp add: VIRTUAL_KEY_PREFIX_def)
  have user: "world_find_user (vk_user_id ?k) demo_imported = Some (user_row_to_record (demo_user ''ana'' True))"
    using demo_find_user by (simp add: world_find_user_def demo_imported_def)
  have u: "ur_is_active (user_row_to_record (demo_user ''ana'' True))"
    "ur_proxy_access_enabled (user_row_to_record (demo_user ''ana'' True))"
    by (simp_all add: user_row_to_record_def demo_user_def)
  have "?k \<in> world_keys demo_imported" by (simp add: keys)
  from rotate_replaces_key [OF ok one this k(4) key_by_id_finds upsert_key_replaces upsert_key_adds fresh r
      header user u, of 0 "demo_env 7"] r show ?thesis unfolding k(1,2) by blast
qed

text \<open>A ledger with a revoked key beside the one that was issued.\<close>

definition demo_old_key :: VirtualKeyRecord where
  "demo_old_key = (demo_key 0)\<lparr>vk_id := ''old-id'', vk_key_hash := ''imported'', vk_status := REVOKED\<rparr>"

definition demo_two_keys :: World where
  "demo_two_keys = (demo_issued 0)\<lparr>w_db := (w_db (demo_issued 0))\<lparr>db_virtual_keys :=
     [record_to_row ''old-id'' demo_old_key,
      record_to_row (vk_id (demo_key 0)) ((demo_key 0)\<lparr>vk_key_hash := ''other''\<rparr>)]\<rparr>\<rparr>"

lemma hash_not_short: "length h \<noteq> 64 \<Longrightarrow> hash_virtual_key vk \<noteq> h"
  by (metis length_hash_virtual_key)

lemma rotate_inactive_adds_second_key_witness:
  "\<exists>r w'. rotate (key_admin key_by_id upsert_key 5 ''vk_new'' ''new-id'') ''old-id'' demo_two_keys = (r, w') \<and>
     \<not> one_active_key w'"
proof -
  let ?a = "(demo_key 0)\<lparr>vk_key_hash := ''other''\<rparr>"
  have same: "demo_old_key\<lparr>vk_id := ''old-id''\<rparr> = demo_old_key"
    by (rule VirtualKeyRecord.equality) (simp_all add: demo_old_key_def)
  have keys: "world_keys demo_two_keys = {demo_old_key, ?a}"
    by (simp add: demo_two_keys_def world_keys_def db_keys_def same)
  have a: "vk_id ?a \<noteq> ''new-id''" "vk_status ?a = ACTIVE" "vk_user_id ?a = vk_user_id demo_old_key"
    by (simp_all add: demo_key_def new_key_record_def Let_def demo_env_def demo_old_key_def)
  have o: "vk_id demo_old_key = ''old-id''" "vk_status demo_old_key \<noteq> ACTIVE" by (simp_all add: demo_old_key_def)
  have ok: "world_ok demo_two_keys"
    by (simp add: world_ok_def db_ok_def demo_two_keys_def demo_issued_def demo_world_def)
      (simp add: record_to_row_def demo_old_key_def demo_key_def new_key_record_def Let_def demo_user_def demo_env_def)
  have fresh: "''new-id'' \<notin> vk_id ` world_keys demo_two_keys"
    "hash_virtual_key ''vk_new'' \<notin> vk_key_hash ` world_keys demo_two_keys"
    using a(1) hash_not_short [of "''imported''" "''vk_new''"] hash_not_short [of "''other''" "''vk_new''"]
    by (auto simp: keys demo_old_key_def)
  obtain r w' where r: "rotate (key_admin key_by_id upsert_key 5 ''vk_new'' ''new-id'') (vk_id demo_old_key)
      demo_two_keys = (r, w')" by fastforce
  have "demo_old_key \<in> world_keys demo_two_keys" "?a \<in> world_keys demo_two_keys" by (simp_all add: keys)
  from rotate_inactive_adds_second_key [OF ok key_by_id_finds upsert_key_replaces upsert_key_adds this(1) o(2)
      this(2) a(2,3) fresh r] r show ?thesis unfolding o(1) by blast
qed

end
