(* ===== verification/KnownAnswers.thy ===== *)
theory KnownAnswers
  imports Security
begin

section \<open>Known answers\<close>

text \<open>
  Digests computed by the definitions of \<open>Security\<close>: of the standard's example, as evidence that
  \<open>sha256\<close> is the function the code calls in \<open>hashlib\<close>, and of a key as the service generates them.
\<close>

text \<open>A message of one block, from its schedule and the rounds, sixteen at a time.\<close>

definition quarter :: "nat \<Rightarrow> 'a list \<Rightarrow> 'a list" where
  "quarter n xs = take 16 (drop (16 * n) xs)"

lemma zip_quarters:
  assumes "length xs = 64" and "length ys = 64"
  shows "zip xs ys = zip (quarter 0 xs) (quarter 0 ys) @ zip (quarter 1 xs) (quarter 1 ys) @
      zip (quarter 2 xs) (quarter 2 ys) @ zip (quarter 3 xs) (quarter 3 ys)"
proof -
  have s: "zs = take 16 zs @ drop 16 zs" for zs :: "('a \<times> 'b) list" by simp
  have "drop 48 (zip xs ys) = take 16 (drop 48 (zip xs ys))" using assms by simp
  then have "zip xs ys = take 16 (zip xs ys) @ take 16 (drop 16 (zip xs ys)) @ take 16 (drop 32 (zip xs ys)) @
      take 16 (drop 48 (zip xs ys))"
    using s [of "zip xs ys"] s [of "drop 16 (zip xs ys)"] s [of "drop 32 (zip xs ys)"] by simp
  then show ?thesis by (simp add: quarter_def take_zip drop_zip)
qed

lemma sha256_one_block:
  assumes "chunks 63 (sha256_pad bs) = [sha256_pad bs]"
    and "rev (sha256_extend 48 (rev (map sha_word (chunks 3 (sha256_pad bs))))) = ws"
    and "foldl sha256_round sha256_init (zip (quarter 0 sha256_k) (quarter 0 ws)) = s1"
    and "foldl sha256_round s1 (zip (quarter 1 sha256_k) (quarter 1 ws)) = s2"
    and "foldl sha256_round s2 (zip (quarter 2 sha256_k) (quarter 2 ws)) = s3"
    and "foldl sha256_round s3 (zip (quarter 3 sha256_k) (quarter 3 ws)) = s4"
    and "sha_add sha256_init s4 = digest" and "length ws = 64"
  shows "sha256 bs = digest"
proof -
  have "length sha256_k = 64" by (simp add: sha256_k_def)
  from zip_quarters [OF this assms(8)] show ?thesis
    using assms(1-7) by (simp add: sha256_def sha256_block_def Let_def)
qed

text \<open>The standard's example.\<close>

definition abc_schedule :: "word32 list" where
  "abc_schedule =
    [1633837952, 0, 0, 0, 0, 0, 0, 0,
     0, 0, 0, 0, 0, 0, 0, 24,
     1633837952, 983040, 2108187653, 1610613702, 1050508152, 25426944, 316456923, 3806512014,
     3357629466, 3073800610, 3854317833, 845560923, 2636160359, 3968280267, 1881225380, 3552024379,
     2482346367, 996719219, 2952069057, 4043988066, 176896406, 1924104970, 2483675966, 610538786,
     2672279444, 4037431130, 1042573945, 657669027, 206005234, 2215296807, 2049510749, 106709978,
     4215179723, 3430291419, 3118885940, 2845390439, 2226839261, 3256115900, 344409900, 2987358873,
     4015503821, 3957764664, 2682456414, 2025622859, 2755645205, 1720397816, 4004225740, 313650667]"

lemma sha256_abc_schedule:
  "rev (sha256_extend 48 (rev (map sha_word (chunks 3 (sha256_pad [97, 98, 99]))))) = abc_schedule"
  by code_simp

lemma sha256_abc_rounds_1: "foldl sha256_round
      sha256_init
      (zip (quarter 0 sha256_k) (quarter 0 abc_schedule)) =
    (2969183118, 3227803614, 3643992854, 2274437520, 123276749, 194179596, 1952073950, 509051416)"
  by code_simp

lemma sha256_abc_rounds_2: "foldl sha256_round
      (2969183118, 3227803614, 3643992854, 2274437520, 123276749, 194179596, 1952073950, 509051416)
      (zip (quarter 1 sha256_k) (quarter 1 abc_schedule)) =
    (1941126133, 3935906338, 2684750640, 909411017, 3126399250, 17410874, 2917635127, 1628611511)"
  by code_simp

lemma sha256_abc_rounds_3: "foldl sha256_round
      (1941126133, 3935906338, 2684750640, 909411017, 3126399250, 17410874, 2917635127, 1628611511)
      (zip (quarter 2 sha256_k) (quarter 2 abc_schedule)) =
    (1098003085, 2706117808, 1923828625, 643991573, 4274981830, 3581645993, 3077922209, 2819559920)"
  by code_simp

lemma sha256_abc_rounds_4: "foldl sha256_round
      (1098003085, 2706117808, 1923828625, 643991573, 4274981830, 3581645993, 3077922209, 2819559920)
      (zip (quarter 3 sha256_k) (quarter 3 abc_schedule)) =
    (1349398616, 3550093669, 80891244, 3093179625, 1593118500, 4212265488, 2492278198, 2518632596)"
  by code_simp

lemma sha256_abc: "sha256 [97, 98, 99] =
    (3128432319, 2399260650, 1094795486, 1571693091, 2953011619, 2518121116, 3021012833, 4060091821)"
proof (rule sha256_one_block [OF _ sha256_abc_schedule sha256_abc_rounds_1 sha256_abc_rounds_2
    sha256_abc_rounds_3 sha256_abc_rounds_4])
  show "chunks 63 (sha256_pad [97, 98, 99]) = [sha256_pad [97, 98, 99]]" by code_simp
qed (simp_all add: sha256_init_def abc_schedule_def)

lemma hash_virtual_key_abc:
  "hash_virtual_key ''abc'' = ''ba7816bf8f01cfea414140de5dae2223b00361a396177a9cb410ff61f20015ad''"
proof -
  have u: "utf8_encode ''abc'' = [97, 98, 99]" by code_simp
  have "hexdigest (3128432319, 2399260650, 1094795486, 1571693091, 2953011619, 2518121116, 3021012833, 4060091821) =
      ''ba7816bf8f01cfea414140de5dae2223b00361a396177a9cb410ff61f20015ad''"
    by code_simp
  then show ?thesis by (simp add: hash_virtual_key_def u sha256_abc)
qed

text \<open>
  The digest of a key of the form \<open>generate_virtual_key\<close> gives, which the examples of the token
  service use.
\<close>

definition known_key :: string where
  "known_key = ''vk_abcdefghijklmnopqrstuvwxyz012345''"

definition known_key_bytes :: "byte list" where
  "known_key_bytes =
    [118, 107, 95, 97, 98, 99, 100, 101, 102, 103, 104, 105, 106, 107, 108, 109, 110, 111,
     112, 113, 114, 115, 116, 117, 118, 119, 120, 121, 122, 48, 49, 50, 51, 52, 53]"

definition known_key_schedule :: "word32 list" where
  "known_key_schedule =
    [1986748257, 1650680933, 1718052969, 1785425005, 1852797041, 1920169077, 1987541113, 2049978674,
     859059584, 0, 0, 0, 0, 0, 0, 280,
     2516406845, 1730993833, 1986416973, 2450598950, 2327433686, 1214443480, 2976492760, 1167301387,
     2117871899, 895221738, 599952377, 180280527, 1559115027, 1734768791, 1377212819, 2929190544,
     3570021561, 2601823508, 4069766117, 2051369011, 2755508384, 2146735923, 3295306386, 658186211,
     3283499939, 1756727844, 2702101726, 3282696080, 1489464725, 2069731721, 2716592336, 3596095394,
     3622541132, 2072137621, 2741547177, 2098965844, 3134338643, 1788977493, 4259409151, 3034235785,
     40289484, 1611366740, 490729719, 702620191, 1170901123, 2110755517, 3365300692, 2052507493]"

lemma known_key_schedule:
  "rev (sha256_extend 48 (rev (map sha_word (chunks 3 (sha256_pad known_key_bytes))))) = known_key_schedule"
  by code_simp

lemma known_key_rounds_1: "foldl sha256_round
      sha256_init
      (zip (quarter 0 sha256_k) (quarter 0 known_key_schedule)) =
    (3955696561, 1422536797, 4126871754, 3375578594, 1840129175, 451716142, 498118466, 1729057041)"
  by code_simp

lemma known_key_rounds_2: "foldl sha256_round
      (3955696561, 1422536797, 4126871754, 3375578594, 1840129175, 451716142, 498118466, 1729057041)
      (zip (quarter 1 sha256_k) (quarter 1 known_key_schedule)) =
    (1508953945, 1242668559, 2094669463, 249401077, 1480211379, 1640374816, 1484733010, 4152329433)"
  by code_simp

lemma known_key_rounds_3: "foldl sha256_round
      (1508953945, 1242668559, 2094669463, 249401077, 1480211379, 1640374816, 1484733010, 4152329433)
      (zip (quarter 2 sha256_k) (quarter 2 known_key_schedule)) =
    (3172250320, 1683615057, 2979269582, 1222267359, 2432855732, 1512884371, 1015893752, 583051228)"
  by code_simp

lemma known_key_rounds_4: "foldl sha256_round
      (3172250320, 1683615057, 2979269582, 1222267359, 2432855732, 1512884371, 1015893752, 583051228)
      (zip (quarter 3 sha256_k) (quarter 3 known_key_schedule)) =
    (21075770, 3103225419, 2592083839, 362953452, 1761626176, 2931061452, 1414106136, 3583394460)"
  by code_simp

lemma sha256_known_key: "sha256 known_key_bytes =
    (1800109473, 1952392400, 3605988081, 3136434214, 3121519295, 1236917080, 1942840771, 829886389)"
proof (rule sha256_one_block [OF _ known_key_schedule known_key_rounds_1 known_key_rounds_2
    known_key_rounds_3 known_key_rounds_4])
  show "chunks 63 (sha256_pad known_key_bytes) = [sha256_pad known_key_bytes]" by code_simp
qed (simp_all add: sha256_init_def known_key_schedule_def)

lemma hash_virtual_key_known:
  "hash_virtual_key known_key = ''6b4b7da1745f24d0d6ef02f1baf23026ba0e9abf49b9db5873cd65c331770fb5''"
proof -
  have u: "utf8_encode known_key = known_key_bytes" by code_simp
  have "hexdigest (1800109473, 1952392400, 3605988081, 3136434214, 3121519295, 1236917080, 1942840771, 829886389) =
      ''6b4b7da1745f24d0d6ef02f1baf23026ba0e9abf49b9db5873cd65c331770fb5''"
    by code_simp
  then show ?thesis by (simp add: hash_virtual_key_def u sha256_known_key)
qed

end
