(* ===== verification/TokenConcurrency.thy ===== *)
theory TokenConcurrency
  imports AdminWorld KnownAnswers
begin

section \<open>Token requests side by side\<close>

text \<open>
  The token service is a Lambda function: calls run at the same time and share the ledger and the
  cache. Here a call of \<open>get_or_create_key\<close> is a state machine whose steps are its accesses to a
  store, each atomic, and a system is the stores with the calls under way. Steps of the calls
  interleave with keys being deactivated and caches emptied. One call alone is the function of
  \<open>TokenIssue\<close>; what holds of one call at a time need not hold of several.
\<close>

datatype Phase =
    AtCache
  | AtUser
  | AtLedger UserRecord
  | AtReuse UserRecord VirtualKeyRecord
  | AtSave UserRecord
  | AtCachePut UserRecord
  | Finished "TokenIssueResult res"

record Call =
  cl_user :: string
  cl_request_id :: string
  cl_env :: IssueEnv
  cl_phase :: Phase

definition new_call :: "string \<Rightarrow> string \<Rightarrow> IssueEnv \<Rightarrow> Call" where
  "new_call u rid env = \<lparr>cl_user = u, cl_request_id = rid, cl_env = env, cl_phase = AtCache\<rparr>"

definition issued_result :: "VirtualKeyRecord \<Rightarrow> UserRecord \<Rightarrow> string \<Rightarrow> TokenIssueResult" where
  "issued_result k user virtual_key =
     \<lparr>ti_virtual_key = virtual_key, ti_user_id = ur_id user, ti_key_id = vk_id k,
      ti_key_prefix = vk_key_prefix k, ti_status = vk_status k, ti_source = ISSUED, ti_expires_at = None\<rparr>"

text \<open>One access to a store, and where the call is then.\<close>

fun advance_from :: "'s IssueService \<Rightarrow> string \<Rightarrow> string \<Rightarrow> IssueEnv \<Rightarrow> Phase \<Rightarrow> 's \<Rightarrow> Phase \<times> 's" where
  "advance_from svc u rid env AtCache s =
     (case is_cache_get svc u (ie_now env) s of
        (Inl e, s') \<Rightarrow> (Finished (Inl e), s')
      | (Inr None, s') \<Rightarrow> (AtUser, s')
      | (Inr (Some e), s') \<Rightarrow> (Finished (bindR (is_decrypt svc (ce_encrypted_key_ref e)) (\<lambda>virtual_key.
          Inr \<lparr>ti_virtual_key = virtual_key, ti_user_id = u, ti_key_id = ce_virtual_key_id e,
               ti_key_prefix = ce_key_prefix e, ti_status = ce_status e, ti_source = CACHE,
               ti_expires_at = None\<rparr>)), s'))"
| "advance_from svc u rid env AtUser s =
     (case require_allowed_user svc u rid s of
        (Inl e, s') \<Rightarrow> (Finished (Inl e), s')
      | (Inr user, s') \<Rightarrow> (AtLedger user, s'))"
| "advance_from svc u rid env (AtLedger user) s =
     (case is_get_active_key svc (ur_id user) s of
        (Inl e, s') \<Rightarrow> (Finished (Inl e), s')
      | (Inr (Some k), s') \<Rightarrow> (AtReuse user k, s')
      | (Inr None, s') \<Rightarrow> (AtSave user, s'))"
| "advance_from svc u rid env (AtReuse user k) s =
     (case cache_key_record svc k (ie_now env) s of
        (Inl e, s') \<Rightarrow> (Finished (Inl e), s')
      | (Inr _, s') \<Rightarrow> (Finished (bindR (is_decrypt svc (vk_encrypted_key_blob k)) (\<lambda>virtual_key.
          Inr \<lparr>ti_virtual_key = virtual_key, ti_user_id = ur_id user, ti_key_id = vk_id k,
               ti_key_prefix = vk_key_prefix k, ti_status = vk_status k, ti_source = REUSED,
               ti_expires_at = vk_expires_at k\<rparr>)), s'))"
| "advance_from svc u rid env (AtSave user) s =
     (case is_save_key svc (new_key_record svc env (ur_id user)) s of
        (Inl e, s') \<Rightarrow> (Finished (Inl e), s')
      | (Inr _, s') \<Rightarrow> (AtCachePut user, s'))"
| "advance_from svc u rid env (AtCachePut user) s =
     (case cache_key_record svc (new_key_record svc env (ur_id user)) (ie_now env) s of
        (Inl e, s') \<Rightarrow> (Finished (Inl e), s')
      | (Inr _, s') \<Rightarrow> (Finished (Inr (issued_result (new_key_record svc env (ur_id user)) user
          (ie_generated_key env))), s'))"
| "advance_from svc u rid env (Finished r) s = (Finished r, s)"

fun run_phases :: "nat \<Rightarrow> 's IssueService \<Rightarrow> string \<Rightarrow> string \<Rightarrow> IssueEnv \<Rightarrow> Phase \<Rightarrow> 's \<Rightarrow> Phase \<times> 's" where
  "run_phases 0 svc u rid env p s = (p, s)"
| "run_phases (Suc n) svc u rid env p s =
     (case advance_from svc u rid env p s of (p', s') \<Rightarrow> run_phases n svc u rid env p' s')"

lemma run_finished: "run_phases n svc u rid env (Finished r) s = (Finished r, s)"
  by (induction n) simp_all

lemma run_phases_add:
  "run_phases (m + n) svc u rid env p s =
     (case run_phases m svc u rid env p s of (p', s') \<Rightarrow> run_phases n svc u rid env p' s')"
  by (induction m arbitrary: p s) (simp_all split: prod.split)

lemma run_five:
  "run_phases 5 svc u rid env AtCache s =
     (Finished (fst (get_or_create_key svc env u rid s)), snd (get_or_create_key svc env u rid s))"
proof -
  have five: "run_phases 5 svc u rid env p s = run_phases (Suc (Suc (Suc (Suc (Suc 0))))) svc u rid env p s" for p
    by (simp add: numeral_eq_Suc)
  show ?thesis unfolding five
    by (auto simp: get_or_create_key_def bindM_def issue_new_key_def issued_result_def Let_def run_finished
        simp del: run_phases.simps(1) split: prod.split sum.split option.split)
qed

text \<open>
  The state machine is the service. Left alone, a call finishes after five accesses
  at most, whatever the stores answer, with the result and the state of \<open>get_or_create_key\<close>, and
  no further step changes either.
\<close>

lemma call_alone_is_service:
  "run_phases (5 + n) svc u rid env AtCache s =
     (Finished (fst (get_or_create_key svc env u rid s)), snd (get_or_create_key svc env u rid s))"
  by (simp only: run_phases_add run_five prod.case run_finished)

subsection \<open>Systems\<close>

record System =
  sy_world :: World
  sy_calls :: "Call list"

definition advance :: "datetime \<Rightarrow> Call \<Rightarrow> World \<Rightarrow> Phase \<times> World" where
  "advance ttl c w = advance_from (token_service ttl) (cl_user c) (cl_request_id c) (cl_env c) (cl_phase c) w"

text \<open>
  Identifiers drawn are UUIDs. A key is deactivated by saving its record with another status, as
  the life cycle service does before it empties the cache.
\<close>

inductive system_step ::
    "datetime \<Rightarrow> (VirtualKeyRecord \<Rightarrow> (World, unit) op) \<Rightarrow> System \<Rightarrow> System \<Rightarrow> bool" for ttl save where
  arrive: "uuid_in (ie_uuid env) = Some (ie_uuid env) \<Longrightarrow>
    system_step ttl save \<lparr>sy_world = w, sy_calls = cs\<rparr>
      \<lparr>sy_world = w, sy_calls = cs @ [new_call u rid env]\<rparr>"
| access: "i < length cs \<Longrightarrow> advance ttl (cs ! i) w = (p, w') \<Longrightarrow>
    system_step ttl save \<lparr>sy_world = w, sy_calls = cs\<rparr>
      \<lparr>sy_world = w', sy_calls = cs[i := (cs ! i)\<lparr>cl_phase := p\<rparr>]\<rparr>"
| deactivate: "k \<in> world_keys w \<Longrightarrow> st \<noteq> ACTIVE \<Longrightarrow>
    save (k\<lparr>vk_status := st, vk_revoked_at := t\<rparr>) w = (Inr (), w') \<Longrightarrow>
    system_step ttl save \<lparr>sy_world = w, sy_calls = cs\<rparr> \<lparr>sy_world = w', sy_calls = cs\<rparr>"
| empty_cache: "world_invalidate u w = (Inr (), w') \<Longrightarrow>
    system_step ttl save \<lparr>sy_world = w, sy_calls = cs\<rparr> \<lparr>sy_world = w', sy_calls = cs\<rparr>"

inductive_cases system_stepE: "system_step ttl save sys sys'"

subsection \<open>What holds under every interleaving\<close>

text \<open>The ledger has a record of this user with this identifier and envelope, whatever its status.\<close>

definition has_key :: "World \<Rightarrow> string \<Rightarrow> string \<Rightarrow> string \<Rightarrow> bool" where
  "has_key w u i blob \<longleftrightarrow> (\<exists>k \<in> world_keys w. vk_user_id k = u \<and> vk_id k = i \<and> vk_encrypted_key_blob k = blob)"

fun phase_ok :: "World \<Rightarrow> string \<Rightarrow> IssueEnv \<Rightarrow> Phase \<Rightarrow> bool" where
  "phase_ok w u env AtCache = True"
| "phase_ok w u env AtUser = True"
| "phase_ok w u env (AtLedger user) = (ur_id user = u)"
| "phase_ok w u env (AtReuse user k) = (ur_id user = u \<and> vk_user_id k = u \<and>
     has_key w u (vk_id k) (vk_encrypted_key_blob k))"
| "phase_ok w u env (AtSave user) = (ur_id user = u)"
| "phase_ok w u env (AtCachePut user) = (ur_id user = u \<and>
     has_key w u (ie_uuid env) (simple_encrypt (ie_generated_key env)))"
| "phase_ok w u env (Finished (Inl e)) = True"
| "phase_ok w u env (Finished (Inr r)) = (ti_user_id r = u \<and>
     has_key w u (ti_key_id r) (simple_encrypt (ti_virtual_key r)))"

definition call_ok :: "World \<Rightarrow> Call \<Rightarrow> bool" where
  "call_ok w c \<longleftrightarrow> uuid_in (ie_uuid (cl_env c)) = Some (ie_uuid (cl_env c)) \<and>
     phase_ok w (cl_user c) (cl_env c) (cl_phase c)"

definition stores_ok :: "World \<Rightarrow> bool" where
  "stores_ok w \<longleftrightarrow> world_ok w \<and> (\<forall>k \<in> world_keys w. sealed_record k) \<and>
     (\<forall>u now e. fst (world_cache_get u now w) = Inr (Some e) \<longrightarrow>
        has_key w u (ce_virtual_key_id e) (ce_encrypted_key_ref e))"

definition system_ok :: "System \<Rightarrow> bool" where
  "system_ok sys \<longleftrightarrow> stores_ok (sy_world sys) \<and> (\<forall>c \<in> set (sy_calls sys). call_ok (sy_world sys) c)"

text \<open>Keys stay: none of the steps loses a record, though its status may change.\<close>

definition keeps_keys :: "World \<Rightarrow> World \<Rightarrow> bool" where
  "keeps_keys w w' \<longleftrightarrow> (\<forall>u i b. has_key w u i b \<longrightarrow> has_key w' u i b)"

lemma keeps_keys_subset: "world_keys w \<subseteq> world_keys w' \<Longrightarrow> keeps_keys w w'"
  by (auto simp: keeps_keys_def has_key_def)

lemma phase_ok_keeps: "phase_ok w u env p \<Longrightarrow> keeps_keys w w' \<Longrightarrow> phase_ok w' u env p"
  by (cases "(w, u, env, p)" rule: phase_ok.cases) (auto simp: keeps_keys_def)

lemma call_ok_keeps: "call_ok w c \<Longrightarrow> keeps_keys w w' \<Longrightarrow> call_ok w' c"
  by (auto simp: call_ok_def phase_ok_keeps)

lemma has_key_decrypt:
  assumes "stores_ok w" and "has_key w u i blob" and "simple_decrypt blob = Inr v"
  shows "has_key w u i (simple_encrypt v)"
proof -
  obtain k where k: "k \<in> world_keys w" "vk_user_id k = u" "vk_id k = i" "vk_encrypted_key_blob k = blob"
    using assms(2) by (auto simp: has_key_def)
  obtain x where "blob = simple_encrypt x"
    using assms(1) k(1,4) unfolding stores_ok_def sealed_record_def by blast
  then show ?thesis using assms(2,3) by (simp add: envelope.decrypt_encrypt)
qed

text \<open>Writing the cache entry of a record the ledger has.\<close>

lemma cache_put_ok:
  assumes "stores_ok w" and "has_key w (vk_user_id k) (vk_id k) (vk_encrypted_key_blob k)"
    and "cache_key_record (token_service ttl) k now w = (r, w')"
  shows "stores_ok w' \<and> keeps_keys w w'"
proof (cases r)
  case (Inl e)
  then have "w' = w" using assms(3) world_issue.put_fail by (simp add: cache_key_record_def)
  then show ?thesis using assms(1) by (simp add: keeps_keys_def)
next
  case (Inr x)
  let ?e = "cache_entry_of (token_service ttl) k now"
  have put: "world_cache_put ?e w = (Inr (), w')" using Inr assms(3) by (simp add: cache_key_record_def)
  have ks: "world_keys w' = world_keys w" "world_ok w' = world_ok w" using world_issue.put_keeps [OF put] by auto
  have hk: "has_key w' = has_key w" by (simp add: has_key_def ks fun_eq_iff)
  have "has_key w' u (ce_virtual_key_id e) (ce_encrypted_key_ref e)"
    if "fst (world_cache_get u t w') = Inr (Some e)" for u t e
  proof (cases "u = vk_user_id k")
    case True
    then have "e = ?e" using world_cache.get_put [OF put, of t] that
      by (auto simp: world_issue.cache_entry_fields split: if_splits)
    then show ?thesis using True assms(2) by (simp add: hk world_issue.cache_entry_fields)
  next
    case False
    then have "fst (world_cache_get u t w) = Inr (Some e)"
      using world_cache.get_put_other [OF put, of u t] that by (simp add: world_issue.cache_entry_fields)
    then show ?thesis using assms(1) by (auto simp: stores_ok_def hk)
  qed
  then show ?thesis using assms(1) ks keeps_keys_subset [of w w'] by (auto simp: stores_ok_def)
qed

lemma save_new_ok:
  assumes "stores_ok w" and "uuid_in (ie_uuid env) = Some (ie_uuid env)"
    and "world_save_key (new_key_record (token_service ttl) env u) w = (r, w')"
  shows "stores_ok w' \<and> keeps_keys w w' \<and>
    (r = Inr () \<longrightarrow> has_key w' u (ie_uuid env) (simple_encrypt (ie_generated_key env)))"
proof (cases r)
  case (Inl e)
  then have "w' = w" using assms(3) world_ledger.save_fail by blast
  then show ?thesis using assms(1) Inl by (simp add: keeps_keys_def)
next
  case (Inr x)
  let ?k = "new_key_record (token_service ttl) env u"
  have sv: "world_save_key ?k w = (Inr (), w')" using Inr assms(3) by simp
  have ok: "world_ok w" using assms(1) by (simp add: stores_ok_def)
  have st: "storable_id ?k" using assms(2) by (simp add: storable_new)
  have ks: "world_ok w'" "world_keys w' = insert ?k (world_keys w)"
    using world_ledger.save_ok [OF ok st sv] by auto
  have kk: "keeps_keys w w'" by (rule keeps_keys_subset) (auto simp: ks)
  have "sealed_record ?k" by (auto simp: sealed_record_def world_issue.new_key_record_fields)
  moreover have "has_key w' v (ce_virtual_key_id e) (ce_encrypted_key_ref e)"
    if "fst (world_cache_get v t w') = Inr (Some e)" for v t e
    using that world_issue.save_keeps [OF sv] assms(1) kk by (auto simp: stores_ok_def keeps_keys_def)
  ultimately have "stores_ok w'" using assms(1) ks by (auto simp: stores_ok_def)
  moreover have "has_key w' u (ie_uuid env) (simple_encrypt (ie_generated_key env))"
    unfolding has_key_def ks(2) by (auto simp: world_issue.new_key_record_fields)
  ultimately show ?thesis using kk by blast
qed

lemma keeps_keys_refl [simp]: "keeps_keys w w"
  by (simp add: keeps_keys_def)

lemma access_ok:
  assumes ok: "stores_ok w" and uuid: "uuid_in (ie_uuid env) = Some (ie_uuid env)" and ph: "phase_ok w u env p"
    and run: "advance_from (token_service ttl) u rid env p w = (p', w')"
  shows "stores_ok w' \<and> keeps_keys w w' \<and> phase_ok w' u env p'"
proof (cases p)
  case AtCache
  obtain r where r: "world_cache_get u (ie_now env) w = (r, w)" using world_issue.get_run by blast
  have hit: "has_key w u (ce_virtual_key_id e) (ce_encrypted_key_ref e)" if "r = Inr (Some e)" for e
    using ok that r unfolding stores_ok_def by (metis fst_conv)
  show ?thesis
  proof (cases r)
    case (Inl e)
    then show ?thesis using run r AtCache ok by auto
  next
    case (Inr found)
    then show ?thesis using run r AtCache ok hit has_key_decrypt [OF ok hit]
      by (cases found) (auto simp: bindR_def split: sum.split)
  qed
next
  case AtUser
  obtain r t where r: "require_allowed_user (token_service ttl) u rid w = (r, t)" by force
  have t: "t = w" using r world_issue.require_allowed_user_Inr world_issue.require_allowed_user_Inl
    by (cases r) blast+
  have "ur_id x = u" if "r = Inr x" for x using that r world_issue.require_allowed_user_Inr by blast
  then show ?thesis using run AtUser r t ok by (cases r) auto
next
  case (AtLedger user)
  obtain x where x: "world_get_active u w = (Inr x, w)"
    using world_ledger.get_active_total ok unfolding stores_ok_def by blast
  have "k \<in> world_keys w \<and> vk_user_id k = u" if "x = Some k" for k
    using world_ledger.get_active_Some x that ok unfolding stores_ok_def by blast
  then show ?thesis using run AtLedger x ph ok by (cases x) (auto simp: has_key_def)
next
  case (AtReuse user k)
  obtain r t where r: "cache_key_record (token_service ttl) k (ie_now env) w = (r, t)" by force
  have k: "vk_user_id k = u" "ur_id user = u" "has_key w u (vk_id k) (vk_encrypted_key_blob k)"
    using ph AtReuse by simp_all
  have s: "stores_ok t" "keeps_keys w t" using cache_put_ok [OF ok _ r] k by auto
  then have "has_key t u (vk_id k) (vk_encrypted_key_blob k)" using k(3) by (simp add: keeps_keys_def)
  then show ?thesis using run AtReuse r s k has_key_decrypt [OF s(1)]
    by (cases r) (auto simp: bindR_def split: sum.split)
next
  case (AtSave user)
  obtain r t where r: "world_save_key (new_key_record (token_service ttl) env u) w = (r, t)" by force
  show ?thesis using run AtSave r ph save_new_ok [OF ok uuid r] by (cases r) auto
next
  case (AtCachePut user)
  let ?k = "new_key_record (token_service ttl) env u"
  obtain r t where r: "cache_key_record (token_service ttl) ?k (ie_now env) w = (r, t)" by force
  have k: "ur_id user = u" "has_key w u (ie_uuid env) (simple_encrypt (ie_generated_key env))"
    using ph AtCachePut by simp_all
  have s: "stores_ok t" "keeps_keys w t"
    using cache_put_ok [OF ok _ r] k by (auto simp: world_issue.new_key_record_fields)
  then have "has_key t u (ie_uuid env) (simple_encrypt (ie_generated_key env))"
    using k(2) by (simp add: keeps_keys_def)
  then show ?thesis using run AtCachePut r s k
    by (cases r) (auto simp: issued_result_def world_issue.new_key_record_fields)
next
  case (Finished r)
  then show ?thesis using run ok ph by auto
qed

lemma deactivate_ok:
  assumes "stores_ok w" and "replaces_keys save" and k: "k \<in> world_keys w"
    and "save (k\<lparr>vk_status := st, vk_revoked_at := t\<rparr>) w = (Inr (), w')"
  shows "stores_ok w' \<and> keeps_keys w w'"
proof -
  let ?r = "k\<lparr>vk_status := st, vk_revoked_at := t\<rparr>"
  have ok: "world_ok w" using assms(1) by (simp add: stores_ok_def)
  have "\<exists>w''. save ?r w = (Inr (), w'') \<and> world_ok w'' \<and> world_keys w'' = insert ?r (world_keys w - {k}) \<and>
      w_cache w'' = w_cache w \<and> db_users (w_db w'') = db_users (w_db w)"
    using assms(2) ok k unfolding replaces_keys_def by simp
  then have w': "world_ok w'" "world_keys w' = insert ?r (world_keys w - {k})" "w_cache w' = w_cache w"
    using assms(4) by auto
  have kk: "keeps_keys w w'"
    unfolding keeps_keys_def has_key_def w'(2)
  proof (intro allI impI)
    fix u i b assume "\<exists>x \<in> world_keys w. vk_user_id x = u \<and> vk_id x = i \<and> vk_encrypted_key_blob x = b"
    then obtain x where "x \<in> world_keys w" "vk_user_id x = u" "vk_id x = i" "vk_encrypted_key_blob x = b" by blast
    then show "\<exists>x \<in> insert ?r (world_keys w - {k}). vk_user_id x = u \<and> vk_id x = i \<and> vk_encrypted_key_blob x = b"
      by (cases "x = k") auto
  qed
  have "fst (world_cache_get u now w') = fst (world_cache_get u now w)" for u now
    using w'(3) by (simp add: world_cache_get_def on_cache_def split: prod.split)
  moreover have "sealed_record x" if "x \<in> world_keys w'" for x
    using that assms(1) k unfolding w'(2) stores_ok_def sealed_record_def by auto
  ultimately show ?thesis using assms(1) w'(1) kk by (auto simp: stores_ok_def keeps_keys_def)
qed

lemma empty_cache_ok:
  assumes "stores_ok w" and "world_invalidate u w = (Inr (), w')"
  shows "stores_ok w' \<and> keeps_keys w w'"
proof -
  obtain c where w': "w' = w\<lparr>w_cache := c\<rparr>" using world_invalidate_run [of u w] assms(2) by auto
  have ks: "world_keys w' = world_keys w" "world_ok w' = world_ok w"
    by (simp_all add: w' world_keys_def world_ok_def)
  have hk: "has_key w' = has_key w" by (simp add: has_key_def ks fun_eq_iff)
  have "has_key w v (ce_virtual_key_id e) (ce_encrypted_key_ref e)"
    if "fst (world_cache_get v t w') = Inr (Some e)" for v t e
    using that world_cache.get_invalidate [OF assms(2), of t] world_cache.get_invalidate_other [OF assms(2), of v t] assms(1)
    by (cases "v = u") (auto simp: stores_ok_def)
  then show ?thesis using assms(1) ks hk keeps_keys_subset [of w w'] by (simp add: stores_ok_def)
qed

lemma system_step_ok:
  assumes "system_step ttl save sys sys'" and "replaces_keys save" and "system_ok sys"
  shows "system_ok sys'"
  using assms(1)
proof cases
  case (arrive env w cs u rid)
  then show ?thesis using assms(3) by (auto simp: system_ok_def call_ok_def new_call_def)
next
  case (access i cs w p w')
  have c: "call_ok w (cs ! i)" "stores_ok w" using assms(3) access by (auto simp: system_ok_def)
  have *: "stores_ok w' \<and> keeps_keys w w' \<and> phase_ok w' (cl_user (cs ! i)) (cl_env (cs ! i)) p"
    by (rule access_ok [OF c(2), where rid = "cl_request_id (cs ! i)" and p = "cl_phase (cs ! i)" and ttl = ttl])
      (use c(1) access(4) in \<open>simp_all add: call_ok_def advance_def\<close>)
  have "call_ok w' d" if d: "d \<in> set (cs[i := (cs ! i)\<lparr>cl_phase := p\<rparr>])" for d
  proof -
    consider "d = (cs ! i)\<lparr>cl_phase := p\<rparr>" | "d \<in> set cs"
      using subsetD [OF set_update_subset_insert d] by blast
    then show ?thesis
    proof cases
      case 1
      then show ?thesis using * c(1) by (simp add: call_ok_def)
    next
      case 2
      then have "call_ok w d" using assms(3) access(1) by (simp add: system_ok_def)
      then show ?thesis using * call_ok_keeps by blast
    qed
  qed
  then show ?thesis using * access(2) by (simp add: system_ok_def)
next
  case (deactivate k w st t w' cs)
  have w: "stores_ok w" using assms(3) deactivate by (simp add: system_ok_def)
  show ?thesis using deactivate_ok [OF w assms(2) deactivate(3) deactivate(5)] assms(3) call_ok_keeps deactivate(1,2)
    by (auto simp: system_ok_def)
next
  case (empty_cache u w w' cs)
  have w: "stores_ok w" using assms(3) empty_cache by (simp add: system_ok_def)
  show ?thesis using empty_cache_ok [OF w empty_cache(3)] assms(3) call_ok_keeps empty_cache(1,2)
    by (auto simp: system_ok_def)
qed

lemma system_reachable_ok:
  assumes "(system_step ttl save)\<^sup>*\<^sup>* sys sys'" and "replaces_keys save" and "system_ok sys"
  shows "system_ok sys'"
  using assms(1,3) by (induction rule: rtranclp_induct) (auto intro: system_step_ok [OF _ assms(2)])

lemma good_stores_ok: "world_good w \<Longrightarrow> stores_ok w"
  unfolding world_good_def stores_ok_def cache_coherent_def has_key_def by metis

text \<open>
  Property C15: however token requests, revocations and cache invalidations interleave, a key is
  handed out only to its user. Every call that has finished with a key has one whose record in
  the ledger is the caller's, under the identifier returned; and the proxy, should it accept the
  key, takes the bearer for that user and for no other.
\<close>

theorem interleaved_calls_isolated:
  assumes "(system_step ttl save)\<^sup>*\<^sup>* \<lparr>sy_world = w0, sy_calls = []\<rparr> sys" and "world_good w0"
    and "replaces_keys save" and "c \<in> set (sy_calls sys)" and "cl_phase c = Finished (Inr r)"
  shows "(\<exists>k \<in> world_keys (sy_world sys). vk_id k = ti_key_id r \<and> vk_user_id k = cl_user c \<and>
      vk_key_hash k = hash_virtual_key (ti_virtual_key r)) \<and>
    (\<forall>h rid a w'. extract_virtual_key h rid = Inr (ti_virtual_key r) \<longrightarrow>
       authenticate auth_service h rid (sy_world sys) = (Inr a, w') \<longrightarrow> ur_id (ac_user_record a) = cl_user c)"
proof -
  let ?w = "sy_world sys"
  have "system_ok \<lparr>sy_world = w0, sy_calls = []\<rparr>" using good_stores_ok [OF assms(2)] by (simp add: system_ok_def)
  from system_reachable_ok [OF assms(1,3) this]
  have ok: "stores_ok ?w" "call_ok ?w c" using assms(4) by (simp_all add: system_ok_def)
  have w: "world_ok ?w" using ok(1) by (simp add: stores_ok_def)
  obtain k where k: "k \<in> world_keys ?w" "vk_user_id k = cl_user c" "vk_id k = ti_key_id r"
    "vk_encrypted_key_blob k = simple_encrypt (ti_virtual_key r)"
    using ok(2) assms(5) by (auto simp: call_ok_def has_key_def)
  obtain v where v: "vk_encrypted_key_blob k = simple_encrypt v" "vk_key_hash k = hash_virtual_key v"
    using ok(1) k(1) unfolding stores_ok_def sealed_record_def by blast
  have "v = ti_virtual_key r" using v(1) k(4) by (metis envelope.decrypt_encrypt sum.inject(2))
  then have h: "vk_key_hash k = hash_virtual_key (ti_virtual_key r)" using v(2) by simp
  have "ur_id (ac_user_record a) = cl_user c"
    if e: "extract_virtual_key hd rid = Inr (ti_virtual_key r)"
      and a: "authenticate auth_service hd rid ?w = (Inr a, w')" for hd rid a w'
  proof -
    obtain k' u where k': "k' \<in> world_keys ?w" "vk_key_hash k' = hash_virtual_key (ti_virtual_key r)"
      "world_find_user (vk_user_id k') ?w = Some u" "ac_user_record a = u"
      using e a unfolding world_auth.authenticate_iff [OF w] by (auto simp: restore_trusted_request_context_def)
    have "k' = k" using world_ledger.hash_inj [OF w k'(1) k(1)] k'(2) h by simp
    then show ?thesis using world_auth.find_user_id [OF k'(3)] k'(4) k(2) by simp
  qed
  then show ?thesis using k h by blast
qed

text \<open>The accesses of one call, with no other step between them.\<close>

lemma run_reachable:
  assumes "i < length cs"
    and "run_phases n (token_service ttl) (cl_user (cs ! i)) (cl_request_id (cs ! i)) (cl_env (cs ! i))
      (cl_phase (cs ! i)) w = (p, w')"
  shows "(system_step ttl save)\<^sup>*\<^sup>* \<lparr>sy_world = w, sy_calls = cs\<rparr>
    \<lparr>sy_world = w', sy_calls = cs[i := (cs ! i)\<lparr>cl_phase := p\<rparr>]\<rparr>"
  using assms
proof (induction n arbitrary: cs w)
  case 0
  then have "p = cl_phase (cs ! i)" "w' = w" by auto
  then have "cs[i := (cs ! i)\<lparr>cl_phase := p\<rparr>] = cs" by simp
  then show ?case using \<open>w' = w\<close> by simp
next
  case (Suc n)
  obtain q v where a: "advance ttl (cs ! i) w = (q, v)" by force
  let ?cs = "cs[i := (cs ! i)\<lparr>cl_phase := q\<rparr>]"
  have "run_phases n (token_service ttl) (cl_user (?cs ! i)) (cl_request_id (?cs ! i)) (cl_env (?cs ! i))
      (cl_phase (?cs ! i)) v = (p, w')"
    using Suc.prems a by (simp add: advance_def)
  from Suc.IH [OF _ this] Suc.prems(1)
  have "(system_step ttl save)\<^sup>*\<^sup>* \<lparr>sy_world = v, sy_calls = ?cs\<rparr>
      \<lparr>sy_world = w', sy_calls = cs[i := (cs ! i)\<lparr>cl_phase := p\<rparr>]\<rparr>" by simp
  then show ?case using system_step.access [OF Suc.prems(1) a] by (rule converse_rtranclp_into_rtranclp [rotated])
qed

lemma arrivals_reachable:
  assumes "uuid_in (ie_uuid e) = Some (ie_uuid e)" and "uuid_in (ie_uuid e') = Some (ie_uuid e')"
  shows "(system_step ttl save)\<^sup>*\<^sup>* \<lparr>sy_world = w, sy_calls = []\<rparr>
    \<lparr>sy_world = w, sy_calls = [new_call u rid e, new_call u rid' e']\<rparr>"
  using system_step.arrive [OF assms(1), of ttl save w "[]" u rid]
    system_step.arrive [OF assms(2), of ttl save w "[new_call u rid e]" u rid']
  by (auto intro: converse_rtranclp_into_rtranclp)

lemma save_new_run:
  assumes "world_ok w" and "uuid_in (ie_uuid env) = Some (ie_uuid env)"
    and "ie_uuid env \<notin> vk_id ` world_keys w"
    and "hash_virtual_key (ie_generated_key env) \<notin> vk_key_hash ` world_keys w"
    and "u \<in> us_id ` set (db_users (w_db w))" and "length u \<le> 128"
  shows "\<exists>w'. world_save_key (new_key_record (token_service ttl) env u) w = (Inr (), w') \<and>
    world_ok w' \<and> world_keys w' = insert (new_key_record (token_service ttl) env u) (world_keys w) \<and>
    db_users (w_db w') = db_users (w_db w)"
proof -
  let ?k = "new_key_record (token_service ttl) env u"
  let ?rows = "db_virtual_keys (w_db w)"
  have flds: "vk_id (the_record x) = kr_id x" "vk_key_hash (the_record x) = kr_key_hash x" if "x \<in> set ?rows" for x
    using the_record_fields [OF db_ok_row] assms(1) that by (auto simp: world_ok_def)
  have n: "ie_uuid env \<notin> kr_id ` set ?rows" "hash_virtual_key (ie_generated_key env) \<notin> kr_key_hash ` set ?rows"
    using assms(3,4) flds by (auto simp: world_keys_def db_keys_def image_iff)
  have "save_virtual_key ?k (w_db w) =
      (Inr (), (w_db w)\<lparr>db_virtual_keys := ?rows @ [record_to_row (ie_uuid env) ?k]\<rparr>)"
    using assms(2,5,6) n
    by (simp add: save_virtual_key_defs new_key_record_def Let_def record_to_row_def varchar_ok_def
        get_virtual_key_prefix_def VISIBLE_KEY_PREFIX_LENGTH_def)
  then obtain w' where w': "world_save_key ?k w = (Inr (), w')" "db_users (w_db w') = db_users (w_db w)"
    by (auto simp: world_save_key_def on_db_def)
  have "storable_id ?k" using assms(2) by (simp add: storable_new)
  from world_ledger.save_ok [OF assms(1) this w'(1)] w' show ?thesis by blast
qed

lemma put_new_run:
  "\<exists>w'. cache_key_record (token_service ttl) k now w = (Inr (), w') \<and> w_db w' = w_db w"
  by (simp add: cache_key_record_def world_cache_put_def on_cache_def dynamo_cache_put_run
      world_issue.svc_fields)

subsection \<open>What does not hold under every interleaving\<close>

text \<open>An environment whose identifier and key the ledger does not have yet.\<close>

definition fresh_env :: "World \<Rightarrow> IssueEnv \<Rightarrow> bool" where
  "fresh_env w env \<longleftrightarrow> uuid_in (ie_uuid env) = Some (ie_uuid env) \<and> ie_uuid env \<notin> vk_id ` world_keys w \<and>
     hash_virtual_key (ie_generated_key env) \<notin> vk_key_hash ` world_keys w"

lemma first_request_reads:
  assumes "world_get_user u w = (Inr (Some x), w)" and "ur_proxy_access_enabled x" and "ur_is_active x"
    and "world_get_active u w = (Inr None, w)" and "world_cache_get u (ie_now env) w = (Inr None, w)"
  shows "run_phases 3 (token_service ttl) u rid env AtCache w = (AtSave x, w)" and "ur_id x = u"
proof -
  show x: "ur_id x = u" using world_issue.lookup_user_id [OF assms(1)] .
  have "require_allowed_user (token_service ttl) u rid w = (Inr x, w)"
    using assms(1-3) by (simp add: require_allowed_user_def)
  then show "run_phases 3 (token_service ttl) u rid env AtCache w = (AtSave x, w)"
    using assms(4,5) x by (simp add: numeral_eq_Suc)
qed

lemma first_request_writes:
  assumes "world_ok w" and "fresh_env w env" and "u \<in> us_id ` set (db_users (w_db w))" and "length u \<le> 128"
    and "ur_id x = u"
  shows "\<exists>w'. run_phases 2 (token_service ttl) u rid env (AtSave x) w =
      (Finished (Inr (issued_result (new_key_record (token_service ttl) env u) x (ie_generated_key env))), w') \<and>
    world_ok w' \<and> world_keys w' = insert (new_key_record (token_service ttl) env u) (world_keys w) \<and>
    db_users (w_db w') = db_users (w_db w)"
proof -
  let ?k = "new_key_record (token_service ttl) env u"
  obtain v where v: "world_save_key ?k w = (Inr (), v)" "world_ok v" "world_keys v = insert ?k (world_keys w)"
    "db_users (w_db v) = db_users (w_db w)"
    using save_new_run [OF assms(1) _ _ _ assms(3,4)] assms(2) unfolding fresh_env_def by blast
  obtain w' where w': "cache_key_record (token_service ttl) ?k (ie_now env) v = (Inr (), w')" "w_db w' = w_db v"
    using put_new_run by blast
  then show ?thesis using v assms(5) by (auto simp: numeral_eq_Suc world_ok_def world_keys_def)
qed

text \<open>
  Property C16: two first requests of a user that run side by side both issue a key. The ledger is
  read and written in two accesses, and its schema lets a user have several active keys: from a
  good state the service reaches one in which the user has two, and each caller holds its own.
\<close>

theorem concurrent_first_requests_issue_two_keys:
  assumes "world_good w" and "world_get_user u w = (Inr (Some x), w)" and "ur_proxy_access_enabled x"
    and "ur_is_active x" and "length u \<le> 128" and "world_get_active u w = (Inr None, w)"
    and "world_cache_get u (ie_now e) w = (Inr None, w)" and "world_cache_get u (ie_now e') w = (Inr None, w)"
    and "fresh_env w e" and "fresh_env w e'" and "ie_uuid e \<noteq> ie_uuid e'"
    and "hash_virtual_key (ie_generated_key e) \<noteq> hash_virtual_key (ie_generated_key e')"
  shows "\<exists>w' c c' r r'. (system_step ttl save)\<^sup>*\<^sup>* \<lparr>sy_world = w, sy_calls = []\<rparr> \<lparr>sy_world = w', sy_calls = [c, c']\<rparr> \<and>
    cl_user c = u \<and> cl_phase c = Finished (Inr r) \<and> ti_virtual_key r = ie_generated_key e \<and>
    cl_user c' = u \<and> cl_phase c' = Finished (Inr r') \<and> ti_virtual_key r' = ie_generated_key e' \<and>
    world_ok w' \<and> \<not> one_active_key w'"
proof -
  let ?svc = "token_service ttl"
  let ?c = "new_call u ''1'' e" and ?d = "new_call u ''2'' e'"
  let ?k = "new_key_record ?svc e u" and ?l = "new_key_record ?svc e' u"
  let ?r = "issued_result ?k x (ie_generated_key e)" and ?r' = "issued_result ?l x (ie_generated_key e')"
  let ?c1 = "?c\<lparr>cl_phase := AtSave x\<rparr>" and ?d1 = "?d\<lparr>cl_phase := AtSave x\<rparr>"
  let ?c2 = "?c\<lparr>cl_phase := Finished (Inr ?r)\<rparr>" and ?d2 = "?d\<lparr>cl_phase := Finished (Inr ?r')\<rparr>"
  have reads: "run_phases 3 ?svc u rid e AtCache w = (AtSave x, w)" "run_phases 3 ?svc u rid e' AtCache w = (AtSave x, w)"
    and x: "ur_id x = u" for rid
    using first_request_reads [OF assms(2-4,6)] assms(7,8) by auto
  have user: "u \<in> us_id ` set (db_users (w_db w))"
    using assms(2) by (auto simp: world_get_user_def on_db_eq dest: Stores.get_user_id)
  have ok: "world_ok w" using assms(1) by (simp add: world_good_def)
  obtain v where v: "run_phases 2 ?svc u ''1'' e (AtSave x) w = (Finished (Inr ?r), v)" "world_ok v"
    "world_keys v = insert ?k (world_keys w)" "db_users (w_db v) = db_users (w_db w)"
    using first_request_writes [OF ok assms(9) user assms(5) x] by blast
  have "fresh_env v e'"
    using assms(10-12) unfolding fresh_env_def v(3) by (auto simp: world_issue.new_key_record_fields)
  moreover have "u \<in> us_id ` set (db_users (w_db v))" using user v(4) by simp
  ultimately obtain w' where w': "run_phases 2 ?svc u ''2'' e' (AtSave x) v = (Finished (Inr ?r'), w')"
    "world_ok w'" "world_keys w' = insert ?l (world_keys v)"
    using first_request_writes [OF v(2) _ _ assms(5) x] by blast
  let ?S = "system_step ttl save"
  have "?S\<^sup>*\<^sup>* \<lparr>sy_world = w, sy_calls = []\<rparr> \<lparr>sy_world = w, sy_calls = [?c, ?d]\<rparr>"
    by (rule arrivals_reachable) (use assms(9,10) in \<open>simp_all add: fresh_env_def\<close>)
  moreover have "?S\<^sup>*\<^sup>* \<lparr>sy_world = w, sy_calls = [?c, ?d]\<rparr> \<lparr>sy_world = w, sy_calls = [?c1, ?d]\<rparr>"
    using run_reachable [of 0 "[?c, ?d]" 3 ttl w "AtSave x" w save] reads by (simp add: new_call_def)
  moreover have "?S\<^sup>*\<^sup>* \<lparr>sy_world = w, sy_calls = [?c1, ?d]\<rparr> \<lparr>sy_world = w, sy_calls = [?c1, ?d1]\<rparr>"
    using run_reachable [of 1 "[?c1, ?d]" 3 ttl w "AtSave x" w save] reads by (simp add: new_call_def)
  moreover have "?S\<^sup>*\<^sup>* \<lparr>sy_world = w, sy_calls = [?c1, ?d1]\<rparr> \<lparr>sy_world = v, sy_calls = [?c2, ?d1]\<rparr>"
    using run_reachable [of 0 "[?c1, ?d1]" 2 ttl w "Finished (Inr ?r)" v save] v(1) by (simp add: new_call_def)
  moreover have "?S\<^sup>*\<^sup>* \<lparr>sy_world = v, sy_calls = [?c2, ?d1]\<rparr> \<lparr>sy_world = w', sy_calls = [?c2, ?d2]\<rparr>"
    using run_reachable [of 1 "[?c2, ?d1]" 2 ttl v "Finished (Inr ?r')" w' save] w'(1) by (simp add: new_call_def)
  ultimately have reach: "?S\<^sup>*\<^sup>* \<lparr>sy_world = w, sy_calls = []\<rparr> \<lparr>sy_world = w', sy_calls = [?c2, ?d2]\<rparr>"
    by (blast intro: rtranclp_trans)
  have "?k \<in> world_keys w'" "?l \<in> world_keys w'" "?k \<noteq> ?l"
    using v(3) w'(3) assms(11) by (auto dest: arg_cong [where f = vk_id] simp: world_issue.new_key_record_fields)
  then have "\<not> one_active_key w'"
    unfolding one_active_key_def by (metis world_issue.new_key_record_fields)
  then show ?thesis using reach w'(2) by (force simp: new_call_def issued_result_def)
qed

subsection \<open>The properties at a concrete input\<close>

lemma demo_call_reachable:
  "\<exists>r. (system_step 0 upsert_key)\<^sup>*\<^sup>* \<lparr>sy_world = demo_world, sy_calls = []\<rparr>
     \<lparr>sy_world = demo_issued 0, sy_calls =
        [(new_call ''ana'' ''r1'' (demo_env 0))\<lparr>cl_phase := Finished (Inr r)\<rparr>]\<rparr> \<and> ti_source r = ISSUED"
proof -
  let ?c = "new_call ''ana'' ''r1'' (demo_env 0)"
  obtain r where r: "get_or_create_key (token_service 0) (demo_env 0) ''ana'' ''r1'' demo_world =
      (Inr r, demo_issued 0)" "ti_source r = ISSUED" using demo_issue_run by blast
  have arrives: "(system_step 0 upsert_key)\<^sup>*\<^sup>* \<lparr>sy_world = demo_world, sy_calls = []\<rparr>
      \<lparr>sy_world = demo_world, sy_calls = [?c]\<rparr>"
    using system_step.arrive [OF demo_uuid, of 0 upsert_key demo_world "[]"] by auto
  have "(system_step 0 upsert_key)\<^sup>*\<^sup>* \<lparr>sy_world = demo_world, sy_calls = [?c]\<rparr>
      \<lparr>sy_world = demo_issued 0, sy_calls = [?c\<lparr>cl_phase := Finished (Inr r)\<rparr>]\<rparr>"
    using run_reachable [of 0 "[?c]" 5 0 demo_world "Finished (Inr r)" "demo_issued 0"] r(1)
    by (simp add: new_call_def run_five)
  with arrives r(2) show ?thesis by (meson rtranclp_trans)
qed

lemma interleaved_calls_isolated_witness:
  "\<exists>sys c r k. (system_step 0 upsert_key)\<^sup>*\<^sup>* \<lparr>sy_world = demo_world, sy_calls = []\<rparr> sys \<and>
     c \<in> set (sy_calls sys) \<and> cl_phase c = Finished (Inr r) \<and> k \<in> world_keys (sy_world sys) \<and>
     vk_id k = ti_key_id r \<and> vk_user_id k = ''ana''"
proof -
  let ?c = "new_call ''ana'' ''r1'' (demo_env 0)"
  obtain r where r: "(system_step 0 upsert_key)\<^sup>*\<^sup>* \<lparr>sy_world = demo_world, sy_calls = []\<rparr>
     \<lparr>sy_world = demo_issued 0, sy_calls = [?c\<lparr>cl_phase := Finished (Inr r)\<rparr>]\<rparr>"
    using demo_call_reachable by blast
  have "?c\<lparr>cl_phase := Finished (Inr r)\<rparr> \<in> set (sy_calls
      \<lparr>sy_world = demo_issued 0, sy_calls = [?c\<lparr>cl_phase := Finished (Inr r)\<rparr>]\<rparr>)" by simp
  from interleaved_calls_isolated [OF r demo_good upsert_key_replaces this] r show ?thesis
    by (force simp: new_call_def)
qed

definition demo_second_env :: IssueEnv where
  "demo_second_env = \<lparr>ie_now = 0, ie_generated_key = ''abc'', ie_uuid = ''1b9a7a52-6d7e-4c3f-9a51-0e8d2f4c6b1a''\<rparr>"

lemma demo_fresh: "fresh_env demo_world (demo_env 0)" "fresh_env demo_world demo_second_env"
proof -
  have "uuid_in ''1b9a7a52-6d7e-4c3f-9a51-0e8d2f4c6b1a'' = Some ''1b9a7a52-6d7e-4c3f-9a51-0e8d2f4c6b1a''"
    by code_simp
  moreover have "world_keys demo_world = {}" by (simp add: world_keys_def db_keys_def demo_world_def)
  ultimately show "fresh_env demo_world (demo_env 0)" "fresh_env demo_world demo_second_env"
    using demo_uuid by (simp_all add: fresh_env_def demo_second_env_def)
qed

lemma concurrent_first_requests_issue_two_keys_witness:
  "\<exists>w' calls. (system_step 0 upsert_key)\<^sup>*\<^sup>* \<lparr>sy_world = demo_world, sy_calls = []\<rparr>
     \<lparr>sy_world = w', sy_calls = calls\<rparr> \<and> \<not> one_active_key w'"
proof -
  let ?x = "user_row_to_record (demo_user ''ana'' True)"
  have u: "world_get_user ''ana'' demo_world = (Inr (Some ?x), demo_world)"
    by (simp add: world_get_user_def on_db_def get_user_run demo_world_def demo_user_def fetchone_def)
  have ok: "ur_proxy_access_enabled ?x" "ur_is_active ?x" "length ''ana'' \<le> 128"
    by (simp_all add: user_row_to_record_def demo_user_def)
  have a: "world_get_active ''ana'' demo_world = (Inr None, demo_world)"
    by (simp add: world_get_active_def on_db_def get_active_key_for_user_def
        list_virtual_keys_for_user_def demo_world_def order_by_desc_def)
  have g: "world_cache_get ''ana'' now demo_world = (Inr None, demo_world)" for now
    by (simp add: world_cache_get_def on_cache_def cache_get_active_key_def dynamo_get_run
        read_cache_item_def demo_world_def)
  have d: "ie_uuid (demo_env 0) \<noteq> ie_uuid demo_second_env" by (simp add: demo_env_def demo_second_env_def)
  have "ie_generated_key (demo_env 0) = known_key" by (simp add: demo_env_def known_key_def)
  then have h: "hash_virtual_key (ie_generated_key (demo_env 0)) \<noteq> hash_virtual_key (ie_generated_key demo_second_env)"
    by (simp add: demo_second_env_def hash_virtual_key_known hash_virtual_key_abc)
  from concurrent_first_requests_issue_two_keys [OF demo_good u ok a g g demo_fresh d h] show ?thesis by blast
qed

end
