(* ===== verification/ApiErrors.thy ===== *)
theory ApiErrors
  imports Domain
begin

section \<open>Error responses of the proxy (\<open>api/errors.py\<close>)\<close>

text \<open>
  Every exception of a proxy handler becomes a \<open>ServiceError\<close> and then an Anthropic error
  response. A \<open>JSONResponse\<close> is kept as its status, its content and the headers given to it.
\<close>

record JSONResponse =
  jr_status_code :: int
  jr_content :: "(string, json) pydict"
  jr_headers :: "(string, string) pydict"

definition ANTHROPIC_AUTHENTICATION_ERROR :: string where
  "ANTHROPIC_AUTHENTICATION_ERROR = ''authentication_error''"

definition ANTHROPIC_PERMISSION_ERROR :: string where
  "ANTHROPIC_PERMISSION_ERROR = ''permission_error''"

definition ANTHROPIC_INVALID_REQUEST_ERROR :: string where
  "ANTHROPIC_INVALID_REQUEST_ERROR = ''invalid_request_error''"

definition ANTHROPIC_RATE_LIMIT_ERROR :: string where
  "ANTHROPIC_RATE_LIMIT_ERROR = ''rate_limit_error''"

definition ANTHROPIC_API_ERROR :: string where
  "ANTHROPIC_API_ERROR = ''api_error''"

lemmas anthropic_error_defs = ANTHROPIC_AUTHENTICATION_ERROR_def ANTHROPIC_PERMISSION_ERROR_def
  ANTHROPIC_INVALID_REQUEST_ERROR_def ANTHROPIC_RATE_LIMIT_ERROR_def ANTHROPIC_API_ERROR_def

definition anthropic_error_response ::
    "int \<Rightarrow> string \<Rightarrow> string \<Rightarrow> string \<Rightarrow> (string, string) pydict option \<Rightarrow> details \<Rightarrow> JSONResponse" where
  "anthropic_error_response status_code error_type message request_id headers d =
     (let error = [(''type'', JStr error_type), (''message'', JStr message)] @
            (case d of None \<Rightarrow> [] | Some d' \<Rightarrow> (if d' = [] then [] else [(''details'', JObj d')]))
      in \<lparr>jr_status_code = status_code,
          jr_content = [(''type'', JStr ''error''), (''error'', JObj error),
            (''request_id'', JStr request_id)],
          jr_headers = (case headers of None \<Rightarrow> [] | Some h \<Rightarrow> h)\<rparr>)"

fun error_type_of :: "ErrorCode \<Rightarrow> string" where
  "error_type_of AUTHENTICATION_FAILED = ANTHROPIC_AUTHENTICATION_ERROR"
| "error_type_of ACCESS_DENIED = ANTHROPIC_PERMISSION_ERROR"
| "error_type_of RATE_LIMIT_EXCEEDED = ANTHROPIC_RATE_LIMIT_ERROR"
| "error_type_of INVALID_REQUEST = ANTHROPIC_INVALID_REQUEST_ERROR"
| "error_type_of INVALID_IDENTITY = ANTHROPIC_INVALID_REQUEST_ERROR"
| "error_type_of INTERNAL_ERROR = ANTHROPIC_API_ERROR"
| "error_type_of UPSTREAM_FAILURE = ANTHROPIC_API_ERROR"
| "error_type_of USER_NOT_REGISTERED = ANTHROPIC_INVALID_REQUEST_ERROR"

definition service_error_response :: "ServiceError \<Rightarrow> JSONResponse" where
  "service_error_response e =
     anthropic_error_response (se_status_code e) (error_type_of (se_code e)) (se_message e)
       (se_request_id e) (se_headers e) (se_details e)"

text \<open>Build and resolution errors are the client's fault, anything else is upstream's.\<close>

definition normalize_exception :: "py_exc \<Rightarrow> string \<Rightarrow> ServiceError" where
  "normalize_exception err request_id =
     (case err of
        ServiceErr e \<Rightarrow> e
      | BuildErr reason message \<Rightarrow>
          invalid_request_error request_id message (Some [(''reason'', JStr reason)])
      | ResolutionErr m reason message \<Rightarrow>
          invalid_request_error request_id message (Some [(''reason'', JStr reason)])
      | _ \<Rightarrow> upstream_failure_error request_id (Some [(''reason'', JStr (exc_class_name err))]))"

definition error_response_for_exception :: "py_exc \<Rightarrow> string \<Rightarrow> JSONResponse" where
  "error_response_for_exception err request_id =
     service_error_response (normalize_exception err request_id)"

subsection \<open>Statuses\<close>

text \<open>An exception the code does not foresee is answered with 502 and its class name.\<close>

lemma error_response_PyErr:
  "error_response_for_exception (PyErr c) request_id =
     \<lparr>jr_status_code = 502,
      jr_content = [(''type'', JStr ''error''),
        (''error'', JObj [(''type'', JStr ''api_error''), (''message'', JStr ''Upstream request failed.''),
           (''details'', JObj [(''reason'', JStr c)])]),
        (''request_id'', JStr request_id)],
      jr_headers = []\<rparr>"
  by (simp add: error_response_for_exception_def service_error_response_def normalize_exception_def
      upstream_failure_error_def anthropic_error_response_def anthropic_error_defs)

lemma error_response_status:
  "jr_status_code (error_response_for_exception err rid) =
     (case err of ServiceErr e \<Rightarrow> se_status_code e | BuildErr r m \<Rightarrow> 400 | ResolutionErr q r m \<Rightarrow> 400
      | _ \<Rightarrow> 502)"
  by (simp add: error_response_for_exception_def service_error_response_def normalize_exception_def
      anthropic_error_response_def invalid_request_error_def upstream_failure_error_def
      split: py_exc.splits)

lemma error_response_ServiceErr:
  "error_response_for_exception (ServiceErr e) rid = service_error_response e"
  by (simp add: error_response_for_exception_def normalize_exception_def)

text \<open>The request identifier of the response is that of the request, or of the error raised.\<close>

lemma error_response_request_id:
  "map_of (jr_content (error_response_for_exception err rid)) ''request_id'' =
     Some (JStr (case err of ServiceErr e \<Rightarrow> se_request_id e | _ \<Rightarrow> rid))"
  by (simp add: error_response_for_exception_def service_error_response_def normalize_exception_def
      anthropic_error_response_def invalid_request_error_def upstream_failure_error_def
      split: py_exc.splits)

end
