(* ===== verification/Fnmatch.thy ===== *)
theory Fnmatch
  imports Domain
begin

section \<open>Shell patterns (\<open>fnmatch.fnmatchcase\<close> of the standard library)\<close>

text \<open>
  The model resolver and the policy engine match model names against patterns with
  \<open>fnmatchcase\<close>. \<open>parse_glob\<close> follows the translation of CPython 3.11: \<open>*\<close>, \<open>?\<close> and bracket
  sets, whose hyphens split the set into chunks, with empty ranges removed; \<open>gmatch\<close> says which
  strings a translated pattern matches.
\<close>

datatype glob =
    GStar
  | GAny
  | GNever
  | GChr char
  | GSet bool "(char \<times> char) list" \<comment> \<open>negated?, ranges\<close>

fun gmatch :: "glob list \<Rightarrow> string \<Rightarrow> bool" where
  "gmatch [] s = (s = [])"
| "gmatch (GStar # g) [] = gmatch g []"
| "gmatch (GStar # g) (c # s) = (gmatch g (c # s) \<or> gmatch (GStar # g) s)"
| "gmatch (x # g) [] = False"
| "gmatch (GAny # g) (c # s) = gmatch g s"
| "gmatch (GNever # g) (c # s) = False"
| "gmatch (GChr d # g) (c # s) = (c = d \<and> gmatch g s)"
| "gmatch (GSet neg rs # g) (c # s) =
     (list_ex (\<lambda>(a, b). a \<le> c \<and> c \<le> b) rs \<noteq> neg \<and> gmatch g s)"

text \<open>The bracket's contents and what follows it; a \<open>]\<close> in first place belongs to the set.\<close>

definition bracket_split :: "string \<Rightarrow> (string \<times> string) option" where
  "bracket_split p =
     (let a = (if p \<noteq> [] \<and> hd p = CHR ''!'' then ''!'' else []);
          p1 = drop (length a) p;
          b = (if p1 \<noteq> [] \<and> hd p1 = CHR '']'' then '']'' else []);
          p2 = drop (length b) p1;
          body = takeWhile (\<lambda>c. c \<noteq> CHR '']'') p2;
          rest = dropWhile (\<lambda>c. c \<noteq> CHR '']'') p2
      in if rest = [] then None else Some (a @ b @ body, tl rest))"

lemma tl_dropWhile_shorter:
  assumes "dropWhile P (drop n p) \<noteq> []"
  shows "length (tl (dropWhile P (drop n p))) < length p"
proof -
  have "length (dropWhile P (drop n p)) \<le> length (drop n p)" by (rule length_dropWhile_le)
  moreover have "length (tl (dropWhile P (drop n p))) < length (dropWhile P (drop n p))"
    using assms by simp
  ultimately show ?thesis by simp
qed

lemma bracket_split_shorter:
  assumes "bracket_split p = Some (body, rest)"
  shows "length rest < length p"
proof -
  have "\<exists>n. dropWhile (\<lambda>c. c \<noteq> CHR '']'') (drop n p) \<noteq> [] \<and>
      rest = tl (dropWhile (\<lambda>c. c \<noteq> CHR '']'') (drop n p))"
    using assms unfolding bracket_split_def Let_def drop_drop
    by (simp only: split: if_splits) blast+
  then show ?thesis using tl_dropWhile_shorter by blast
qed

text \<open>Splitting at hyphens: the next hyphen counts only from position \<open>k\<close> on.\<close>

function split_chunks :: "nat \<Rightarrow> string \<Rightarrow> string list" where
  "split_chunks k s =
     (if CHR ''-'' \<in> set (drop k s)
      then let n = k + length (takeWhile (\<lambda>c. c \<noteq> CHR ''-'') (drop k s)) in
           take n s # split_chunks 2 (drop (n + 1) s)
      else [s])"
  by auto

termination by (relation "measure (\<lambda>(k, s). length s)") (auto dest: length_pos_if_in_set)

definition close_chunks :: "string list \<Rightarrow> string list" where
  "close_chunks cs =
     (if 1 < length cs \<and> last cs = []
      then butlast (butlast cs) @ [last (butlast cs) @ ''-''] else cs)"

fun merge_chunks :: "string list \<Rightarrow> string list" where
  "merge_chunks [] = []"
| "merge_chunks (c # cs) =
     (case merge_chunks cs of
        [] \<Rightarrow> [c]
      | d # ds \<Rightarrow> (if hd d < last c then (butlast c @ tl d) # ds else c # d # ds))"

text \<open>The ranges of a list of chunks: adjoining characters of two chunks bound a range.\<close>

function chunk_ranges :: "string list \<Rightarrow> (char \<times> char) list" where
  "chunk_ranges [] = []"
| "chunk_ranges [c] = map (\<lambda>x. (x, x)) c"
| "chunk_ranges (c # d # cs) =
     (if c = [] then (CHR ''-'', CHR ''-'') # chunk_ranges (d # cs)
      else map (\<lambda>x. (x, x)) (butlast c) @ (last c, hd d) # chunk_ranges (tl d # cs))"
  by pat_completeness auto

termination by (relation "measure length") auto

definition bracket_class :: "string \<Rightarrow> glob" where
  "bracket_class stuff =
     (let chunks = (if CHR ''-'' \<notin> set stuff then [stuff]
                    else merge_chunks (close_chunks
                      (split_chunks (if hd stuff = CHR ''!'' then 2 else 1) stuff)))
      in if chunks = [[]] then GNever
         else if chunks = [''!''] then GAny
         else if hd chunks \<noteq> [] \<and> hd (hd chunks) = CHR ''!''
              then GSet True (chunk_ranges (tl (hd chunks) # tl chunks))
              else GSet False (chunk_ranges chunks))"

function parse_glob :: "string \<Rightarrow> glob list" where
  "parse_glob [] = []"
| "parse_glob (c # p) =
     (if c = CHR ''*'' then GStar # parse_glob p
      else if c = CHR ''?'' then GAny # parse_glob p
      else if c = CHR ''['' then
        (case bracket_split p of
           None \<Rightarrow> GChr c # parse_glob p
         | Some (body, rest) \<Rightarrow> bracket_class body # parse_glob rest)
      else GChr c # parse_glob p)"
  by pat_completeness auto

termination
proof (relation "measure length", goal_cases)
  case (5 c p x2 x y)
  then have "length y < length p" using bracket_split_shorter [of p x y] by simp
  then show ?case by simp
qed auto

definition fnmatchcase :: "string \<Rightarrow> string \<Rightarrow> bool" where
  "fnmatchcase name pat = gmatch (parse_glob pat) name"

text \<open>
  For the patterns the configuration uses: text without special characters matches itself only,
  a star matches everything, and text before a final star is a prefix to match.
\<close>

definition plain_char :: "char \<Rightarrow> bool" where
  "plain_char c \<longleftrightarrow> c \<notin> {CHR ''*'', CHR ''?'', CHR ''[''}"

lemma parse_glob_plain: "list_all plain_char t \<Longrightarrow> parse_glob (t @ p) = map GChr t @ parse_glob p"
  by (induction t) (auto simp: plain_char_def)

lemma gmatch_chars: "gmatch (map GChr t @ g) s \<longleftrightarrow> (\<exists>r. s = t @ r \<and> gmatch g r)"
proof (induction t arbitrary: s)
  case (Cons c t)
  then show ?case by (cases s) auto
qed simp

lemma gmatch_star: "gmatch [GStar] s"
  by (induction s) auto

lemma fnmatchcase_plain: "list_all plain_char p \<Longrightarrow> fnmatchcase s p \<longleftrightarrow> s = p"
  using parse_glob_plain [of p "[]"] gmatch_chars [of p "[]" s] by (simp add: fnmatchcase_def)

lemma fnmatchcase_prefix:
  "list_all plain_char p \<Longrightarrow> fnmatchcase s (p @ ''*'') \<longleftrightarrow> (\<exists>r. s = p @ r)"
  using parse_glob_plain [of p "''*''"] by (simp add: fnmatchcase_def gmatch_chars gmatch_star)

lemma fnmatchcase_star: "fnmatchcase s ''*''"
  by (simp add: fnmatchcase_def gmatch_star)

end
