(* ===== verification/PolicyEngine.thy ===== *)
theory PolicyEngine
  imports Fnmatch
begin

section \<open>Access policies (\<open>proxy/policy_engine.py\<close>)\<close>

text \<open>
  \<open>PolicyEngine.evaluate\<close>: the user's status, then the policies that apply to the user collected
  scope by scope (user, groups, department, global), a matching deny rule first, then the allow
  rules, and the smallest output-token limit. A limit that is not a number raises.
\<close>

definition MODEL_ALLOW_RULE :: string where "MODEL_ALLOW_RULE = ''allow_model''"

definition MODEL_DENY_RULE :: string where "MODEL_DENY_RULE = ''deny_model''"

definition MAX_OUTPUT_TOKENS_RULE :: string where "MAX_OUTPUT_TOKENS_RULE = ''max_output_tokens''"

definition DENIAL_USER_INACTIVE :: string where "DENIAL_USER_INACTIVE = ''user_inactive''"

definition DENIAL_PROXY_ACCESS_DISABLED :: string where
  "DENIAL_PROXY_ACCESS_DISABLED = ''proxy_access_disabled''"

definition DENIAL_MODEL_DENIED :: string where "DENIAL_MODEL_DENIED = ''model_denied''"

definition DENIAL_MODEL_NOT_ALLOWED :: string where
  "DENIAL_MODEL_NOT_ALLOWED = ''model_not_allowed''"

lemmas policy_constants = MODEL_ALLOW_RULE_def MODEL_DENY_RULE_def MAX_OUTPUT_TOKENS_RULE_def
  DENIAL_USER_INACTIVE_def DENIAL_PROXY_ACCESS_DISABLED_def DENIAL_MODEL_DENIED_def
  DENIAL_MODEL_NOT_ALLOWED_def

record PolicyEvaluationTrace =
  pt_evaluated_scopes :: "string list"
  pt_matched_policy_ids :: "string list"

record PolicyDecision =
  pd_allowed :: bool
  pd_denial_reason :: "string option"
  pd_effective_max_output_tokens :: "int option"
  pd_trace :: PolicyEvaluationTrace

definition policy_scopes :: "UserRecord \<Rightarrow> (string \<times> string option) list" where
  "policy_scopes user =
     [(''user'', Some (ur_id user))] @ map (\<lambda>g. (''group'', Some g)) (ur_groups user) @
     [(''department'', ur_department user), (''global'', None)]"

text \<open>One turn of the loop over the scopes: the scope's trace text and its policies.\<close>

definition collect_scope ::
    "PolicyRecord list \<Rightarrow> string \<times> string option \<Rightarrow> string list \<times> PolicyRecord list" where
  "collect_scope policies scope =
     (case scope of (scope_type, scope_id) \<Rightarrow>
        if scope_type = ''department'' \<and> scope_id = None then ([], [])
        else if scope_type = ''global''
        then ([''global''], filter (\<lambda>p. po_is_active p \<and> po_scope_type p = ''global'') policies)
        else ([scope_type @ '':'' @ (case scope_id of None \<Rightarrow> ''None'' | Some s \<Rightarrow> s)],
          filter (\<lambda>p. po_is_active p \<and> po_scope_type p = scope_type \<and>
            Some (po_scope_id p) = scope_id) policies))"

definition collect_policies_by_scope ::
    "UserRecord \<Rightarrow> PolicyRecord list \<Rightarrow> string list \<times> PolicyRecord list" where
  "collect_policies_by_scope user policies =
     (let turns = map (collect_scope policies) (policy_scopes user) in
      (concat (map fst turns), concat (map snd turns)))"

definition int_of_string :: "string \<Rightarrow> int res" where
  "int_of_string s = py_int (JStr s)"

definition resolve_effective_max_output_tokens :: "PolicyRecord list \<Rightarrow> int option res" where
  "resolve_effective_max_output_tokens policies =
     bindR (mapR (\<lambda>p. int_of_string (po_rule_value p))
        (filter (\<lambda>p. po_rule_type p = MAX_OUTPUT_TOKENS_RULE) policies)) (\<lambda>token_limits.
     Inr (case token_limits of [] \<Rightarrow> None | m # rest \<Rightarrow> Some (foldl min m rest)))"

definition rule_matches_model :: "PolicyRecord \<Rightarrow> string \<Rightarrow> bool" where
  "rule_matches_model policy model = fnmatchcase model (po_rule_value policy)"

definition evaluate_policies ::
    "UserRecord \<Rightarrow> string \<Rightarrow> PolicyRecord list \<Rightarrow> PolicyDecision res" where
  "evaluate_policies user model policies =
     (if \<not> ur_is_active user
      then Inr \<lparr>pd_allowed = False, pd_denial_reason = Some DENIAL_USER_INACTIVE,
        pd_effective_max_output_tokens = None,
        pd_trace = \<lparr>pt_evaluated_scopes = [''user_status''], pt_matched_policy_ids = []\<rparr>\<rparr>
      else if \<not> ur_proxy_access_enabled user
      then Inr \<lparr>pd_allowed = False, pd_denial_reason = Some DENIAL_PROXY_ACCESS_DISABLED,
        pd_effective_max_output_tokens = None,
        pd_trace = \<lparr>pt_evaluated_scopes = [''user_status''], pt_matched_policy_ids = []\<rparr>\<rparr>
      else case collect_policies_by_scope user policies of (scopes, ordered) \<Rightarrow>
        bindR (resolve_effective_max_output_tokens ordered) (\<lambda>max_output_tokens.
          let trace = \<lparr>pt_evaluated_scopes = ''user_status'' # scopes,
                       pt_matched_policy_ids = map po_id ordered\<rparr>;
              has_access_rules = list_ex (\<lambda>p. po_rule_type p \<in> {MODEL_ALLOW_RULE, MODEL_DENY_RULE}) ordered;
              has_matching_allow = list_ex (\<lambda>p. po_rule_type p = MODEL_ALLOW_RULE \<and>
                rule_matches_model p model) ordered
          in if list_ex (\<lambda>p. po_rule_type p = MODEL_DENY_RULE \<and> rule_matches_model p model) ordered
             then Inr \<lparr>pd_allowed = False, pd_denial_reason = Some DENIAL_MODEL_DENIED,
               pd_effective_max_output_tokens = max_output_tokens, pd_trace = trace\<rparr>
             else if has_access_rules \<and> \<not> has_matching_allow
             then Inr \<lparr>pd_allowed = False, pd_denial_reason = Some DENIAL_MODEL_NOT_ALLOWED,
               pd_effective_max_output_tokens = max_output_tokens, pd_trace = trace\<rparr>
             else Inr \<lparr>pd_allowed = True, pd_denial_reason = None,
               pd_effective_max_output_tokens = max_output_tokens, pd_trace = trace\<rparr>))"

subsection \<open>Which policies apply\<close>

definition applies_to :: "UserRecord \<Rightarrow> PolicyRecord \<Rightarrow> bool" where
  "applies_to user p \<longleftrightarrow> po_is_active p \<and>
     ((po_scope_type p = ''user'' \<and> po_scope_id p = ur_id user) \<or>
      (po_scope_type p = ''group'' \<and> po_scope_id p \<in> set (ur_groups user)) \<or>
      (po_scope_type p = ''department'' \<and> ur_department user = Some (po_scope_id p)) \<or>
      po_scope_type p = ''global'')"

lemma collect_policies_set:
  "set (snd (collect_policies_by_scope user policies)) = {p \<in> set policies. applies_to user p}"
  by (auto simp: collect_policies_by_scope_def policy_scopes_def collect_scope_def applies_to_def
      Let_def split: if_splits)

lemma collect_policies_split:
  "\<exists>scopes ordered. collect_policies_by_scope user policies = (scopes, ordered) \<and>
     set ordered = {p \<in> set policies. applies_to user p}"
  using collect_policies_set [of user policies] by (metis prod.collapse)

definition token_limit :: "UserRecord \<Rightarrow> PolicyRecord list \<Rightarrow> int \<Rightarrow> bool" where
  "token_limit user policies n \<longleftrightarrow> (\<exists>p \<in> set policies. applies_to user p \<and>
     po_rule_type p = MAX_OUTPUT_TOKENS_RULE \<and> int_of_string (po_rule_value p) = Inr n)"

definition limits_parse :: "UserRecord \<Rightarrow> PolicyRecord list \<Rightarrow> bool" where
  "limits_parse user policies \<longleftrightarrow> (\<forall>p \<in> set policies. applies_to user p \<and>
     po_rule_type p = MAX_OUTPUT_TOKENS_RULE \<longrightarrow> (\<exists>n. int_of_string (po_rule_value p) = Inr n))"

lemma foldl_min_le: "x \<in> set (m # xs) \<Longrightarrow> foldl min m xs \<le> (x :: int)"
proof (induction xs arbitrary: m x)
  case (Cons y ys)
  have "foldl min (min m y) ys \<le> min m y" by (rule Cons.IH) simp
  then show ?case using Cons.prems Cons.IH [of x "min m y"] by auto
qed simp

lemma foldl_min_in: "foldl min m xs \<in> set (m # xs :: int list)"
proof (induction xs arbitrary: m)
  case (Cons x xs)
  have "min m x \<in> {m, x}" by (simp add: min_def)
  then show ?case using Cons [of "min m x"] by auto
qed simp

lemma effective_tokens:
  assumes "set ordered = {p \<in> set policies. applies_to user p}" and "limits_parse user policies"
  shows "\<exists>mx. resolve_effective_max_output_tokens ordered = Inr mx \<and>
    (case mx of
       None \<Rightarrow> \<forall>n. \<not> token_limit user policies n
     | Some m \<Rightarrow> token_limit user policies m \<and> (\<forall>n. token_limit user policies n \<longrightarrow> m \<le> n))"
proof -
  let ?ps = "filter (\<lambda>p. po_rule_type p = MAX_OUTPUT_TOKENS_RULE) ordered"
  have ex: "\<exists>n. int_of_string (po_rule_value p) = Inr n" if "p \<in> set ?ps" for p
    using that assms by (auto simp: limits_parse_def)
  define g where "g p = (case int_of_string (po_rule_value p) of Inl e \<Rightarrow> 0 | Inr n \<Rightarrow> n)" for p :: PolicyRecord
  have g: "int_of_string (po_rule_value p) = Inr (g p)" if "p \<in> set ?ps" for p
    using ex [OF that] by (auto simp: g_def)
  then have m: "mapR (\<lambda>p. int_of_string (po_rule_value p)) ?ps = Inr (map g ?ps)"
    by (intro mapR_total)
  have t: "token_limit user policies n \<longleftrightarrow> n \<in> set (map g ?ps)" for n
  proof -
    have "token_limit user policies n \<longleftrightarrow> (\<exists>p \<in> set ?ps. int_of_string (po_rule_value p) = Inr n)"
      using assms(1) by (auto simp: token_limit_def)
    also have "\<dots> \<longleftrightarrow> (\<exists>p \<in> set ?ps. g p = n)" using g by (intro bex_cong) auto
    also have "\<dots> \<longleftrightarrow> n \<in> set (map g ?ps)" by auto
    finally show ?thesis .
  qed
  show ?thesis
  proof (cases "map g ?ps")
    case Nil
    then show ?thesis using m t by (simp add: resolve_effective_max_output_tokens_def)
  next
    case (Cons x xs)
    then have "resolve_effective_max_output_tokens ordered = Inr (Some (foldl min x xs))"
      using m by (simp add: resolve_effective_max_output_tokens_def)
    moreover have "token_limit user policies (foldl min x xs)"
      unfolding t Cons by (rule foldl_min_in)
    moreover have "\<forall>n. token_limit user policies n \<longrightarrow> foldl min x xs \<le> n"
      unfolding t Cons using foldl_min_le by blast
    ultimately show ?thesis by simp
  qed
qed

subsection \<open>The specification\<close>

text \<open>What the engine decides, in terms of the set of policies that apply.\<close>

definition denied_by_rule :: "UserRecord \<Rightarrow> string \<Rightarrow> PolicyRecord list \<Rightarrow> bool" where
  "denied_by_rule user model policies \<longleftrightarrow> (\<exists>p \<in> set policies. applies_to user p \<and>
     po_rule_type p = MODEL_DENY_RULE \<and> fnmatchcase model (po_rule_value p))"

definition allowed_by_rule :: "UserRecord \<Rightarrow> string \<Rightarrow> PolicyRecord list \<Rightarrow> bool" where
  "allowed_by_rule user model policies \<longleftrightarrow> (\<exists>p \<in> set policies. applies_to user p \<and>
     po_rule_type p = MODEL_ALLOW_RULE \<and> fnmatchcase model (po_rule_value p))"

definition has_access_rule :: "UserRecord \<Rightarrow> PolicyRecord list \<Rightarrow> bool" where
  "has_access_rule user policies \<longleftrightarrow> (\<exists>p \<in> set policies. applies_to user p \<and>
     po_rule_type p \<in> {MODEL_ALLOW_RULE, MODEL_DENY_RULE})"

lemma list_ex_ordered:
  "set ordered = {p \<in> set policies. applies_to user p} \<Longrightarrow>
     list_ex Q ordered \<longleftrightarrow> (\<exists>p \<in> set policies. applies_to user p \<and> Q p)"
  by (auto simp: list_ex_iff)

lemma evaluate_active:
  assumes "ur_is_active user" and "ur_proxy_access_enabled user" and "limits_parse user policies"
  shows "\<exists>d. evaluate_policies user model policies = Inr d \<and>
    pd_denial_reason d =
      (if denied_by_rule user model policies then Some DENIAL_MODEL_DENIED
       else if has_access_rule user policies \<and> \<not> allowed_by_rule user model policies
       then Some DENIAL_MODEL_NOT_ALLOWED else None) \<and>
    pd_allowed d = (pd_denial_reason d = None) \<and>
    (case pd_effective_max_output_tokens d of
       None \<Rightarrow> \<forall>n. \<not> token_limit user policies n
     | Some m \<Rightarrow> token_limit user policies m \<and> (\<forall>n. token_limit user policies n \<longrightarrow> m \<le> n))"
proof -
  obtain scopes ordered where c: "collect_policies_by_scope user policies = (scopes, ordered)"
    and s: "set ordered = {p \<in> set policies. applies_to user p}"
    using collect_policies_split by blast
  obtain mx where mx: "resolve_effective_max_output_tokens ordered = Inr mx"
    "case mx of
       None \<Rightarrow> \<forall>n. \<not> token_limit user policies n
     | Some m \<Rightarrow> token_limit user policies m \<and> (\<forall>n. token_limit user policies n \<longrightarrow> m \<le> n)"
    using effective_tokens [OF s assms(3)] by blast
  have d: "list_ex (\<lambda>p. po_rule_type p = MODEL_DENY_RULE \<and> rule_matches_model p model) ordered =
      denied_by_rule user model policies"
    and a: "list_ex (\<lambda>p. po_rule_type p = MODEL_ALLOW_RULE \<and> rule_matches_model p model) ordered =
      allowed_by_rule user model policies"
    and h: "list_ex (\<lambda>p. po_rule_type p \<in> {MODEL_ALLOW_RULE, MODEL_DENY_RULE}) ordered =
      has_access_rule user policies"
    unfolding list_ex_ordered [OF s] denied_by_rule_def allowed_by_rule_def has_access_rule_def
      rule_matches_model_def by blast+
  show ?thesis
    unfolding evaluate_policies_def c prod.case mx(1) bindR_Inr Let_def d a h
    using assms(1, 2) mx(2) by simp
qed

subsection \<open>Properties\<close>

text \<open>
  Property C21: for a user in good standing whose limits are numbers, the decision is the one of
  the specification: denied when a deny rule that applies matches, or when access rules apply and
  no allow rule matches, allowed otherwise; the effective limit is the smallest that applies.
\<close>

theorem policy_decision_spec:
  assumes "ur_is_active user" and "ur_proxy_access_enabled user" and "limits_parse user policies"
  shows "\<exists>d. evaluate_policies user model policies = Inr d \<and>
    pd_denial_reason d =
      (if denied_by_rule user model policies then Some DENIAL_MODEL_DENIED
       else if has_access_rule user policies \<and> \<not> allowed_by_rule user model policies
       then Some DENIAL_MODEL_NOT_ALLOWED else None) \<and>
    pd_allowed d = (pd_denial_reason d = None) \<and>
    (case pd_effective_max_output_tokens d of
       None \<Rightarrow> \<forall>n. \<not> token_limit user policies n
     | Some m \<Rightarrow> token_limit user policies m \<and> (\<forall>n. token_limit user policies n \<longrightarrow> m \<le> n))"
  by (rule evaluate_active [OF assms])

text \<open>
  The order and repetition of the policies do not matter: two lists with the same
  policies give the same decision and the same limit.
\<close>

lemma policy_order_irrelevant:
  assumes "set policies = set policies'" and "limits_parse user policies"
    and "evaluate_policies user model policies = Inr d"
    and "evaluate_policies user model policies' = Inr d'"
  shows "pd_allowed d = pd_allowed d' \<and> pd_denial_reason d = pd_denial_reason d' \<and>
    pd_effective_max_output_tokens d = pd_effective_max_output_tokens d'"
proof (cases "ur_is_active user \<and> ur_proxy_access_enabled user")
  case False
  then show ?thesis using assms(3, 4) by (auto simp: evaluate_policies_def split: if_splits)
next
  case True
  have same: "denied_by_rule user model policies' = denied_by_rule user model policies"
    "allowed_by_rule user model policies' = allowed_by_rule user model policies"
    "has_access_rule user policies' = has_access_rule user policies"
    "token_limit user policies' = token_limit user policies"
    "limits_parse user policies'"
    using assms(1, 2) by (auto simp: denied_by_rule_def allowed_by_rule_def has_access_rule_def
        token_limit_def limits_parse_def)
  have act: "ur_is_active user" "ur_proxy_access_enabled user" using True by auto
  obtain d0 where d0: "evaluate_policies user model policies = Inr d0"
    "pd_denial_reason d0 =
      (if denied_by_rule user model policies then Some DENIAL_MODEL_DENIED
       else if has_access_rule user policies \<and> \<not> allowed_by_rule user model policies
       then Some DENIAL_MODEL_NOT_ALLOWED else None)"
    "pd_allowed d0 = (pd_denial_reason d0 = None)"
    "case pd_effective_max_output_tokens d0 of
       None \<Rightarrow> \<forall>n. \<not> token_limit user policies n
     | Some m \<Rightarrow> token_limit user policies m \<and> (\<forall>n. token_limit user policies n \<longrightarrow> m \<le> n)"
    using evaluate_active [OF act assms(2), of model] by (elim exE conjE) (rule that)
  obtain d1 where d1: "evaluate_policies user model policies' = Inr d1"
    "pd_denial_reason d1 =
      (if denied_by_rule user model policies' then Some DENIAL_MODEL_DENIED
       else if has_access_rule user policies' \<and> \<not> allowed_by_rule user model policies'
       then Some DENIAL_MODEL_NOT_ALLOWED else None)"
    "pd_allowed d1 = (pd_denial_reason d1 = None)"
    "case pd_effective_max_output_tokens d1 of
       None \<Rightarrow> \<forall>n. \<not> token_limit user policies' n
     | Some m \<Rightarrow> token_limit user policies' m \<and> (\<forall>n. token_limit user policies' n \<longrightarrow> m \<le> n)"
    using evaluate_active [OF act same(5), of model] by (elim exE conjE) (rule that)
  have eq: "d0 = d" "d1 = d'" using d0(1) d1(1) assms(3, 4) by auto
  have "pd_effective_max_output_tokens d = pd_effective_max_output_tokens d'"
    using d0(4) d1(4) unfolding eq same(4)
    by (cases "pd_effective_max_output_tokens d"; cases "pd_effective_max_output_tokens d'")
      (auto intro: order_antisym)
  moreover have "pd_denial_reason d = pd_denial_reason d'"
    using d0(2) d1(2) unfolding eq same(1-3) by simp
  moreover have "pd_allowed d = pd_allowed d'"
    using d0(3) d1(3) \<open>pd_denial_reason d = pd_denial_reason d'\<close> unfolding eq by simp
  ultimately show ?thesis by simp
qed

text \<open>
  A user who is inactive or has no proxy access is denied whatever the policies say,
  even if some limit is not a number.
\<close>

lemma policy_denies_bad_standing:
  assumes "\<not> ur_is_active user \<or> \<not> ur_proxy_access_enabled user"
  shows "\<exists>d. evaluate_policies user model policies = Inr d \<and> \<not> pd_allowed d \<and>
    pd_denial_reason d = Some (if \<not> ur_is_active user then DENIAL_USER_INACTIVE
      else DENIAL_PROXY_ACCESS_DISABLED)"
  using assms by (auto simp: evaluate_policies_def)

definition demo_policy_user :: "bool \<Rightarrow> UserRecord" where
  "demo_policy_user active =
     \<lparr>ur_id = ''u1'', ur_email = ''u1@x'', ur_display_name = ''U'', ur_department = Some ''eng'',
      ur_cost_center = None, ur_groups = [''dev''], ur_proxy_access_enabled = True,
      ur_is_active = active, ur_created_at = 0, ur_updated_at = 0\<rparr>"

definition demo_policy :: "string \<Rightarrow> string \<Rightarrow> string \<Rightarrow> string \<Rightarrow> PolicyRecord" where
  "demo_policy scope scope_id rule v =
     \<lparr>po_id = ''p'', po_scope_type = scope, po_scope_id = scope_id, po_rule_type = rule,
      po_rule_value = v, po_is_active = True\<rparr>"

definition demo_policies :: "PolicyRecord list" where
  "demo_policies = [demo_policy ''group'' ''dev'' ''allow_model'' ''*'',
     demo_policy ''global'' ''all'' ''deny_model'' ''opus'',
     demo_policy ''user'' ''u1'' ''max_output_tokens'' ''4096'']"

lemma int_4096: "int_of_string ''4096'' = Inr 4096"
  by code_simp

lemma demo_limits: "limits_parse (demo_policy_user True) demo_policies"
  by (simp add: limits_parse_def demo_policies_def demo_policy_def policy_constants int_4096)

lemma policy_decision_spec_witness:
  "\<exists>d. evaluate_policies (demo_policy_user True) ''opus'' demo_policies = Inr d \<and> \<not> pd_allowed d"
proof -
  have "fnmatchcase ''opus'' ''opus''" by (simp add: fnmatchcase_plain plain_char_def)
  then have "denied_by_rule (demo_policy_user True) ''opus'' demo_policies"
    by (simp add: denied_by_rule_def demo_policies_def demo_policy_def applies_to_def
        policy_constants)
  then show ?thesis
    using policy_decision_spec [OF _ _ demo_limits, of "''opus''"] by (auto simp: demo_policy_user_def)
qed

end
