(* ===== verification/QuotaEngine.thy ===== *)
theory QuotaEngine
  imports Domain
begin

section \<open>Budgets (\<open>proxy/quota_engine.py\<close>)\<close>

text \<open>
  \<open>QuotaEngine.evaluate\<close>: the effective budget policy is the active one with the smallest hard
  limit, the projected usage is compared with its soft and hard limits, in floating point as the
  code does. The pricing repository is an argument, a function that may raise.
\<close>

definition MILLION :: rat where "MILLION = 1000000"

definition DENIAL_QUOTA_HARD_LIMIT_EXCEEDED :: string where
  "DENIAL_QUOTA_HARD_LIMIT_EXCEEDED = ''quota_hard_limit_exceeded''"

definition scope_rank :: "string \<Rightarrow> int" where
  "scope_rank scope =
     (if scope = ''user'' then 0 else if scope = ''team'' then 1 else if scope = ''global'' then 2
      else 99)"

record TokenUsageEstimate =
  tu_input_tokens :: int
  tu_output_tokens :: int
  tu_cache_write_input_tokens :: int
  tu_cache_read_input_tokens :: int

record UsageCostSnapshot =
  cs_pricing_catalog_id :: string
  cs_estimated_input_cost_usd :: float64
  cs_estimated_output_cost_usd :: float64
  cs_estimated_cache_write_cost_usd :: float64
  cs_estimated_cache_read_cost_usd :: float64
  cs_estimated_total_cost_usd :: float64

record QuotaDecision =
  qd_allowed :: bool
  qd_denial_reason :: "string option"
  qd_effective_policy :: "BudgetPolicyRecord option"
  qd_soft_limit_reached :: bool
  qd_hard_limit_reached :: bool
  qd_projected_usage :: float64
  qd_usage_snapshot :: "UsageCostSnapshot option"

definition qd_pricing_catalog_id :: "QuotaDecision \<Rightarrow> string option" where
  "qd_pricing_catalog_id d = map_option cs_pricing_catalog_id (qd_usage_snapshot d)"

text \<open>\<open>float(n)\<close> of an integer raises when the result would be infinite.\<close>

definition float_of_int :: "int \<Rightarrow> float64 res" where
  "float_of_int n = (case fl (of_int n) of Fin x \<Rightarrow> Inr (Fin x) | _ \<Rightarrow> Inl overflow_error)"

definition effective_limit_value :: "int \<Rightarrow> int \<Rightarrow> float64 res" where
  "effective_limit_value limit_value percent =
     bindR (float_of_int limit_value) (\<lambda>l.
     bindR (float_of_int percent) (\<lambda>p.
     Inr (f_mul l (f_div_const p 100))))"

type_synonym policy_key = "float64 \<times> int \<times> int \<times> int \<times> string"

definition policy_key :: "BudgetPolicyRecord \<Rightarrow> policy_key res" where
  "policy_key p =
     bindR (effective_limit_value (bp_limit_value p) (bp_hard_limit_percent p)) (\<lambda>l.
     Inr (l, bp_limit_value p, bp_hard_limit_percent p, scope_rank (bp_scope_type p), bp_id p))"

definition keyed_policy :: "BudgetPolicyRecord \<Rightarrow> (policy_key \<times> BudgetPolicyRecord) res" where
  "keyed_policy p = bindR (policy_key p) (\<lambda>k. Inr (k, p))"

definition select_effective_policy :: "BudgetPolicyRecord list \<Rightarrow> BudgetPolicyRecord option res" where
  "select_effective_policy policies =
     (case filter bp_is_active policies of
        [] \<Rightarrow> Inr None
      | active \<Rightarrow> bindR (mapR keyed_policy active) (\<lambda>keyed. case keyed of
            [] \<Rightarrow> Inr None
          | m # rest \<Rightarrow> Inr (Some (snd (py_min_by fst m rest)))))"

text \<open>\<open>tokens * price / MILLION\<close>.\<close>

definition token_cost :: "int \<Rightarrow> float64 \<Rightarrow> float64 res" where
  "token_cost tokens price =
     bindR (float_of_int tokens) (\<lambda>t. Inr (f_div_const (f_mul t price) MILLION))"

definition build_usage_snapshot ::
    "ModelPricingRecord option \<Rightarrow> TokenUsageEstimate option \<Rightarrow> UsageCostSnapshot option res" where
  "build_usage_snapshot pricing token_usage =
     (case (pricing, token_usage) of
        (Some p, Some u) \<Rightarrow>
          bindR (token_cost (tu_input_tokens u) (mp_input_cost_per_million p)) (\<lambda>input_cost.
          bindR (token_cost (tu_output_tokens u) (mp_output_cost_per_million p)) (\<lambda>output_cost.
          bindR (token_cost (tu_cache_write_input_tokens u)
                   (mp_cache_write_input_cost_per_million p)) (\<lambda>cache_write_cost.
          bindR (token_cost (tu_cache_read_input_tokens u)
                   (mp_cache_read_input_cost_per_million p)) (\<lambda>cache_read_cost.
          Inr (Some \<lparr>cs_pricing_catalog_id = mp_id p, cs_estimated_input_cost_usd = input_cost,
            cs_estimated_output_cost_usd = output_cost,
            cs_estimated_cache_write_cost_usd = cache_write_cost,
            cs_estimated_cache_read_cost_usd = cache_read_cost,
            cs_estimated_total_cost_usd =
              f_add (f_add (f_add input_cost output_cost) cache_write_cost) cache_read_cost\<rparr>)))))
      | _ \<Rightarrow> Inr None)"

definition resolve_requested_usage ::
    "BudgetPolicyRecord option \<Rightarrow> float64 option \<Rightarrow> UsageCostSnapshot option \<Rightarrow> float64" where
  "resolve_requested_usage effective_policy requested_usage usage_snapshot =
     (case requested_usage of
        Some r \<Rightarrow> r
      | None \<Rightarrow> (case (effective_policy, usage_snapshot) of
            (Some p, Some u) \<Rightarrow>
              if bp_metric_type p = COST_USD then cs_estimated_total_cost_usd u else Fin 0
          | _ \<Rightarrow> Fin 0))"

type_synonym pricing_repository = "(string \<Rightarrow> ModelPricingRecord option res) option"

definition get_active_pricing ::
    "pricing_repository \<Rightarrow> string option \<Rightarrow> ModelPricingRecord option res" where
  "get_active_pricing repo model_id =
     (case (repo, model_id) of (Some get, Some m) \<Rightarrow> get m | _ \<Rightarrow> Inr None)"

definition quota_evaluate ::
    "pricing_repository \<Rightarrow> BudgetPolicyRecord list \<Rightarrow> float64 \<Rightarrow> float64 option \<Rightarrow> string option \<Rightarrow>
     TokenUsageEstimate option \<Rightarrow> QuotaDecision res" where
  "quota_evaluate repo budget_policies current_usage requested_usage model_id token_usage =
     bindR (select_effective_policy budget_policies) (\<lambda>effective_policy.
     bindR (get_active_pricing repo model_id) (\<lambda>pricing.
     bindR (build_usage_snapshot pricing token_usage) (\<lambda>usage_snapshot.
     let projected_usage = f_add current_usage
           (resolve_requested_usage effective_policy requested_usage usage_snapshot) in
     case effective_policy of
       None \<Rightarrow> Inr \<lparr>qd_allowed = True, qd_denial_reason = None, qd_effective_policy = None,
         qd_soft_limit_reached = False, qd_hard_limit_reached = False,
         qd_projected_usage = projected_usage, qd_usage_snapshot = usage_snapshot\<rparr>
     | Some p \<Rightarrow>
         bindR (effective_limit_value (bp_limit_value p) (bp_soft_limit_percent p)) (\<lambda>soft_limit.
         bindR (effective_limit_value (bp_limit_value p) (bp_hard_limit_percent p)) (\<lambda>hard_limit.
         let soft_limit_reached = f_ge projected_usage soft_limit;
             hard_limit_reached = f_ge projected_usage hard_limit
         in Inr \<lparr>qd_allowed = (\<not> hard_limit_reached),
           qd_denial_reason =
             (if hard_limit_reached then Some DENIAL_QUOTA_HARD_LIMIT_EXCEEDED else None),
           qd_effective_policy = Some p, qd_soft_limit_reached = soft_limit_reached,
           qd_hard_limit_reached = hard_limit_reached, qd_projected_usage = projected_usage,
           qd_usage_snapshot = usage_snapshot\<rparr>)))))"

subsection \<open>Limits\<close>

text \<open>
  What the schema's check on budget policies guarantees, together with non-negative numbers that
  are exact as floats.
\<close>

definition budget_ok :: "BudgetPolicyRecord \<Rightarrow> bool" where
  "budget_ok p \<longleftrightarrow> 0 \<le> bp_limit_value p \<and> bp_limit_value p < 2 ^ 53 \<and> 0 \<le> bp_soft_limit_percent p \<and>
     bp_soft_limit_percent p \<le> bp_hard_limit_percent p \<and> bp_hard_limit_percent p \<le> 100"

lemma float_of_int_exact: "\<bar>n\<bar> < 2 ^ 53 \<Longrightarrow> float_of_int n = Inr (Fin (of_int n))"
  by (simp add: float_of_int_def fl_int)

text \<open>The limit of a percentage between 0 and 100, and its order.\<close>

lemma fl_fraction:
  assumes "0 \<le> x" and "x \<le> 1"
  shows "\<exists>z. fl x = Fin z \<and> 0 \<le> z \<and> z \<le> 1"
proof -
  have "fl x \<le> fl 1" using assms(2) by (rule fl_mono)
  also have "fl 1 = Fin 1" using fl_int [of 1] by simp
  finally have u: "fl x \<le> Fin 1" .
  have l: "Fin 0 \<le> fl x" using assms(1) by (rule fl_nonneg)
  show ?thesis using u l by (cases "fl x") (auto simp: less_eq_float64_def)
qed

lemma fl_bounded:
  assumes "0 \<le> x" and "x \<le> of_int n" and "n < 2 ^ 53"
  shows "\<exists>z. fl x = Fin z \<and> 0 \<le> z"
proof -
  have "(0 :: rat) \<le> of_int n" using assms(1, 2) by simp
  then have n: "\<bar>n\<bar> < 2 ^ 53" using assms(3) by simp
  have "fl x \<le> fl (of_int n)" using assms(2) by (rule fl_mono)
  also have "\<dots> = Fin (of_int n)" by (rule fl_int [OF n])
  finally have u: "fl x \<le> Fin (of_int n)" .
  have l: "Fin 0 \<le> fl x" using assms(1) by (rule fl_nonneg)
  show ?thesis using u l by (cases "fl x") (auto simp: less_eq_float64_def)
qed

lemma effective_limit_ok:
  assumes "0 \<le> l" "l < 2 ^ 53" "0 \<le> p" "p \<le> 100"
  shows "\<exists>z w. fl (of_int p / 100) = Fin z \<and> 0 \<le> z \<and> fl (of_int l * z) = Fin w \<and>
    effective_limit_value l p = Inr (Fin w)"
proof -
  have p: "0 \<le> (of_int p / 100 :: rat)" "(of_int p / 100 :: rat) \<le> 1" using assms(3, 4) by auto
  obtain z where z: "fl (of_int p / 100) = Fin z" "0 \<le> z" "z \<le> 1"
    using fl_fraction [OF p] by blast
  have "0 \<le> (of_int l :: rat) * z" "(of_int l :: rat) * z \<le> of_int l"
    using assms(1) z(2, 3) mult_left_mono [of z 1 "of_int l :: rat"] by auto
  then obtain w where w: "fl (of_int l * z) = Fin w" using fl_bounded [OF _ _ assms(2)] by blast
  have "effective_limit_value l p = Inr (Fin w)"
    using assms z w by (simp add: effective_limit_value_def float_of_int_exact f_div_const_def f_mul_def)
  then show ?thesis using z w by blast
qed

lemma effective_limit_mono:
  assumes "0 \<le> l" "l < 2 ^ 53" "0 \<le> p" "p \<le> q" "q \<le> 100"
    and "effective_limit_value l p = Inr x" and "effective_limit_value l q = Inr y"
  shows "x \<le> y \<and> x \<noteq> NaN \<and> y \<noteq> NaN"
proof -
  obtain z w where zw: "fl (of_int p / 100) = Fin z" "fl (of_int l * z) = Fin w"
    "effective_limit_value l p = Inr (Fin w)"
    using effective_limit_ok [of l p] assms by auto
  obtain z' w' where zw': "fl (of_int q / 100) = Fin z'" "fl (of_int l * z') = Fin w'"
    "effective_limit_value l q = Inr (Fin w')"
    using effective_limit_ok [of l q] assms by auto
  have "fl (of_int p / 100) \<le> fl (of_int q / 100)" using assms(4) by (intro fl_mono) simp
  then have "z \<le> z'" using zw zw' by simp
  then have "fl (of_int l * z) \<le> fl (of_int l * z')" using assms(1) by (intro fl_mono mult_left_mono) auto
  then show ?thesis using zw zw' assms(6, 7) by simp
qed

definition hard_limit :: "BudgetPolicyRecord \<Rightarrow> float64 res" where
  "hard_limit p = effective_limit_value (bp_limit_value p) (bp_hard_limit_percent p)"

lemma policy_key_ok:
  assumes "budget_ok p"
  shows "\<exists>w. hard_limit p = Inr (Fin w) \<and> keyed_policy p =
    Inr ((Fin w, bp_limit_value p, bp_hard_limit_percent p, scope_rank (bp_scope_type p), bp_id p), p)"
  using effective_limit_ok [of "bp_limit_value p" "bp_hard_limit_percent p"] assms
  by (auto simp: budget_ok_def hard_limit_def keyed_policy_def policy_key_def)

subsection \<open>The effective policy\<close>

definition the_key :: "BudgetPolicyRecord \<Rightarrow> policy_key" where
  "the_key p = (case policy_key p of Inr k \<Rightarrow> k | Inl e \<Rightarrow> undefined)"

lemma keyed_policies:
  assumes "\<forall>p \<in> set ps. budget_ok p"
  shows "mapR keyed_policy ps = Inr (map (\<lambda>p. (the_key p, p)) ps)"
proof (rule mapR_total)
  fix p
  assume "p \<in> set ps"
  then obtain w where "keyed_policy p =
      Inr ((Fin w, bp_limit_value p, bp_hard_limit_percent p, scope_rank (bp_scope_type p), bp_id p), p)"
    using policy_key_ok assms by blast
  then show "keyed_policy p = Inr (the_key p, p)"
    by (auto simp: keyed_policy_def the_key_def bindR_eq_Inr)
qed

lemma select_effective_policy_spec:
  assumes "\<forall>p \<in> set policies. bp_is_active p \<longrightarrow> budget_ok p"
  shows "\<exists>r. select_effective_policy policies = Inr r \<and>
    (case r of
       None \<Rightarrow> \<forall>p \<in> set policies. \<not> bp_is_active p
     | Some p \<Rightarrow> p \<in> set policies \<and> bp_is_active p \<and>
         (\<forall>q \<in> set policies. bp_is_active q \<longrightarrow> the_key p \<le> the_key q))"
proof (cases "filter bp_is_active policies")
  case Nil
  then show ?thesis by (simp add: select_effective_policy_def filter_empty_conv)
next
  case (Cons m rest)
  have mr: "set (m # rest) = {p \<in> set policies. bp_is_active p}" using Cons by (metis set_filter)
  let ?k = "map (\<lambda>p. (the_key p, p)) (m # rest)"
  have "\<forall>p \<in> set (m # rest). budget_ok p" using assms mr by auto
  then have k: "mapR keyed_policy (m # rest) = Inr ?k" by (rule keyed_policies)
  let ?r = "py_min_by fst (hd ?k) (tl ?k)"
  have in_k: "?r \<in> set ?k" using py_min_by_in [of fst "hd ?k" "tl ?k"] by simp
  then have r: "fst ?r = the_key (snd ?r)" "snd ?r \<in> set (m # rest)" by auto
  have min: "fst ?r \<le> fst x" if "x \<in> set ?k" for x
    by (rule py_min_by_le) (use that in simp)
  have "\<forall>q \<in> set policies. bp_is_active q \<longrightarrow> the_key (snd ?r) \<le> the_key q"
  proof (intro ballI impI)
    fix q
    assume "q \<in> set policies" "bp_is_active q"
    then have "q \<in> set (m # rest)" using mr by blast
    then have "(the_key q, q) \<in> (\<lambda>p. (the_key p, p)) ` set (m # rest)" by (rule imageI)
    then have "(the_key q, q) \<in> set ?k" by (simp only: set_map)
    from min [OF this] show "the_key (snd ?r) \<le> the_key q" by (simp only: r(1) fst_conv)
  qed
  moreover have "select_effective_policy policies = Inr (Some (snd ?r))"
    unfolding select_effective_policy_def Cons list.case k by simp
  ultimately show ?thesis using r(2) mr by auto
qed

lemma the_key_hard_limit:
  assumes "budget_ok p" "budget_ok q" "the_key p \<le> the_key q" "hard_limit p = Inr x" "hard_limit q = Inr y"
  shows "x \<le> y"
proof -
  have k: "fst (the_key r) = z" if "hard_limit r = Inr z" for r z
    using that by (auto simp: the_key_def policy_key_def hard_limit_def bindR_eq_Inr)
  have "fst (the_key p) \<le> fst (the_key q)" using assms(3) by (auto simp: less_eq_prod_def)
  then show ?thesis using k [OF assms(4)] k [OF assms(5)] by simp
qed

lemma select_order_irrelevant:
  assumes "set ps = set qs" and ok: "\<forall>p \<in> set ps. bp_is_active p \<longrightarrow> budget_ok p"
    and inj: "inj_on bp_id {p \<in> set ps. bp_is_active p}"
  shows "select_effective_policy ps = select_effective_policy qs"
proof -
  obtain r where r: "select_effective_policy ps = Inr r"
    "case r of
       None \<Rightarrow> \<forall>p \<in> set ps. \<not> bp_is_active p
     | Some p \<Rightarrow> p \<in> set ps \<and> bp_is_active p \<and>
         (\<forall>q \<in> set ps. bp_is_active q \<longrightarrow> the_key p \<le> the_key q)"
    using select_effective_policy_spec [OF ok] by (elim exE conjE) (rule that)
  have ok': "\<forall>p \<in> set qs. bp_is_active p \<longrightarrow> budget_ok p" using ok assms(1) by simp
  obtain r' where r': "select_effective_policy qs = Inr r'"
    "case r' of
       None \<Rightarrow> \<forall>p \<in> set qs. \<not> bp_is_active p
     | Some p \<Rightarrow> p \<in> set qs \<and> bp_is_active p \<and>
         (\<forall>q \<in> set qs. bp_is_active q \<longrightarrow> the_key p \<le> the_key q)"
    using select_effective_policy_spec [OF ok'] by (elim exE conjE) (rule that)
  have id: "snd (snd (snd (snd (the_key p)))) = bp_id p" if "budget_ok p" for p
    using policy_key_ok [OF that] by (auto simp: the_key_def keyed_policy_def bindR_eq_Inr)
  have "r = r'"
  proof (cases r)
    case None
    then show ?thesis using r(2) r'(2) assms(1) by (cases r') auto
  next
    case (Some p)
    then have p: "p \<in> set ps" "bp_is_active p" using r(2) by auto
    then obtain q where q: "r' = Some q" using r'(2) assms(1) by (cases r') auto
    then have q': "q \<in> set ps" "bp_is_active q" using r'(2) assms(1) by auto
    have "the_key p = the_key q" using r(2) r'(2) Some q p q' assms(1) by (auto intro: order_antisym)
    then have "bp_id p = bp_id q" using id [of p] id [of q] p q' ok by auto
    then have "p = q" using inj_onD [OF inj] p q' by blast
    then show ?thesis using Some q by simp
  qed
  then show ?thesis using r(1) r'(1) by simp
qed

subsection \<open>Properties\<close>

text \<open>What an evaluation returns, for policies the schema admits.\<close>

lemma quota_evaluate_cases:
  assumes ok: "\<forall>p \<in> set policies. bp_is_active p \<longrightarrow> budget_ok p"
    and run: "quota_evaluate repo policies current requested model_id token_usage = Inr d"
  shows "(qd_effective_policy d = None \<and> (\<forall>p \<in> set policies. \<not> bp_is_active p) \<and> qd_allowed d \<and>
      \<not> qd_hard_limit_reached d \<and> \<not> qd_soft_limit_reached d) \<or>
    (\<exists>p x y. qd_effective_policy d = Some p \<and> p \<in> set policies \<and> bp_is_active p \<and>
       (\<forall>q \<in> set policies. bp_is_active q \<longrightarrow> the_key p \<le> the_key q) \<and>
       effective_limit_value (bp_limit_value p) (bp_soft_limit_percent p) = Inr x \<and>
       hard_limit p = Inr y \<and> qd_soft_limit_reached d = f_ge (qd_projected_usage d) x \<and>
       qd_hard_limit_reached d = f_ge (qd_projected_usage d) y \<and>
       qd_allowed d = (\<not> f_ge (qd_projected_usage d) y))"
proof -
  obtain r where r: "select_effective_policy policies = Inr r"
    "case r of
       None \<Rightarrow> \<forall>p \<in> set policies. \<not> bp_is_active p
     | Some p \<Rightarrow> p \<in> set policies \<and> bp_is_active p \<and>
         (\<forall>q \<in> set policies. bp_is_active q \<longrightarrow> the_key p \<le> the_key q)"
    using select_effective_policy_spec [OF ok] by (elim exE conjE) (rule that)
  show ?thesis
  proof (cases r)
    case None
    then show ?thesis using run r by (auto simp: quota_evaluate_def bindR_eq_Inr Let_def)
  next
    case (Some p)
    then show ?thesis using run r
      by (intro disjI2) (auto simp: quota_evaluate_def bindR_eq_Inr Let_def hard_limit_def)
  qed
qed

text \<open>
  Property C26: usage is let through only when the projected usage is below the hard limit of
  every active budget policy, not just of the one the engine picks.
\<close>

theorem quota_allowed_below_all_limits:
  assumes "\<forall>p \<in> set policies. bp_is_active p \<longrightarrow> budget_ok p"
    and "quota_evaluate repo policies current requested model_id token_usage = Inr d"
    and "qd_allowed d" and "q \<in> set policies" and "bp_is_active q" and "hard_limit q = Inr y"
  shows "\<not> f_ge (qd_projected_usage d) y"
proof -
  obtain p x where p: "p \<in> set policies" "bp_is_active p" "the_key p \<le> the_key q"
    "hard_limit p = Inr x" "\<not> f_ge (qd_projected_usage d) x"
    using quota_evaluate_cases [OF assms(1, 2)] assms(3-5) by blast
  have ok: "budget_ok p" "budget_ok q" using assms(1, 4, 5) p(1, 2) by auto
  have "x \<le> y" by (rule the_key_hard_limit [OF ok p(3, 4) assms(6)])
  moreover obtain w where "hard_limit p = Inr (Fin w)" using policy_key_ok [OF ok(1)] by blast
  ultimately show ?thesis using p(4, 5) f_ge_trans [of "qd_projected_usage d" y x] by auto
qed

text \<open>The hard limit is never reached before the soft limit.\<close>

lemma quota_soft_before_hard:
  assumes "\<forall>p \<in> set policies. bp_is_active p \<longrightarrow> budget_ok p"
    and "quota_evaluate repo policies current requested model_id token_usage = Inr d"
    and "qd_hard_limit_reached d"
  shows "qd_soft_limit_reached d"
proof -
  obtain p x y where p: "p \<in> set policies" "bp_is_active p"
    "effective_limit_value (bp_limit_value p) (bp_soft_limit_percent p) = Inr x" "hard_limit p = Inr y"
    "qd_soft_limit_reached d = f_ge (qd_projected_usage d) x" "f_ge (qd_projected_usage d) y"
    using quota_evaluate_cases [OF assms(1, 2)] assms(3) by auto
  have "budget_ok p" using assms(1) p(1, 2) by blast
  then have "x \<le> y \<and> x \<noteq> NaN \<and> y \<noteq> NaN"
    using p(3, 4) by (intro effective_limit_mono) (auto simp: budget_ok_def hard_limit_def)
  then show ?thesis using p(5, 6) f_ge_trans by blast
qed

text \<open>
  The decision does not depend on the order in which the policies are listed, as
  long as active policies have different identifiers.
\<close>

lemma quota_order_irrelevant:
  assumes "set ps = set qs" and "\<forall>p \<in> set ps. bp_is_active p \<longrightarrow> budget_ok p"
    and "inj_on bp_id {p \<in> set ps. bp_is_active p}"
  shows "quota_evaluate repo ps current requested model_id token_usage =
    quota_evaluate repo qs current requested model_id token_usage"
  using select_order_irrelevant [OF assms] by (simp add: quota_evaluate_def)

definition demo_budget :: "string \<Rightarrow> int \<Rightarrow> BudgetPolicyRecord" where
  "demo_budget i limit =
     \<lparr>bp_id = i, bp_scope_type = ''user'', bp_scope_id = ''u1'', bp_period_type = MONTH,
      bp_metric_type = TOKENS, bp_limit_value = limit, bp_soft_limit_percent = 80,
      bp_hard_limit_percent = 100, bp_is_active = True\<rparr>"

lemma demo_budgets_ok:
  "\<forall>p \<in> set [demo_budget ''a'' 0, demo_budget ''b'' 1000]. bp_is_active p \<longrightarrow> budget_ok p"
  by (simp add: demo_budget_def budget_ok_def)

lemma demo_quota_run:
  assumes "\<forall>p \<in> set policies. bp_is_active p \<longrightarrow> budget_ok p"
  shows "\<exists>d. quota_evaluate None policies current requested None None = Inr d \<and>
    qd_projected_usage d = f_add current (case requested of None \<Rightarrow> Fin 0 | Some r \<Rightarrow> r)"
proof -
  obtain r where r: "select_effective_policy policies = Inr r"
    "case r of
       None \<Rightarrow> \<forall>p \<in> set policies. \<not> bp_is_active p
     | Some p \<Rightarrow> p \<in> set policies \<and> bp_is_active p \<and>
         (\<forall>q \<in> set policies. bp_is_active q \<longrightarrow> the_key p \<le> the_key q)"
    using select_effective_policy_spec [OF assms] by (elim exE conjE) (rule that)
  show ?thesis
  proof (cases r)
    case None
    then show ?thesis using r(1)
      by (simp add: quota_evaluate_def get_active_pricing_def build_usage_snapshot_def Let_def
          resolve_requested_usage_def split: option.splits)
  next
    case (Some p)
    then have ok: "budget_ok p" using r(2) assms by auto
    obtain x y where
      "effective_limit_value (bp_limit_value p) (bp_soft_limit_percent p) = Inr x"
      "effective_limit_value (bp_limit_value p) (bp_hard_limit_percent p) = Inr y"
      using effective_limit_ok [of "bp_limit_value p" "bp_soft_limit_percent p"]
        effective_limit_ok [of "bp_limit_value p" "bp_hard_limit_percent p"] ok
      by (auto simp: budget_ok_def)
    then show ?thesis using r(1) Some
      by (simp add: quota_evaluate_def get_active_pricing_def build_usage_snapshot_def Let_def
          resolve_requested_usage_def split: option.splits)
  qed
qed

lemma f_ge_Fin: "f_ge (Fin a) (Fin b) \<longleftrightarrow> b \<le> a"
  by (simp add: f_ge_def)

lemma quota_allowed_below_all_limits_witness:
  "\<exists>d y. quota_evaluate None [demo_budget ''b'' 1000] (Fin (- 1)) None None None = Inr d \<and>
     qd_allowed d \<and> hard_limit (demo_budget ''b'' 1000) = Inr y \<and> \<not> f_ge (qd_projected_usage d) y"
proof -
  have ok: "\<forall>p \<in> set [demo_budget ''b'' 1000]. bp_is_active p \<longrightarrow> budget_ok p"
    by (simp add: demo_budget_def budget_ok_def)
  obtain d where d: "quota_evaluate None [demo_budget ''b'' 1000] (Fin (- 1)) None None None = Inr d"
    "qd_projected_usage d = Fin (- 1)"
    using demo_quota_run [OF ok, of "Fin (- 1)" None] fl_int [of "- 1"] by (auto simp: f_add_def)
  obtain w where w: "hard_limit (demo_budget ''b'' 1000) = Inr (Fin w)" "0 \<le> w"
  proof -
    obtain z w where zw: "fl (of_int 100 / 100) = Fin z" "0 \<le> z" "fl (of_int 1000 * z) = Fin w"
      "effective_limit_value 1000 100 = Inr (Fin w)"
      using effective_limit_ok [of 1000 100] by auto
    have "0 \<le> w" using fl_nonneg [of "of_int 1000 * z"] zw by simp
    then show thesis using zw(4) by (intro that) (simp_all add: hard_limit_def demo_budget_def)
  qed
  have "qd_allowed d"
    using quota_evaluate_cases [OF ok d(1)] w d(2) by (auto simp: f_ge_Fin)
  then show ?thesis
    using quota_allowed_below_all_limits [OF ok d(1) _ _ _ w(1)] d w(1)
    by (auto simp: demo_budget_def)
qed

end
