(* ===== verification/ResponseParser.thy ===== *)
theory ResponseParser
  imports PyOps
begin

section \<open>Parsing Converse responses (\<open>proxy/bedrock_converse/response_parser.py\<close>)\<close>

text \<open>
  The provider's response, an untyped value, becomes the message the client gets: content blocks,
  thinking blocks, stop reason and token usage. The constants are those of
  \<open>proxy/bedrock_converse/__init__.py\<close>.
\<close>

definition SUPPORTED_STOP_REASONS :: "string set" where
  "SUPPORTED_STOP_REASONS = {''end_turn'', ''max_tokens'', ''stop_sequence'', ''tool_use''}"

definition DEFAULT_MESSAGE_ID :: string where
  "DEFAULT_MESSAGE_ID = ''msg_bedrock''"

definition DEFAULT_STREAM_MESSAGE_ID :: string where
  "DEFAULT_STREAM_MESSAGE_ID = ''msg_bedrock_stream''"

text \<open>\<open>int(usage.get(k, 0) or 0)\<close>.\<close>

definition int_or_zero :: "(string, json) pydict \<Rightarrow> string \<Rightarrow> int res" where
  "int_or_zero usage k = py_int (py_or (dget usage k (JInt 0)) (JInt 0))"

definition normalize_usage :: "json \<Rightarrow> (string, json) pydict res" where
  "normalize_usage usage =
     (case py_or usage (JObj []) of
        JObj u \<Rightarrow>
          bindR (int_or_zero u ''inputTokens'') (\<lambda>input_tokens.
          bindR (int_or_zero u ''outputTokens'') (\<lambda>output_tokens.
          bindR (int_or_zero u ''totalTokens'') (\<lambda>total_tokens.
          bindR (int_or_zero u ''cacheWriteInputTokens'') (\<lambda>cache_write.
          bindR (int_or_zero u ''cacheReadInputTokens'') (\<lambda>cache_read.
          Inr [(''input_tokens'', JInt input_tokens), (''output_tokens'', JInt output_tokens),
               (''total_tokens'', JInt total_tokens),
               (''cache_write_input_tokens'', JInt cache_write),
               (''cache_read_input_tokens'', JInt cache_read),
               (''cache_details'', dget u ''cacheDetails'' JNull)])))))
      | _ \<Rightarrow> Inl attribute_error)"

definition map_stop_reason :: "json \<Rightarrow> (json \<times> (string, json) pydict) res" where
  "map_stop_reason raw_stop_reason =
     (if raw_stop_reason = JNull then Inr (JNull, [])
      else bindR (py_in_set raw_stop_reason SUPPORTED_STOP_REASONS) (\<lambda>supported.
        if supported then Inr (raw_stop_reason, [])
        else Inr (JStr ''end_turn'', [(''raw_stop_reason'', raw_stop_reason)])))"

text \<open>One turn of the loop: content blocks, thinking blocks and provider reasoning it adds.\<close>

definition parse_block :: "json \<Rightarrow> (json list \<times> json list \<times> json list) res" where
  "parse_block block =
     bindR (py_contains ''text'' block) (\<lambda>has_text.
     if has_text then bindR (py_getitem block ''text'') (\<lambda>t.
       Inr ([JObj [(''type'', JStr ''text''), (''text'', t)]], [], []))
     else bindR (py_contains ''toolUse'' block) (\<lambda>has_tool.
     if has_tool then
       bindR (py_getitem block ''toolUse'') (\<lambda>tool_use.
       bindR (py_getitem tool_use ''toolUseId'') (\<lambda>tid.
       bindR (py_getitem tool_use ''name'') (\<lambda>name.
       bindR (py_get tool_use ''input'' (JObj [])) (\<lambda>inp.
       Inr ([JObj [(''type'', JStr ''tool_use''), (''id'', tid), (''name'', name), (''input'', inp)]],
            [], [])))))
     else bindR (py_contains ''reasoningContent'' block) (\<lambda>has_reasoning.
     if has_reasoning then
       bindR (py_getitem block ''reasoningContent'') (\<lambda>reasoning.
       bindR (bindR (py_get reasoning ''reasoningText'' (JObj [])) (\<lambda>t. py_get t ''text'' (JStr [])))
         (\<lambda>reasoning_text.
       bindR (py_get reasoning ''signature'' JNull) (\<lambda>signature.
       Inr ([], [JObj ([(''type'', JStr ''thinking''), (''thinking'', reasoning_text)] @
         (if signature \<noteq> JNull then [(''signature'', signature)] else []))], [reasoning]))))
     else Inr ([], [], []))))"

definition parse_converse_response :: "json \<Rightarrow> json \<Rightarrow> (string, json) pydict res" where
  "parse_converse_response response model =
     bindR (bindR (py_get response ''output'' (JObj [])) (\<lambda>v. py_get v ''message'' (JObj [])))
       (\<lambda>output_message.
     bindR (bindR (py_get output_message ''content'' (JList [])) py_iter) (\<lambda>raw_content.
     bindR (mapR parse_block raw_content) (\<lambda>parts.
     bindR (bindR (py_get response ''stopReason'' JNull) map_stop_reason)
       (\<lambda>(stop_reason, provider_metadata).
     let content_blocks = concat (map fst parts);
         thinking_blocks = concat (map (fst \<circ> snd) parts);
         provider_reasoning = concat (map (snd \<circ> snd) parts);
         metadata = provider_metadata @
           (if provider_reasoning = [] then [] else [(''reasoning'', JList provider_reasoning)])
     in bindR (bindR (py_get response ''requestMetadata'' (JObj []))
          (\<lambda>v. py_get v ''requestId'' (JStr DEFAULT_MESSAGE_ID))) (\<lambda>mid.
        bindR (py_get output_message ''role'' (JStr ''assistant'')) (\<lambda>role.
        bindR (py_get response ''stopSequence'' JNull) (\<lambda>stop_sequence.
        bindR (bindR (py_get response ''usage'' JNull) normalize_usage) (\<lambda>usage.
        Inr ([(''id'', mid), (''type'', JStr ''message''), (''role'', role), (''model'', model),
              (''content'', JList content_blocks), (''stop_reason'', stop_reason),
              (''stop_sequence'', stop_sequence), (''usage'', JObj usage)] @
             (if thinking_blocks = [] then [] else [(''thinking_blocks'', JList thinking_blocks)]) @
             (if metadata = [] then [] else [(''provider_metadata'', JObj metadata)])))))))))) "

subsection \<open>Usage and stop reason\<close>

definition usage_fields :: "string list" where
  "usage_fields = [''input_tokens'', ''output_tokens'', ''total_tokens'', ''cache_write_input_tokens'',
     ''cache_read_input_tokens'']"

text \<open>Every count of a normalised usage is an integer.\<close>

definition usage_ok :: "(string, json) pydict \<Rightarrow> bool" where
  "usage_ok u \<longleftrightarrow> list_all (\<lambda>k. \<exists>n. map_of u k = Some (JInt n)) usage_fields"

lemma normalize_usage_ok: "normalize_usage v = Inr u \<Longrightarrow> usage_ok u"
  by (auto simp: normalize_usage_def usage_ok_def usage_fields_def bindR_eq_Inr split: json.splits)

text \<open>A response that does not parse raises only built-in exceptions.\<close>

lemma only_py_int_or_zero: "only_py (int_or_zero u k)"
  by (simp add: int_or_zero_def only_py_ops)

lemma only_py_normalize_usage: "only_py (normalize_usage v)"
  unfolding normalize_usage_def
  by (cases "py_or v (JObj [])") (auto intro!: only_py_intros only_py_int_or_zero)

lemma only_py_parse: "only_py (parse_converse_response response model)"
  unfolding parse_converse_response_def parse_block_def map_stop_reason_def Let_def
  by (intro only_py_intros only_py_normalize_usage)

lemma map_stop_reason_supported:
  assumes "map_stop_reason v = Inr (r, md)"
  shows "r = JNull \<or> (\<exists>s \<in> SUPPORTED_STOP_REASONS. r = JStr s)"
  using assms
  by (cases v) (auto simp: map_stop_reason_def py_in_set_def SUPPORTED_STOP_REASONS_def split: if_splits)

lemma parse_converse_response_fields:
  assumes "parse_converse_response response model = Inr m"
  shows "(map_of m ''stop_reason'' = Some JNull \<or>
      (\<exists>s \<in> SUPPORTED_STOP_REASONS. map_of m ''stop_reason'' = Some (JStr s))) \<and>
    (\<exists>u. map_of m ''usage'' = Some (JObj u) \<and> usage_ok u) \<and> map_of m ''model'' = Some model \<and>
    map_of m ''type'' = Some (JStr ''message'')"
proof -
  obtain content sr md mid role ss u rest where
    sr: "bindR (py_get response ''stopReason'' JNull) map_stop_reason = Inr (sr, md)"
    and u: "bindR (py_get response ''usage'' JNull) normalize_usage = Inr u"
    and m: "m = [(''id'', mid), (''type'', JStr ''message''), (''role'', role), (''model'', model),
              (''content'', JList content), (''stop_reason'', sr),
              (''stop_sequence'', ss), (''usage'', JObj u)] @ rest"
    using assms unfolding parse_converse_response_def Let_def
    by (clarsimp simp only: bindR_eq_Inr split_paired_Ex prod.case sum.inject append_assoc) blast
  have "sr = JNull \<or> (\<exists>s \<in> SUPPORTED_STOP_REASONS. sr = JStr s)"
    using sr by (auto simp: bindR_eq_Inr dest: map_stop_reason_supported)
  moreover have "usage_ok u" using u by (auto simp: bindR_eq_Inr dest: normalize_usage_ok)
  ultimately show ?thesis by (auto simp: m)
qed

subsection \<open>Provider messages\<close>

text \<open>
  The blocks a provider message is made of, how the Converse API writes them, and what the client is
  to get for them. The signature of a reasoning block stands in \<open>reasoningText\<close>, next to the text;
  the parser looks for it one level up, so the client's thinking block is without it.
\<close>

datatype provider_block =
    PText string
  | PToolUse string string json
  | PReasoning string "string option"

fun reasoning_json :: "string \<Rightarrow> string option \<Rightarrow> json" where
  "reasoning_json t sig = JObj [(''reasoningText'', JObj ((''text'', JStr t) #
     (case sig of None \<Rightarrow> [] | Some s \<Rightarrow> [(''signature'', JStr s)])))]"

fun provider_json :: "provider_block \<Rightarrow> json" where
  "provider_json (PText t) = JObj [(''text'', JStr t)]"
| "provider_json (PToolUse i n inp) = JObj [(''toolUse'', JObj
     [(''toolUseId'', JStr i), (''name'', JStr n), (''input'', inp)])]"
| "provider_json (PReasoning t sig) = JObj [(''reasoningContent'', reasoning_json t sig)]"

fun client_content :: "provider_block \<Rightarrow> json list" where
  "client_content (PText t) = [JObj [(''type'', JStr ''text''), (''text'', JStr t)]]"
| "client_content (PToolUse i n inp) = [JObj [(''type'', JStr ''tool_use''), (''id'', JStr i),
     (''name'', JStr n), (''input'', inp)]]"
| "client_content (PReasoning t sig) = []"

fun client_thinking :: "provider_block \<Rightarrow> json list" where
  "client_thinking (PReasoning t sig) = [JObj [(''type'', JStr ''thinking''), (''thinking'', JStr t)]]"
| "client_thinking b = []"

fun provider_reasoning_of :: "provider_block \<Rightarrow> json list" where
  "provider_reasoning_of (PReasoning t sig) = [reasoning_json t sig]"
| "provider_reasoning_of b = []"

text \<open>What is kept of the provider's answer that has no place in the client's message.\<close>

definition kept_metadata :: "string \<Rightarrow> provider_block list \<Rightarrow> (string, json) pydict" where
  "kept_metadata stop blocks =
     (if stop \<in> SUPPORTED_STOP_REASONS then [] else [(''raw_stop_reason'', JStr stop)]) @
     (let rs = concat (map provider_reasoning_of blocks)
      in if rs = [] then [] else [(''reasoning'', JList rs)])"

definition provider_response ::
    "string \<Rightarrow> string \<Rightarrow> provider_block list \<Rightarrow> string \<Rightarrow> int \<Rightarrow> int \<Rightarrow> json" where
  "provider_response rid role blocks stop inp out =
     JObj [(''output'', JObj [(''message'', JObj [(''role'', JStr role),
             (''content'', JList (map provider_json blocks))])]),
           (''stopReason'', JStr stop),
           (''requestMetadata'', JObj [(''requestId'', JStr rid)]),
           (''usage'', JObj [(''inputTokens'', JInt inp), (''outputTokens'', JInt out),
             (''totalTokens'', JInt (inp + out))])]"

lemma parse_provider_block:
  "parse_block (provider_json b) = Inr (client_content b, client_thinking b, provider_reasoning_of b)"
  by (cases b) (auto simp: parse_block_def dget_def split: option.splits)

lemma parse_provider_blocks:
  "mapR parse_block (map provider_json bs) =
     Inr (map (\<lambda>b. (client_content b, client_thinking b, provider_reasoning_of b)) bs)"
  by (induction bs) (simp_all add: parse_provider_block)

lemma int_or_zero_JInt: "map_of u k = Some (JInt n) \<Longrightarrow> int_or_zero u k = Inr n"
  by (simp add: int_or_zero_def dget_def py_or_def)

lemma int_or_zero_None: "map_of u k = None \<Longrightarrow> int_or_zero u k = Inr 0"
  by (simp add: int_or_zero_def dget_def py_or_def)

lemma map_stop_reason_str:
  "map_stop_reason (JStr s) = Inr (if s \<in> SUPPORTED_STOP_REASONS then (JStr s, [])
     else (JStr ''end_turn'', [(''raw_stop_reason'', JStr s)]))"
  by (simp add: map_stop_reason_def py_in_set_def)

subsection \<open>Properties\<close>


text \<open>The shapes of the blocks a client reads.\<close>

fun content_block_ok :: "json \<Rightarrow> bool" where
  "content_block_ok (JObj d) \<longleftrightarrow>
     map_of d ''type'' = Some (JStr ''text'') \<and> map fst d = [''type'', ''text''] \<or>
     map_of d ''type'' = Some (JStr ''tool_use'') \<and> map fst d = [''type'', ''id'', ''name'', ''input'']"
| "content_block_ok v \<longleftrightarrow> False"

fun thinking_block_ok :: "json \<Rightarrow> bool" where
  "thinking_block_ok (JObj d) \<longleftrightarrow> map_of d ''type'' = Some (JStr ''thinking'') \<and>
     (map fst d = [''type'', ''thinking''] \<or> map fst d = [''type'', ''thinking'', ''signature''])"
| "thinking_block_ok v \<longleftrightarrow> False"

lemma parse_block_ok:
  "parse_block v = Inr (cs, ts, rs) \<Longrightarrow> list_all content_block_ok cs \<and> list_all thinking_block_ok ts"
  by (auto simp: parse_block_def bindR_eq_Inr split: if_splits)

lemma parse_blocks_ok:
  "mapR parse_block vs = Inr parts \<Longrightarrow> list_all content_block_ok (concat (map fst parts)) \<and>
     list_all thinking_block_ok (concat (map (fst \<circ> snd) parts))"
proof (induction vs arbitrary: parts)
  case (Cons v vs)
  then obtain p ps where p: "parse_block v = Inr p" "mapR parse_block vs = Inr ps" "parts = p # ps"
    by (auto simp: bindR_eq_Inr)
  then show ?case using Cons.IH [OF p(2)] parse_block_ok [of v "fst p" "fst (snd p)" "snd (snd p)"]
    by simp
qed simp

text \<open>
  Property C35: whatever the provider sends, a response that parses is one a client of the messages
  API can read: its content are text and tool-use blocks with their keys, thinking blocks, if there
  are any, stand beside them in their own list, the stop reason is one the client knows (or null),
  every token count is an integer, and the model is the one the client asked for.
\<close>

theorem parsed_response_well_typed:
  assumes "parse_converse_response response model = Inr m"
  shows "(\<exists>bs. map_of m ''content'' = Some (JList bs) \<and> list_all content_block_ok bs) \<and>
    (map_of m ''thinking_blocks'' = None \<or>
      (\<exists>bs. map_of m ''thinking_blocks'' = Some (JList bs) \<and> bs \<noteq> [] \<and> list_all thinking_block_ok bs)) \<and>
    (map_of m ''stop_reason'' = Some JNull \<or>
      (\<exists>s \<in> SUPPORTED_STOP_REASONS. map_of m ''stop_reason'' = Some (JStr s))) \<and>
    (\<exists>u. map_of m ''usage'' = Some (JObj u) \<and> usage_ok u) \<and> map_of m ''model'' = Some model \<and>
    map_of m ''type'' = Some (JStr ''message'')"
proof -
  obtain parts sr md mid role ss u raw_content where
    parts: "mapR parse_block raw_content = Inr parts"
    and m: "m = [(''id'', mid), (''type'', JStr ''message''), (''role'', role), (''model'', model),
              (''content'', JList (concat (map fst parts))), (''stop_reason'', sr),
              (''stop_sequence'', ss), (''usage'', JObj u)] @
             (if concat (map (fst \<circ> snd) parts) = [] then []
              else [(''thinking_blocks'', JList (concat (map (fst \<circ> snd) parts)))]) @
             (if md = [] then [] else [(''provider_metadata'', JObj md)])"
    using assms unfolding parse_converse_response_def Let_def
    by (clarsimp simp only: bindR_eq_Inr split_paired_Ex prod.case sum.inject)
  have "map_of m ''content'' = Some (JList (concat (map fst parts)))"
    "map_of m ''thinking_blocks'' = (if concat (map (fst \<circ> snd) parts) = [] then None
       else Some (JList (concat (map (fst \<circ> snd) parts))))"
    unfolding m by auto
  then show ?thesis
    using parse_converse_response_fields [OF assms] parse_blocks_ok [OF parts] by (simp only:) auto
qed

definition demo_response :: json where
  "demo_response = JObj [(''output'', JObj [(''message'', JObj [(''content'', JList
     [JObj [(''text'', JStr ''x'')], JObj [(''reasoningContent'', JObj [])]])])])]"

lemma parsed_response_well_typed_witness:
  "\<exists>m bs ts. parse_converse_response demo_response JNull = Inr m \<and>
     map_of m ''content'' = Some (JList bs) \<and> bs \<noteq> [] \<and> list_all content_block_ok bs \<and>
     map_of m ''thinking_blocks'' = Some (JList ts) \<and> list_all thinking_block_ok ts"
proof -
  obtain m where m: "parse_converse_response demo_response JNull = Inr m"
    "map_of m ''content'' = Some (JList [JObj [(''type'', JStr ''text''), (''text'', JStr ''x'')]])"
    "map_of m ''thinking_blocks'' = Some (JList [JObj [(''type'', JStr ''thinking''), (''thinking'', JStr [])]])"
    by (simp add: parse_converse_response_def demo_response_def dget_def parse_block_def
        map_stop_reason_def normalize_usage_def py_or_def int_or_zero_def Let_def)
  from parsed_response_well_typed [OF m(1)] show ?thesis using m by auto
qed

end
