(* ===== verification/AuditLogger.thy ===== *)
theory AuditLogger
  imports PolicyEngine QuotaEngine ResponseParser
begin

section \<open>Auditing (\<open>proxy/audit_logger.py\<close>, \<open>repositories/usage_repository.py\<close>)\<close>

text \<open>
  \<open>AuditLogger\<close> builds the usage event and the audit event of a request and writes them to the
  usage repository. The repository, the clock and the identifier generator are operations on an
  arbitrary state; the events are written only after both have been built.
\<close>

definition AUDIT_EVENT_AUTH_SUCCESS :: string where "AUDIT_EVENT_AUTH_SUCCESS = ''auth_success''"

definition AUDIT_EVENT_AUTH_FAILURE :: string where "AUDIT_EVENT_AUTH_FAILURE = ''auth_failure''"

definition AUDIT_EVENT_POLICY_DENIED :: string where "AUDIT_EVENT_POLICY_DENIED = ''policy_denied''"

definition AUDIT_EVENT_QUOTA_BLOCKED :: string where
  "AUDIT_EVENT_QUOTA_BLOCKED = ''quota_hard_limit_blocked''"

definition AUDIT_EVENT_RATE_LIMITED :: string where "AUDIT_EVENT_RATE_LIMITED = ''rate_limited''"

definition AUDIT_DECISION_ALLOWED :: string where "AUDIT_DECISION_ALLOWED = ''allowed''"

definition AUDIT_DECISION_DENIED :: string where "AUDIT_DECISION_DENIED = ''denied''"

definition DENIAL_REASON_AUTHENTICATION_FAILED :: string where
  "DENIAL_REASON_AUTHENTICATION_FAILED = ''authentication_failed''"

definition DENIAL_REASON_RATE_LIMITED :: string where
  "DENIAL_REASON_RATE_LIMITED = ''rate_limited''"

lemmas audit_constants =
  AUDIT_EVENT_AUTH_SUCCESS_def AUDIT_EVENT_AUTH_FAILURE_def AUDIT_EVENT_POLICY_DENIED_def
  AUDIT_EVENT_QUOTA_BLOCKED_def AUDIT_EVENT_RATE_LIMITED_def AUDIT_DECISION_ALLOWED_def
  AUDIT_DECISION_DENIED_def DENIAL_REASON_AUTHENTICATION_FAILED_def DENIAL_REASON_RATE_LIMITED_def

record 's AuditLogger =
  al_record_usage :: "UsageEventRecord \<Rightarrow> ('s, unit) op"
  al_record_audit :: "AuditEventRecord \<Rightarrow> ('s, unit) op"
  al_clock :: "('s, datetime) op"
  al_event_id :: "('s, string) op"

subsection \<open>Payloads\<close>

definition policy_result_payload :: "PolicyDecision \<Rightarrow> json" where
  "policy_result_payload d = JObj
     [(''allowed'', JBool (pd_allowed d)),
      (''denial_reason'', optional_str (pd_denial_reason d)),
      (''effective_max_output_tokens'', optional_int (pd_effective_max_output_tokens d)),
      (''trace'', JObj
         [(''evaluated_scopes'', JList (map JStr (pt_evaluated_scopes (pd_trace d)))),
          (''matched_policy_ids'', JList (map JStr (pt_matched_policy_ids (pd_trace d))))])]"

definition denial_reason_to_event_type :: "string \<Rightarrow> string" where
  "denial_reason_to_event_type denial_reason =
     (if denial_reason = DENIAL_QUOTA_HARD_LIMIT_EXCEEDED then AUDIT_EVENT_QUOTA_BLOCKED
      else if denial_reason = DENIAL_REASON_RATE_LIMITED then AUDIT_EVENT_RATE_LIMITED
      else if denial_reason = DENIAL_REASON_AUTHENTICATION_FAILED then AUDIT_EVENT_AUTH_FAILURE
      else AUDIT_EVENT_POLICY_DENIED)"

text \<open>\<open>usage_snapshot.<field> if usage_snapshot else 0.0\<close>.\<close>

definition snapshot_cost :: "(UsageCostSnapshot \<Rightarrow> float64) \<Rightarrow> UsageCostSnapshot option \<Rightarrow> float64" where
  "snapshot_cost field snapshot = (case snapshot of None \<Rightarrow> Fin 0 | Some u \<Rightarrow> field u)"

text \<open>The usage event, with its fields evaluated in the order the code gives them.\<close>

definition usage_event_of ::
    "string \<Rightarrow> AuthenticatedRequestContext \<Rightarrow> string \<Rightarrow> json \<Rightarrow> string option \<Rightarrow> (string, json) pydict \<Rightarrow>
     UsageCostSnapshot option \<Rightarrow> int option \<Rightarrow> datetime \<Rightarrow> UsageEventRecord res" where
  "usage_event_of eid authenticated request_id requested_model resolved_model usage snapshot latency_ms created_at =
     bindR (ac_user authenticated) (\<lambda>user.
     bindR (int_or_zero usage ''input_tokens'') (\<lambda>input_tokens.
     bindR (int_or_zero usage ''output_tokens'') (\<lambda>output_tokens.
     bindR (int_or_zero usage ''total_tokens'') (\<lambda>total_tokens.
     bindR (int_or_zero usage ''cache_write_input_tokens'') (\<lambda>cache_write.
     bindR (int_or_zero usage ''cache_read_input_tokens'') (\<lambda>cache_read.
     Inr \<lparr>ue_id = eid, ue_request_id = request_id, ue_user_id = uc_user_id user,
       ue_user_email = uc_email user, ue_requested_model = requested_model,
       ue_resolved_model = resolved_model,
       ue_pricing_catalog_id = map_option cs_pricing_catalog_id snapshot,
       ue_input_tokens = input_tokens, ue_output_tokens = output_tokens,
       ue_total_tokens = total_tokens, ue_cache_write_input_tokens = cache_write,
       ue_cache_read_input_tokens = cache_read, ue_cache_details = dget usage ''cache_details'' JNull,
       ue_estimated_input_cost_usd = snapshot_cost cs_estimated_input_cost_usd snapshot,
       ue_estimated_output_cost_usd = snapshot_cost cs_estimated_output_cost_usd snapshot,
       ue_estimated_cache_write_cost_usd = snapshot_cost cs_estimated_cache_write_cost_usd snapshot,
       ue_estimated_cache_read_cost_usd = snapshot_cost cs_estimated_cache_read_cost_usd snapshot,
       ue_estimated_total_cost_usd = snapshot_cost cs_estimated_total_cost_usd snapshot,
       ue_latency_ms = latency_ms, ue_team_id = None, ue_created_at = created_at\<rparr>))))))"

subsection \<open>Recording\<close>

definition record_success ::
    "'s AuditLogger \<Rightarrow> AuthenticatedRequestContext \<Rightarrow> string \<Rightarrow> json \<Rightarrow> string option \<Rightarrow> PolicyDecision \<Rightarrow>
     (string, json) pydict \<Rightarrow> UsageCostSnapshot option \<Rightarrow> int option \<Rightarrow> ('s, unit) op" where
  "record_success logger authenticated request_id requested_model resolved_model policy_decision
       usage snapshot latency_ms =
     bindM (al_clock logger) (\<lambda>created_at.
     bindM (al_event_id logger) (\<lambda>usage_id.
     bindM (liftR (usage_event_of usage_id authenticated request_id requested_model resolved_model
         usage snapshot latency_ms created_at)) (\<lambda>usage_event.
     bindM (al_event_id logger) (\<lambda>audit_id.
     bindM (liftR (ac_user authenticated)) (\<lambda>user.
     bindM (al_record_usage logger usage_event) (\<lambda>_.
     al_record_audit logger
       \<lparr>ae_id = audit_id, ae_request_id = request_id, ae_event_type = AUDIT_EVENT_AUTH_SUCCESS,
        ae_actor_user_id = Some (uc_user_id user), ae_actor_user_email = uc_email user,
        ae_decision = AUDIT_DECISION_ALLOWED, ae_requested_model = requested_model,
        ae_resolved_model = resolved_model, ae_denial_reason = None,
        ae_policy_result = policy_result_payload policy_decision, ae_team_id = None,
        ae_created_at = created_at\<rparr>))))))"

definition record_denial ::
    "'s AuditLogger \<Rightarrow> string \<Rightarrow> string \<Rightarrow> AuthenticatedRequestContext option \<Rightarrow> json \<Rightarrow> string option \<Rightarrow>
     PolicyDecision option \<Rightarrow> ('s, unit) op" where
  "record_denial logger request_id denial_reason authenticated requested_model resolved_model
       policy_decision =
     bindM (al_event_id logger) (\<lambda>audit_id.
     bindM (liftR (case authenticated of
         None \<Rightarrow> Inr (None, None)
       | Some a \<Rightarrow> bindR (ac_user a) (\<lambda>u. Inr (Some (uc_user_id u), uc_email u)))) (\<lambda>(actor, email).
     bindM (al_clock logger) (\<lambda>created_at.
     al_record_audit logger
       \<lparr>ae_id = audit_id, ae_request_id = request_id,
        ae_event_type = denial_reason_to_event_type denial_reason,
        ae_actor_user_id = actor, ae_actor_user_email = email,
        ae_decision = AUDIT_DECISION_DENIED, ae_requested_model = requested_model,
        ae_resolved_model = resolved_model, ae_denial_reason = Some denial_reason,
        ae_policy_result = (case policy_decision of None \<Rightarrow> JNull | Some d \<Rightarrow> policy_result_payload d),
        ae_team_id = None, ae_created_at = created_at\<rparr>)))"

text \<open>A normalised usage never makes the logger raise: its counts are integers.\<close>

lemma int_or_zero_usage_ok:
  "usage_ok u \<Longrightarrow> k \<in> set usage_fields \<Longrightarrow> \<exists>n. map_of u k = Some (JInt n) \<and> int_or_zero u k = Inr n"
  by (auto simp: usage_ok_def list_all_iff int_or_zero_def py_or_def dget_def)

lemma usage_event_total:
  assumes "usage_ok u" and "ac_user a = Inr user"
  shows "\<exists>e. usage_event_of eid a rid m r u s l t = Inr e \<and> ue_id e = eid \<and> ue_request_id e = rid \<and>
    ue_user_id e = uc_user_id user \<and> ue_resolved_model e = r \<and> ue_created_at e = t \<and>
    map_of u ''input_tokens'' = Some (JInt (ue_input_tokens e)) \<and>
    map_of u ''output_tokens'' = Some (JInt (ue_output_tokens e)) \<and>
    map_of u ''total_tokens'' = Some (JInt (ue_total_tokens e)) \<and>
    map_of u ''cache_write_input_tokens'' = Some (JInt (ue_cache_write_input_tokens e)) \<and>
    map_of u ''cache_read_input_tokens'' = Some (JInt (ue_cache_read_input_tokens e))"
  using int_or_zero_usage_ok [OF assms(1), of "''input_tokens''"]
    int_or_zero_usage_ok [OF assms(1), of "''output_tokens''"]
    int_or_zero_usage_ok [OF assms(1), of "''total_tokens''"]
    int_or_zero_usage_ok [OF assms(1), of "''cache_write_input_tokens''"]
    int_or_zero_usage_ok [OF assms(1), of "''cache_read_input_tokens''"] assms(2)
  by (auto simp: usage_event_of_def usage_fields_def)

end
