(* ===== verification/RateLimiter.thy ===== *)
theory RateLimiter
  imports Domain
begin

section \<open>The rate limiter (\<open>proxy/rate_limiter.py\<close>)\<close>

text \<open>
  \<open>InMemoryRateLimiter\<close>: a list of request times per user, filtered at each check to the current
  clock minute. \<open>limiter_reaches\<close> is the step relation of a limiter under a clock that does not
  go back; its history records who was let through when.
\<close>

record RateLimitDecision =
  rl_allowed :: bool
  rl_retry_after_seconds :: "int option"
  rl_remaining_requests :: "int option"

type_synonym windows = "(string, datetime list) pydict"

definition requests_per_minute :: "int \<Rightarrow> int" where
  "requests_per_minute n = max 1 n"

text \<open>\<open>now.replace(second=0, microsecond=0)\<close>.\<close>

definition window_start :: "datetime \<Rightarrow> datetime" where
  "window_start now = now - now mod minute"

definition rate_check :: "int \<Rightarrow> datetime \<Rightarrow> string \<Rightarrow> windows \<Rightarrow> RateLimitDecision \<times> windows" where
  "rate_check n now user_id windows =
     (let limit = requests_per_minute n;
          start = window_start now;
          window_end = start + minute;
          active_requests = filter (\<lambda>t. start \<le> t)
            (case map_of windows user_id of None \<Rightarrow> [] | Some ts \<Rightarrow> ts)
      in if limit \<le> int (length active_requests)
         then (\<lparr>rl_allowed = False,
                rl_retry_after_seconds = Some (max 1 ((window_end - now) div second)),
                rl_remaining_requests = Some 0\<rparr>,
               dset user_id active_requests windows)
         else (\<lparr>rl_allowed = True, rl_retry_after_seconds = None,
                rl_remaining_requests =
                  Some (max 0 (limit - int (length (active_requests @ [now]))))\<rparr>,
               dset user_id (active_requests @ [now]) windows))"

subsection \<open>Minutes\<close>

lemma minute_pos: "0 < minute"
  by (simp add: time_defs)

lemma window_start_bounds: "window_start t \<le> t \<and> t < window_start t + minute"
  using minute_pos by (simp add: window_start_def)

lemma window_start_mono: "s \<le> t \<Longrightarrow> window_start s \<le> window_start t"
proof -
  assume st: "s \<le> t"
  have w: "window_start x = x div minute * minute" for x
    by (simp add: window_start_def minus_mod_eq_div_mult)
  show ?thesis using zdiv_mono1 [OF st minute_pos] minute_pos unfolding w by simp
qed

lemma window_start_same: "window_start (window_start t) = window_start t"
  by (simp add: window_start_def mod_diff_left_eq)

lemma window_start_le: "window_start s \<le> t \<Longrightarrow> window_start s \<le> window_start t"
  using window_start_mono [of "window_start s" t] by (simp add: window_start_same)

subsection \<open>Histories\<close>

type_synonym history = "(datetime \<times> string \<times> bool) list"

inductive limiter_reaches :: "int \<Rightarrow> history \<Rightarrow> windows \<Rightarrow> bool" where
  start: "limiter_reaches n [] []"
| step: "limiter_reaches n h w \<Longrightarrow> list_all (\<lambda>(t, _). t \<le> now) h \<Longrightarrow>
    rate_check n now u w = (d, w') \<Longrightarrow> limiter_reaches n (h @ [(now, u, rl_allowed d)]) w'"

inductive_cases limiter_reaches_snocE: "limiter_reaches n (h @ [e]) w"

text \<open>The times at which a user was let through since a moment.\<close>

definition allowed_since :: "history \<Rightarrow> string \<Rightarrow> datetime \<Rightarrow> datetime list" where
  "allowed_since h u s = map fst (filter (\<lambda>(t, v, a). v = u \<and> a \<and> s \<le> t) h)"

definition allowed_in_window :: "history \<Rightarrow> string \<Rightarrow> datetime \<Rightarrow> datetime list" where
  "allowed_in_window h u s = filter (\<lambda>t. window_start t = s) (allowed_since h u s)"

definition stored :: "windows \<Rightarrow> string \<Rightarrow> datetime list" where
  "stored w u = (case map_of w u of None \<Rightarrow> [] | Some ts \<Rightarrow> ts)"

lemma stored_dset: "stored (dset u ts w) v = (if v = u then ts else stored w v)"
  by (simp add: stored_def)

lemma allowed_since_snoc:
  "allowed_since (h @ [(now, v, a)]) u s = allowed_since h u s @ (if v = u \<and> a \<and> s \<le> now then [now] else [])"
  by (simp add: allowed_since_def)

lemma rate_check_run:
  "rate_check n now u w = (d, w') \<Longrightarrow>
    (let active = filter (\<lambda>t. window_start now \<le> t) (stored w u) in
     rl_allowed d = (int (length active) < requests_per_minute n) \<and>
     w' = dset u (if rl_allowed d then active @ [now] else active) w)"
  by (auto simp: rate_check_def stored_def Let_def split: if_splits)

text \<open>
  The invariant: what is stored for a user since any minute not before the last call is exactly
  the user's allowed calls of the history, and no minute has more allowed calls than the limit.
\<close>

definition limiter_inv :: "int \<Rightarrow> history \<Rightarrow> windows \<Rightarrow> bool" where
  "limiter_inv n h w \<longleftrightarrow>
     (\<forall>u s. list_all (\<lambda>(t, _). window_start t \<le> s) h \<longrightarrow>
        filter (\<lambda>t. s \<le> t) (stored w u) = allowed_since h u s) \<and>
     (\<forall>u s. int (length (allowed_in_window h u s)) \<le> requests_per_minute n)"

lemma filter_since: "s' \<le> s \<Longrightarrow> filter (\<lambda>t. s \<le> t) (allowed_since h u s') = allowed_since h u s"
  by (induction h) (auto simp: allowed_since_def)

lemma limiter_inv_start: "limiter_inv n [] []"
  by (simp add: limiter_inv_def stored_def allowed_since_def allowed_in_window_def
      requests_per_minute_def)

lemma limiter_inv_step:
  assumes inv: "limiter_inv n h w" and past: "list_all (\<lambda>(t, _). t \<le> now) h"
    and chk: "rate_check n now u w = (d, w')"
  shows "limiter_inv n (h @ [(now, u, rl_allowed d)]) w'"
proof -
  let ?s0 = "window_start now"
  let ?active = "filter (\<lambda>t. ?s0 \<le> t) (stored w u)"
  have d: "rl_allowed d = (int (length ?active) < requests_per_minute n)"
    and w': "w' = dset u (if rl_allowed d then ?active @ [now] else ?active) w"
    using rate_check_run [OF chk] by (simp_all add: Let_def)
  have before: "list_all (\<lambda>(t, _). window_start t \<le> ?s0) h"
    using past window_start_mono by (auto simp: list_all_iff)
  have active: "?active = allowed_since h u ?s0" using inv before by (auto simp: limiter_inv_def)
  have st: "filter (\<lambda>t. s \<le> t) (stored w' v) = allowed_since (h @ [(now, u, rl_allowed d)]) v s"
    if s: "list_all (\<lambda>(t, _). window_start t \<le> s) (h @ [(now, u, rl_allowed d)])" for v s
  proof -
    have s0: "?s0 \<le> s" and sh: "list_all (\<lambda>(t, _). window_start t \<le> s) h" using s by auto
    show ?thesis
    proof (cases "v = u")
      case True
      then show ?thesis
        by (simp add: w' stored_dset active filter_since [OF s0] allowed_since_snoc)
    next
      case False
      then show ?thesis using inv sh by (simp add: limiter_inv_def w' stored_dset allowed_since_snoc)
    qed
  qed
  have cnt: "int (length (allowed_in_window (h @ [(now, u, rl_allowed d)]) v s)) \<le> requests_per_minute n"
    for v s
  proof (cases "v = u \<and> rl_allowed d \<and> s \<le> now \<and> ?s0 = s")
    case True
    have "length (allowed_in_window h u s) \<le> length ?active"
      unfolding active using True by (auto simp: allowed_in_window_def)
    moreover have "allowed_in_window (h @ [(now, u, rl_allowed d)]) v s = allowed_in_window h u s @ [now]"
      using True by (simp add: allowed_in_window_def allowed_since_snoc)
    moreover have "int (length ?active) < requests_per_minute n" using True d by blast
    ultimately show ?thesis by (simp only: length_append) simp
  next
    case False
    then have "allowed_in_window (h @ [(now, u, rl_allowed d)]) v s = allowed_in_window h v s"
      by (auto simp: allowed_in_window_def allowed_since_snoc)
    then show ?thesis using inv by (simp add: limiter_inv_def)
  qed
  show ?thesis unfolding limiter_inv_def using st cnt by blast
qed

lemma limiter_reaches_inv: "limiter_reaches n h w \<Longrightarrow> limiter_inv n h w"
  by (induction rule: limiter_reaches.induct) (auto intro: limiter_inv_start limiter_inv_step)

subsection \<open>Properties\<close>

lemma limiter_per_minute:
  assumes "limiter_reaches n h w"
  shows "int (length (filter (\<lambda>(t, v, a). v = u \<and> a \<and> window_start t = window_start s) h)) \<le> max 1 n"
proof -
  have "filter (\<lambda>(t, v, a). v = u \<and> a \<and> window_start t = window_start s) h =
      filter (\<lambda>(t, v, a). window_start t = window_start s)
        (filter (\<lambda>(t, v, a). v = u \<and> a \<and> window_start s \<le> t) h)"
    using window_start_bounds by (auto simp: case_prod_unfold intro!: filter_cong) metis
  then have "length (filter (\<lambda>(t, v, a). v = u \<and> a \<and> window_start t = window_start s) h) =
      length (allowed_in_window h u (window_start s))"
    by (simp add: allowed_in_window_def allowed_since_def filter_map comp_def case_prod_unfold)
  then show ?thesis
    using limiter_reaches_inv [OF assms] by (simp add: limiter_inv_def requests_per_minute_def)
qed

text \<open>
  However the calls of the users interleave, as long as the clock does not go back,
  a user is let through at most the configured number of times (at least one) in any clock
  minute.
\<close>

lemma rate_limit_per_minute:
  assumes "limiter_reaches n h w"
  shows "int (length (filter (\<lambda>(t, v, a). v = u \<and> a \<and> window_start t = window_start s) h)) \<le> max 1 n"
  by (rule limiter_per_minute [OF assms])

text \<open>
  No user is locked out by others or by an earlier minute: a user with fewer allowed
  calls in the current minute than the limit is let through, and otherwise is refused.
\<close>

lemma rate_limit_exact:
  assumes "limiter_reaches n h w" and "list_all (\<lambda>(t, _). t \<le> now) h"
  shows "rl_allowed (fst (rate_check n now u w)) \<longleftrightarrow>
    int (length (filter (\<lambda>(t, v, a). v = u \<and> a \<and> window_start now \<le> t) h)) < max 1 n"
proof -
  obtain d w' where d: "rate_check n now u w = (d, w')" by force
  have "list_all (\<lambda>(t, _). window_start t \<le> window_start now) h"
    using assms(2) window_start_mono by (auto simp: list_all_iff)
  then have "filter (\<lambda>t. window_start now \<le> t) (stored w u) = allowed_since h u (window_start now)"
    using limiter_reaches_inv [OF assms(1)] by (auto simp: limiter_inv_def)
  then show ?thesis
    using rate_check_run [OF d] by (simp add: d Let_def requests_per_minute_def allowed_since_def)
qed

text \<open>
  A refusal tells the user to wait between 1 and 60 seconds, at most until the next
  minute if a whole second is left, and one second more than told is always enough; the number is
  rounded down, so waiting just as long can fall short by less than a second.
\<close>

lemma rate_limit_retry_after:
  assumes "rate_check n now u w = (d, w')" and "\<not> rl_allowed d"
  shows "\<exists>r. rl_retry_after_seconds d = Some r \<and> rl_remaining_requests d = Some 0 \<and>
    1 \<le> r \<and> r \<le> 60 \<and>
    (second \<le> window_start now + minute - now \<longrightarrow> now + r * second \<le> window_start now + minute) \<and>
    window_start now + minute \<le> now + (r + 1) * second"
proof -
  let ?left = "window_start now + minute - now"
  have l: "0 < ?left" "?left \<le> 60 * second"
    using window_start_bounds [of now] by (simp_all add: minute_def)
  have r: "rl_retry_after_seconds d = Some (max 1 (?left div second))" "rl_remaining_requests d = Some 0"
    using assms by (auto simp: rate_check_def Let_def split: if_splits)
  have s: "0 < second" by (simp add: second_def)
  have dm: "?left = ?left div second * second + ?left mod second" by simp
  have md: "0 \<le> ?left mod second" "?left mod second < second" using s by simp_all
  have "?left div second \<le> 60"
    using zdiv_mono1 [OF l(2) s] by (simp add: second_def)
  moreover have "second \<le> ?left \<Longrightarrow> 1 \<le> ?left div second"
    using zdiv_mono1 [of second ?left second] s by simp
  moreover have "now + max 1 (?left div second) * second \<le> window_start now + minute" if "second \<le> ?left"
  proof -
    have "max 1 (?left div second) = ?left div second" using that calculation(2) by simp
    then show ?thesis using dm md by linarith
  qed
  moreover have "window_start now + minute \<le> now + (max 1 (?left div second) + 1) * second"
  proof -
    have "(?left div second + 1) * second \<le> (max 1 (?left div second) + 1) * second"
      using s by (intro mult_right_mono) auto
    moreover have "(?left div second + 1) * second = ?left div second * second + second"
      by (simp only: distrib_right mult_1)
    ultimately show ?thesis using dm md by linarith
  qed
  ultimately show ?thesis using r by simp
qed

lemma demo_two_calls: "\<exists>w. limiter_reaches 1 [(0, ''a'', True), (second, ''a'', False)] w"
proof -
  have c1: "rate_check 1 0 ''a'' [] = (\<lparr>rl_allowed = True, rl_retry_after_seconds = None,
      rl_remaining_requests = Some 0\<rparr>, [(''a'', [0])])"
    by (simp add: rate_check_def requests_per_minute_def window_start_def Let_def)
  have r1: "limiter_reaches 1 [(0, ''a'', True)] [(''a'', [0])]"
    using limiter_reaches.step [OF limiter_reaches.start _ c1] by simp
  have c2: "rate_check 1 second ''a'' [(''a'', [0])] = (\<lparr>rl_allowed = False,
      rl_retry_after_seconds = Some 59, rl_remaining_requests = Some 0\<rparr>, [(''a'', [0])])"
    by (simp add: rate_check_def requests_per_minute_def window_start_def Let_def time_defs)
  have "limiter_reaches 1 ([(0, ''a'', True)] @ [(second, ''a'', False)]) [(''a'', [0])]"
    using limiter_reaches.step [OF r1 _ c2] by (simp add: second_def)
  then show ?thesis by auto
qed

end
