(* ===== verification/ModelResolver.thy ===== *)
theory ModelResolver
  imports Fnmatch
begin

section \<open>Model resolution (\<open>proxy/model_resolver.py\<close>)\<close>

text \<open>
  From the requested model name to a Bedrock route: the active alias rule of highest priority
  whose pattern matches, then the active route of highest priority of its logical model, which
  must be a Converse route. The rule and route lists come from the two repositories. The
  requested model is an untyped value, as the request body gives it.
\<close>

record ResolvedModelCapabilities =
  cap_supports_native_structured_output :: bool
  cap_supports_reasoning :: bool
  cap_supports_prompt_cache_ttl :: bool
  cap_supports_disable_parallel_tool_use :: bool

definition capabilities_from_route :: "ModelRouteRecord \<Rightarrow> ResolvedModelCapabilities" where
  "capabilities_from_route route =
     \<lparr>cap_supports_native_structured_output = mr_supports_native_structured_output route,
      cap_supports_reasoning = mr_supports_reasoning route,
      cap_supports_prompt_cache_ttl = mr_supports_prompt_cache_ttl route,
      cap_supports_disable_parallel_tool_use = mr_supports_disable_parallel_tool_use route\<rparr>"

record ResolvedModel =
  rm_requested_model :: json
  rm_logical_model :: string
  rm_provider :: string
  rm_bedrock_api_route :: string
  rm_bedrock_model_id :: "string option"
  rm_inference_profile_id :: "string option"
  rm_aws_region_name :: "string option"
  rm_capabilities :: ResolvedModelCapabilities

definition REASON_UNKNOWN_MODEL :: string where
  "REASON_UNKNOWN_MODEL = ''unknown_model''"

definition REASON_UNSUPPORTED_ROUTE :: string where
  "REASON_UNSUPPORTED_ROUTE = ''unsupported_model_route''"

text \<open>\<open>fnmatchcase\<close> needs a string: the compiled pattern raises on anything else.\<close>

definition fnmatch_json :: "json \<Rightarrow> string \<Rightarrow> bool res" where
  "fnmatch_json name pat = (case name of JStr s \<Rightarrow> Inr (fnmatchcase s pat) | _ \<Rightarrow> Inl type_error)"

definition select_highest_priority :: "('r \<Rightarrow> int) \<Rightarrow> 'r list \<Rightarrow> 'r option" where
  "select_highest_priority prio records =
     (case records of [] \<Rightarrow> None | m # rest \<Rightarrow> Some (py_max_by prio m rest))"

definition find_alias_rule ::
    "ModelAliasRuleRecord list \<Rightarrow> json \<Rightarrow> ModelAliasRuleRecord option res" where
  "find_alias_rule rules requested_model =
     bindR (concatR (\<lambda>rule.
         if ma_is_active rule
         then bindR (fnmatch_json requested_model (ma_pattern rule)) (\<lambda>b.
              Inr (if b then [rule] else []))
         else Inr []) rules) (\<lambda>matching_rules.
     Inr (select_highest_priority ma_priority matching_rules))"

definition find_route :: "ModelRouteRecord list \<Rightarrow> string \<Rightarrow> ModelRouteRecord option" where
  "find_route routes logical_model =
     select_highest_priority mr_priority
       (filter (\<lambda>route. mr_is_active route \<and> mr_logical_model route = logical_model) routes)"

definition resolve ::
    "ModelAliasRuleRecord list \<Rightarrow> ModelRouteRecord list \<Rightarrow> json \<Rightarrow> ResolvedModel res" where
  "resolve rules routes requested_model =
     bindR (find_alias_rule rules requested_model) (\<lambda>alias_rule. case alias_rule of
         None \<Rightarrow> Inl (ResolutionErr (py_str requested_model) REASON_UNKNOWN_MODEL
           (''Model '' @ [CHR 39] @ py_str requested_model @ [CHR 39] @ '' is not allowed.''))
       | Some rule \<Rightarrow>
           (case find_route routes (ma_logical_model rule) of
              None \<Rightarrow> Inl (ResolutionErr (py_str requested_model) REASON_UNSUPPORTED_ROUTE
                (''Logical model '' @ [CHR 39] @ ma_logical_model rule @ [CHR 39] @
                 '' has no supported Bedrock Converse route.''))
            | Some route \<Rightarrow>
                if mr_bedrock_api_route route \<noteq> ''converse''
                then Inl (ResolutionErr (py_str requested_model) REASON_UNSUPPORTED_ROUTE
                  (''Logical model '' @ [CHR 39] @ ma_logical_model rule @ [CHR 39] @
                   '' resolves to unsupported Bedrock route '' @ [CHR 39] @
                   mr_bedrock_api_route route @ [CHR 39] @ ''.''))
                else Inr \<lparr>rm_requested_model = requested_model,
                  rm_logical_model = ma_logical_model rule, rm_provider = mr_provider route,
                  rm_bedrock_api_route = mr_bedrock_api_route route,
                  rm_bedrock_model_id = mr_bedrock_model_id route,
                  rm_inference_profile_id = mr_inference_profile_id route,
                  rm_aws_region_name = None,
                  rm_capabilities = capabilities_from_route route\<rparr>))"

lemma resolve_err:
  assumes "resolve rules routes m = Inl e"
  shows "is_py_err e \<or> (\<exists>q r msg. e = ResolutionErr q r msg)"
proof -
  have "is_py_err e'" if "find_alias_rule rules m = Inl e'" for e'
    using that by (auto simp: find_alias_rule_def concatR_def bindR_eq_Inl fnmatch_json_def
        split: if_splits json.splits dest!: mapR_eq_Inl)
  then show ?thesis
    using assms unfolding resolve_def bindR_eq_Inl
    by (elim disjE exE conjE) (auto split: option.split_asm if_split_asm)
qed

subsection \<open>What is chosen\<close>

text \<open>
  The specification of the choice: the first of the elements that satisfy the condition among
  those with the highest priority.
\<close>

definition chosen :: "('r \<Rightarrow> int) \<Rightarrow> ('r \<Rightarrow> bool) \<Rightarrow> 'r list \<Rightarrow> 'r \<Rightarrow> bool" where
  "chosen prio P xs x \<longleftrightarrow> (\<exists>us vs. xs = us @ x # vs \<and> P x \<and>
     (\<forall>u \<in> set us. P u \<longrightarrow> prio u < prio x) \<and> (\<forall>v \<in> set vs. P v \<longrightarrow> prio v \<le> prio x))"

lemma chosen_filter:
  "filter P xs = us @ x # vs \<Longrightarrow> \<forall>u \<in> set us. prio u < prio x \<Longrightarrow> \<forall>v \<in> set vs. prio v \<le> prio x \<Longrightarrow>
     chosen prio P xs x"
proof (induction xs arbitrary: us)
  case (Cons y ys)
  show ?case
  proof (cases "P y")
    case False
    then have "chosen prio P ys x" using Cons by simp
    then obtain as bs where "ys = as @ x # bs" "P x" "\<forall>u \<in> set as. P u \<longrightarrow> prio u < prio x"
      "\<forall>v \<in> set bs. P v \<longrightarrow> prio v \<le> prio x"
      by (auto simp: chosen_def)
    then show ?thesis using False
      unfolding chosen_def by (intro exI [of _ "y # as"] exI [of _ bs]) auto
  next
    case True
    show ?thesis
    proof (cases us)
      case Nil
      then have "y = x" "filter P ys = vs" using Cons.prems(1) True by auto
      moreover have "\<forall>v \<in> set ys. P v \<longrightarrow> v \<in> set vs" using \<open>filter P ys = vs\<close> by auto
      ultimately show ?thesis using Cons.prems(3) True
        unfolding chosen_def by (intro exI [of _ "[]"] exI [of _ ys]) auto
    next
      case (Cons u us')
      then have y: "y = u" "filter P ys = us' @ x # vs" using Cons.prems(1) True by auto
      have "\<forall>u \<in> set us'. prio u < prio x" "prio u < prio x" using Cons.prems(2) Cons by auto
      then have "chosen prio P ys x" using Cons.IH [OF y(2)] Cons.prems(3) by simp
      then obtain as bs where "ys = as @ x # bs" "P x" "\<forall>u \<in> set as. P u \<longrightarrow> prio u < prio x"
        "\<forall>v \<in> set bs. P v \<longrightarrow> prio v \<le> prio x"
        by (auto simp: chosen_def)
      then show ?thesis using \<open>prio u < prio x\<close> y(1)
        unfolding chosen_def by (intro exI [of _ "y # as"] exI [of _ bs]) auto
    qed
  qed
qed simp

lemma chosen_unique: "chosen prio P xs x \<Longrightarrow> chosen prio P xs y \<Longrightarrow> x = y"
proof -
  assume "chosen prio P xs x"
  then obtain us vs where x: "xs = us @ x # vs" "P x" "\<forall>u \<in> set us. P u \<longrightarrow> prio u < prio x"
    "\<forall>v \<in> set vs. P v \<longrightarrow> prio v \<le> prio x" by (auto simp: chosen_def)
  assume "chosen prio P xs y"
  then obtain as bs where y: "xs = as @ y # bs" "P y" "\<forall>u \<in> set as. P u \<longrightarrow> prio u < prio y"
    "\<forall>v \<in> set bs. P v \<longrightarrow> prio v \<le> prio y" by (auto simp: chosen_def)
  from x(1) y(1) have "us @ x # vs = as @ y # bs" by simp
  then consider "us = as \<and> x = y" | "y \<in> set vs \<and> x \<in> set as" | "y \<in> set us \<and> x \<in> set bs"
    by (auto simp: append_eq_append_conv2 append_eq_Cons_conv Cons_eq_append_conv)
  then show "x = y" using x y by cases fastforce+
qed

lemma select_highest_priority_chosen:
  "select_highest_priority prio (filter P xs) = Some x \<longleftrightarrow> chosen prio P xs x"
proof
  assume a: "select_highest_priority prio (filter P xs) = Some x"
  then obtain m rest where m: "filter P xs = m # rest" "x = py_max_by prio m rest"
    by (auto simp: select_highest_priority_def split: list.splits)
  obtain us vs where uv: "m # rest = us @ x # vs" "\<forall>u \<in> set us. prio u < prio x"
    using py_max_by_first [of m rest prio] m(2) by blast
  have "\<forall>v \<in> set vs. prio v \<le> prio x"
    using py_max_by_ge [of _ m rest prio] uv(1) m(2) by auto
  with uv m(1) show "chosen prio P xs x" by (metis chosen_filter)
next
  assume c: "chosen prio P xs x"
  then have "filter P xs \<noteq> []" by (auto simp: chosen_def)
  then obtain y where y: "select_highest_priority prio (filter P xs) = Some y"
    by (cases "filter P xs") (auto simp: select_highest_priority_def)
  then obtain m rest where m: "filter P xs = m # rest" "y = py_max_by prio m rest"
    by (auto simp: select_highest_priority_def split: list.splits)
  obtain us vs where uv: "m # rest = us @ y # vs" "\<forall>u \<in> set us. prio u < prio y"
    using py_max_by_first [of m rest prio] m(2) by blast
  have "\<forall>v \<in> set vs. prio v \<le> prio y"
    using py_max_by_ge [of _ m rest prio] uv(1) m(2) by auto
  with uv m(1) have "chosen prio P xs y" by (metis chosen_filter)
  with c have "x = y" by (rule chosen_unique)
  with y show "select_highest_priority prio (filter P xs) = Some x" by simp
qed

lemma select_highest_priority_None: "select_highest_priority prio xs = None \<longleftrightarrow> xs = []"
  by (cases xs) (simp_all add: select_highest_priority_def)

definition rule_applies :: "string \<Rightarrow> ModelAliasRuleRecord \<Rightarrow> bool" where
  "rule_applies model rule \<longleftrightarrow> ma_is_active rule \<and> fnmatchcase model (ma_pattern rule)"

definition route_applies :: "string \<Rightarrow> ModelRouteRecord \<Rightarrow> bool" where
  "route_applies logical_model route \<longleftrightarrow> mr_is_active route \<and> mr_logical_model route = logical_model"

lemma find_alias_rule_string:
  "find_alias_rule rules (JStr m) =
     Inr (select_highest_priority ma_priority (filter (rule_applies m) rules))"
proof -
  have "mapR (\<lambda>rule. if ma_is_active rule
         then bindR (fnmatch_json (JStr m) (ma_pattern rule)) (\<lambda>b. Inr (if b then [rule] else []))
         else Inr []) rules =
      Inr (map (\<lambda>rule. if rule_applies m rule then [rule] else []) rules)"
    by (rule mapR_total) (simp add: fnmatch_json_def rule_applies_def)
  moreover have "concat (map (\<lambda>rule. if rule_applies m rule then [rule] else []) rules) =
      filter (rule_applies m) rules"
    by (induction rules) auto
  ultimately show ?thesis by (simp add: find_alias_rule_def concatR_def)
qed

lemma find_route_applies:
  "find_route routes l = select_highest_priority mr_priority (filter (route_applies l) routes)"
  by (simp add: find_route_def route_applies_def [abs_def])

subsection \<open>Properties\<close>

text \<open>
  Property C23: a model name resolves exactly to the route chosen for the logical model of the
  rule chosen for the name, and only when that route is a Converse route: a route of lower
  priority is not tried instead. Equal priorities are decided by position in the list.
\<close>

theorem resolve_iff:
  "resolve rules routes (JStr m) = Inr r \<longleftrightarrow>
     (\<exists>rule route. chosen ma_priority (rule_applies m) rules rule \<and>
        chosen mr_priority (route_applies (ma_logical_model rule)) routes route \<and>
        mr_bedrock_api_route route = ''converse'' \<and>
        r = \<lparr>rm_requested_model = JStr m, rm_logical_model = ma_logical_model rule,
             rm_provider = mr_provider route, rm_bedrock_api_route = ''converse'',
             rm_bedrock_model_id = mr_bedrock_model_id route,
             rm_inference_profile_id = mr_inference_profile_id route, rm_aws_region_name = None,
             rm_capabilities = capabilities_from_route route\<rparr>)"
proof -
  have "resolve rules routes (JStr m) = Inr r \<longleftrightarrow>
     (\<exists>rule route. select_highest_priority ma_priority (filter (rule_applies m) rules) = Some rule \<and>
        find_route routes (ma_logical_model rule) = Some route \<and>
        mr_bedrock_api_route route = ''converse'' \<and>
        r = \<lparr>rm_requested_model = JStr m, rm_logical_model = ma_logical_model rule,
             rm_provider = mr_provider route, rm_bedrock_api_route = ''converse'',
             rm_bedrock_model_id = mr_bedrock_model_id route,
             rm_inference_profile_id = mr_inference_profile_id route, rm_aws_region_name = None,
             rm_capabilities = capabilities_from_route route\<rparr>)"
    by (auto simp: resolve_def find_alias_rule_string split: option.splits)
  then show ?thesis by (simp only: find_route_applies select_highest_priority_chosen)
qed

text \<open>
  A model name that does not resolve is refused with a resolution error: with reason
  \<open>unknown_model\<close> exactly when no active rule matches it, else \<open>unsupported_model_route\<close>.
\<close>

lemma resolve_refuses:
  "case resolve rules routes (JStr m) of
     Inr r \<Rightarrow> (\<exists>rule \<in> set rules. rule_applies m rule)
   | Inl err \<Rightarrow> (\<exists>reason msg. err = ResolutionErr m reason msg \<and>
        reason = (if \<exists>rule \<in> set rules. rule_applies m rule
                  then REASON_UNSUPPORTED_ROUTE else REASON_UNKNOWN_MODEL))"
proof (cases "select_highest_priority ma_priority (filter (rule_applies m) rules)")
  case None
  then have "\<not> (\<exists>rule \<in> set rules. rule_applies m rule)"
    by (simp add: select_highest_priority_None filter_empty_conv)
  then show ?thesis using None by (simp add: resolve_def find_alias_rule_string py_str_def)
next
  case (Some rule)
  then have "filter (rule_applies m) rules \<noteq> []"
    by (auto simp: select_highest_priority_def)
  then have "\<exists>rule \<in> set rules. rule_applies m rule" by (simp add: filter_empty_conv)
  then show ?thesis using Some
    by (simp add: resolve_def find_alias_rule_string py_str_def split: option.splits)
qed

text \<open>
  A requested model that is not a string is not refused but makes resolution raise
  \<open>TypeError\<close> as soon as one alias rule is active.
\<close>

lemma resolve_not_a_string:
  assumes "\<And>s. v \<noteq> JStr s" and "rule \<in> set rules" and "ma_is_active rule"
  shows "resolve rules routes v = Inl type_error"
proof -
  have f: "fnmatch_json v p = Inl type_error" for p
    using assms(1) by (simp add: fnmatch_json_def split: json.splits)
  have "mapR (\<lambda>rule. if ma_is_active rule
         then bindR (fnmatch_json v (ma_pattern rule)) (\<lambda>b. Inr (if b then [rule] else []))
         else Inr []) rules = Inl type_error"
    using assms(2, 3) by (induction rules) (auto simp: f)
  then show ?thesis by (simp add: resolve_def find_alias_rule_def concatR_def)
qed

definition demo_rule :: ModelAliasRuleRecord where
  "demo_rule = \<lparr>ma_id = ''a1'', ma_pattern = ''claude-*'', ma_logical_model = ''sonnet'',
     ma_priority = 10, ma_is_active = True\<rparr>"

end
