(* ===== verification/RequestBuilder.thy ===== *)
theory RequestBuilder
  imports ModelResolver
begin

section \<open>Building Converse requests (\<open>proxy/bedrock_converse/request_builder.py\<close>)\<close>

text \<open>
  From the Anthropic-style request body to the payload of the Bedrock Converse call. The body and
  all its parts are untyped values: every access that can fail raises what it raises in the code,
  next to the builder's own \<open>BedrockRequestBuildError\<close>.
\<close>

definition REASON_INVALID_ROLE :: string where "REASON_INVALID_ROLE = ''invalid_role''"

definition REASON_INVALID_CONTENT :: string where "REASON_INVALID_CONTENT = ''invalid_content''"

definition REASON_STRUCTURED_OUTPUT_NOT_SUPPORTED :: string where
  "REASON_STRUCTURED_OUTPUT_NOT_SUPPORTED = ''structured_output_not_supported''"

definition SUPPORTED_MESSAGE_ROLES :: "string set" where
  "SUPPORTED_MESSAGE_ROLES = {''user'', ''assistant''}"

definition MIN_REASONING_BUDGET_TOKENS :: int where "MIN_REASONING_BUDGET_TOKENS = 1024"

text \<open>\<open>REASONING_BUDGETS.get(effort, REASONING_BUDGETS["medium"])\<close>.\<close>

definition reasoning_budget :: "string \<Rightarrow> int" where
  "reasoning_budget effort =
     (if effort = ''low'' then 1024 else if effort = ''medium'' then 4096
      else if effort = ''high'' then 8192 else 4096)"

type_synonym request = "(string, json) pydict"

record ConverseRequest =
  cr_operation :: string
  cr_target_model_id :: string
  cr_inference_profile_id :: "string option"
  cr_payload :: "(string, json) pydict"
  cr_reasoning_enabled :: bool

definition text_block :: "string \<Rightarrow> json" where
  "text_block s = JObj [(''text'', JStr s)]"

definition invalid_content :: "string \<Rightarrow> py_exc" where
  "invalid_content message = BuildErr REASON_INVALID_CONTENT message"

text \<open>\<open>f"...'{x}'."\<close>\<close>

definition quoted :: "string \<Rightarrow> json \<Rightarrow> string" where
  "quoted pre v = pre @ [CHR 39] @ py_str v @ [CHR 39] @ ''.''"

subsection \<open>Content\<close>

definition coerce_blocks :: "json \<Rightarrow> json list res" where
  "coerce_blocks content =
     (case content of
        JNull \<Rightarrow> Inr []
      | JStr s \<Rightarrow> Inr [JStr s]
      | JList xs \<Rightarrow> Inr xs
      | _ \<Rightarrow> Inl (invalid_content ''Message content must be a string or list of blocks.''))"

definition normalize_tool_result_block :: "json \<Rightarrow> json res" where
  "normalize_tool_result_block block =
     (case block of
        JStr s \<Rightarrow> Inr (text_block s)
      | JObj d \<Rightarrow>
          (let block_type = dget d ''type'' JNull in
           if block_type = JStr ''text'' then Inr (text_block (py_str (dget d ''text'' (JStr []))))
           else if block_type = JStr ''json'' then Inr (JObj [(''json'', dget d ''json'' (JObj []))])
           else Inl (invalid_content (quoted ''Unsupported tool result block type '' block_type)))
      | _ \<Rightarrow> Inl (invalid_content ''Unsupported tool result content block.''))"

definition normalize_tool_result_content :: "json \<Rightarrow> json list res" where
  "normalize_tool_result_content content =
     (case content of
        JNull \<Rightarrow> Inr []
      | JStr s \<Rightarrow> Inr [text_block s]
      | _ \<Rightarrow> bindR (coerce_blocks content) (mapR normalize_tool_result_block))"

text \<open>A block that is not of type \<open>thinking\<close> is skipped.\<close>

definition normalize_thinking_block :: "json \<Rightarrow> json list res" where
  "normalize_thinking_block block =
     (case block of
        JObj d \<Rightarrow>
          if dget d ''type'' JNull \<noteq> JStr ''thinking'' then Inr []
          else let raw_reasoning = [(''reasoningText'',
                     JObj [(''text'', JStr (py_str (dget d ''thinking'' (JStr []))))])] in
            Inr [JObj [(''reasoningContent'', JObj
              (if py_truthy (dget d ''signature'' JNull)
               then raw_reasoning @ [(''signature'', dget d ''signature'' JNull)]
               else raw_reasoning))]]
      | _ \<Rightarrow> Inl (invalid_content ''Unsupported thinking block.''))"

definition normalize_thinking_blocks :: "json \<Rightarrow> json list res" where
  "normalize_thinking_blocks thinking_blocks =
     bindR (coerce_blocks thinking_blocks) (concatR normalize_thinking_block)"

definition normalize_content_block :: "string \<Rightarrow> json \<Rightarrow> json res" where
  "normalize_content_block role block =
     (case block of
        JStr s \<Rightarrow> Inr (text_block s)
      | JObj d \<Rightarrow>
          (let block_type = dget d ''type'' JNull in
           if block_type = JStr ''text'' then Inr (text_block (py_str (dget d ''text'' (JStr []))))
           else if block_type = JStr ''tool_use'' \<and> role = ''assistant'' then
             Inr (JObj [(''toolUse'', JObj
               [(''toolUseId'', JStr (py_str (dget d ''id'' (JStr [])))),
                (''name'', JStr (py_str (dget d ''name'' (JStr [])))),
                (''input'', dget d ''input'' (JObj []))])])
           else if block_type = JStr ''tool_result'' \<and> role = ''user'' then
             bindR (normalize_tool_result_content (dget d ''content'' JNull)) (\<lambda>content.
             Inr (JObj [(''toolResult'', JObj
               [(''toolUseId'', JStr (py_str (dget d ''tool_use_id'' (JStr [])))),
                (''status'', JStr (if py_truthy (dget d ''is_error'' JNull) then ''error'' else ''success'')),
                (''content'', JList content)])]))
           else bindR (py_in_set block_type {''image'', ''document''}) (\<lambda>passthrough.
             if passthrough then Inr (JObj [(py_str block_type, JObj (ddel ''type'' d))])
             else Inl (invalid_content (quoted ''Unsupported content block type '' block_type))))
      | _ \<Rightarrow> Inl (invalid_content ''Unsupported content block.''))"

definition normalize_content_blocks :: "json \<Rightarrow> string \<Rightarrow> json \<Rightarrow> json list res" where
  "normalize_content_blocks content role thinking_blocks =
     bindR (coerce_blocks content) (\<lambda>blocks.
     bindR (if role = ''assistant'' \<and> py_truthy thinking_blocks
            then normalize_thinking_blocks thinking_blocks else Inr []) (\<lambda>thinking.
     bindR (mapR (normalize_content_block role) blocks) (\<lambda>normalized.
     Inr (thinking @ normalized))))"

definition normalize_message :: "bool \<Rightarrow> json \<Rightarrow> json res" where
  "normalize_message include_thinking_blocks raw_message =
     (case raw_message of
        JObj d \<Rightarrow>
          (let role = py_str (dget d ''role'' (JStr [])) in
           if role \<notin> SUPPORTED_MESSAGE_ROLES
           then Inl (BuildErr REASON_INVALID_ROLE (quoted ''Unsupported message role '' (JStr role)))
           else bindR (normalize_content_blocks (dget d ''content'' JNull) role
               (if include_thinking_blocks then dget d ''thinking_blocks'' JNull else JNull)) (\<lambda>content.
             Inr (JObj [(''role'', JStr role), (''content'', JList content)])))
      | _ \<Rightarrow> Inl (invalid_content ''Each message must be an object.''))"

definition normalize_messages :: "json \<Rightarrow> bool \<Rightarrow> json list res" where
  "normalize_messages messages include_thinking_blocks =
     bindR (py_iter messages) (mapR (normalize_message include_thinking_blocks))"

definition normalize_system_block :: "json \<Rightarrow> json res" where
  "normalize_system_block block =
     (case block of
        JStr s \<Rightarrow> Inr (text_block s)
      | JObj d \<Rightarrow>
          if dget d ''type'' JNull = JStr ''text''
          then Inr (text_block (py_str (dget d ''text'' (JStr []))))
          else Inr (JObj d)
      | _ \<Rightarrow> Inl (invalid_content ''Unsupported system block.''))"

definition normalize_system_blocks :: "json \<Rightarrow> json list res" where
  "normalize_system_blocks system =
     (case system of
        JNull \<Rightarrow> Inr []
      | JStr s \<Rightarrow> Inr [text_block s]
      | JList xs \<Rightarrow> mapR normalize_system_block xs
      | _ \<Rightarrow> Inl (invalid_content ''Unsupported system prompt format.''))"

definition build_inference_config :: "request \<Rightarrow> (string, json) pydict res" where
  "build_inference_config request =
     (let field = (\<lambda>k k'. if dget request k JNull = JNull then [] else [(k', dget request k JNull)]) in
      bindR (if dget request ''stop_sequences'' JNull = JNull then Inr []
             else bindR (py_iter (dget request ''stop_sequences'' JNull)) (\<lambda>xs.
                  Inr [(''stopSequences'', JList xs)])) (\<lambda>stop.
      Inr (field ''max_tokens'' ''maxTokens'' @ stop @ field ''temperature'' ''temperature'' @
           field ''top_p'' ''topP'')))"

subsection \<open>Schemas\<close>

text \<open>
  \<open>_inject_additional_properties_false\<close> changes the copied schema in place. Here it returns the
  changed schema; the new key is none of those followed, so adding it before or after the
  descent is the same.
\<close>

definition schema_maps :: "string set" where
  "schema_maps = {''properties'', ''$defs'', ''definitions''}"

definition schema_subs :: "string set" where
  "schema_subs = {''items'', ''anyOf'', ''allOf'', ''oneOf''}"

definition close_object :: "json \<Rightarrow> (string, json) pydict \<Rightarrow> (string, json) pydict" where
  "close_object ty d =
     (if ty = JStr ''object'' then setdefault ''additionalProperties'' (JBool False) d else d)"

lemma size_in_dict: "(k, v) \<in> set d \<Longrightarrow> size v < size (JObj d)"
  by (induction d) auto

lemma size_in_list: "v \<in> set xs \<Longrightarrow> size v < size (JList xs)"
  by (induction xs) auto

function inject :: "json \<Rightarrow> json" and inject_values :: "json \<Rightarrow> json" where
  "inject v = (case v of
      JList xs \<Rightarrow> JList (map inject xs)
    | JObj d \<Rightarrow> JObj (close_object (dget d ''type'' JNull)
        (map (\<lambda>(k, x). (k, if k \<in> schema_maps then inject_values x
                            else if k \<in> schema_subs then inject x else x)) d))
    | _ \<Rightarrow> v)"
| "inject_values v = (case v of
      JObj d \<Rightarrow> JObj (map (\<lambda>(k, x). (k, inject x)) d)
    | _ \<Rightarrow> v)"
  by pat_completeness auto

termination
  by (relation "measure (\<lambda>x. case x of Inl v \<Rightarrow> size v | Inr v \<Rightarrow> size v)")
    (auto dest: size_in_dict size_in_list)

declare inject.simps [simp del] inject_values.simps [simp del]

definition normalize_schema :: "json \<Rightarrow> json res" where
  "normalize_schema schema = bindR (py_dict schema) (\<lambda>d. Inr (inject (JObj d)))"

subsection \<open>Tools\<close>

definition map_tool_choice :: "json \<Rightarrow> bool \<Rightarrow> json" where
  "map_tool_choice tool_choice reasoning_enabled =
     (if tool_choice = JNull then JNull
      else if reasoning_enabled then JObj [(''auto'', JObj [])]
      else case tool_choice of
          JObj d \<Rightarrow>
            (if dget d ''type'' JNull = JStr ''tool''
             then JObj [(''tool'', JObj [(''name'', JStr (py_str (dget d ''name'' (JStr []))))])]
             else if dget d ''type'' JNull = JStr ''any'' then JObj [(''any'', JObj [])]
             else JObj [(''auto'', JObj [])])
        | _ \<Rightarrow> JObj [(''auto'', JObj [])])"

definition tool_spec :: "json \<Rightarrow> json res" where
  "tool_spec tool =
     bindR (py_get tool ''name'' (JStr [])) (\<lambda>name.
     bindR (py_get tool ''description'' JNull) (\<lambda>description.
     bindR (py_get tool ''input_schema'' (JObj [(''type'', JStr ''object'')])) (\<lambda>input_schema.
     bindR (normalize_schema input_schema) (\<lambda>schema.
     Inr (JObj [(''toolSpec'', JObj
       [(''name'', JStr (py_str name)), (''description'', description),
        (''inputSchema'', JObj [(''json'', schema)])])])))))"

definition build_tool_config :: "request \<Rightarrow> bool \<Rightarrow> (string, json) pydict option res" where
  "build_tool_config request reasoning_enabled =
     (let tools = py_or (dget request ''tools'' JNull) (JList []);
          tool_choice = dget request ''tool_choice'' JNull
      in if \<not> py_truthy tools \<and> tool_choice = JNull then Inr None
         else bindR (if py_truthy tools
             then bindR (py_iter tools) (\<lambda>ts. bindR (mapR tool_spec ts) (\<lambda>specs.
                    Inr [(''tools'', JList specs)]))
             else Inr []) (\<lambda>tools_entry.
           let choice = map_tool_choice tool_choice reasoning_enabled in
           Inr (Some (tools_entry @ (if choice = JNull then [] else [(''toolChoice'', choice)])))))"

subsection \<open>Reasoning\<close>

definition normalize_reasoning_request :: "request \<Rightarrow> ResolvedModel \<Rightarrow> (string, json) pydict option res" where
  "normalize_reasoning_request request resolved_model =
     (if \<not> cap_supports_reasoning (rm_capabilities resolved_model) then Inr None
      else let thinking = dget request ''thinking'' JNull;
               reasoning_effort = dget request ''reasoning_effort'' JNull
        in if thinking = JNull \<and> reasoning_effort = JNull then Inr None
           else let thinking_budget = (case thinking of JObj d \<Rightarrow> dget d ''budget_tokens'' JNull | _ \<Rightarrow> JNull)
             in bindR (if thinking_budget \<noteq> JNull
                 then bindR (py_int thinking_budget) (\<lambda>n. Inr (max n MIN_REASONING_BUDGET_TOKENS))
                 else case reasoning_effort of
                     JStr e \<Rightarrow> Inr (reasoning_budget e)
                   | _ \<Rightarrow> Inr MIN_REASONING_BUDGET_TOKENS) (\<lambda>budget_tokens.
               Inr (Some [(''type'', JStr ''enabled''), (''budget_tokens'', JInt budget_tokens)])))"

definition is_tool_use :: "json \<Rightarrow> bool" where
  "is_tool_use block =
     (case block of JObj d \<Rightarrow> dget d ''type'' JNull = JStr ''tool_use'' | _ \<Rightarrow> False)"

fun reasoning_continuity :: "json list \<Rightarrow> bool res" where
  "reasoning_continuity [] = Inr True"
| "reasoning_continuity (m # ms) =
     (case m of
        JObj d \<Rightarrow>
          if dget d ''role'' JNull \<noteq> JStr ''assistant'' then reasoning_continuity ms
          else bindR (coerce_blocks (dget d ''content'' JNull)) (\<lambda>blocks.
            if list_ex is_tool_use blocks \<and> \<not> py_truthy (dget d ''thinking_blocks'' JNull)
            then Inr False else reasoning_continuity ms)
      | _ \<Rightarrow> reasoning_continuity ms)"

definition has_reasoning_continuity :: "json \<Rightarrow> bool res" where
  "has_reasoning_continuity messages =
     bindR (py_iter (py_or messages (JList []))) reasoning_continuity"

definition build_additional_model_request_fields ::
    "request \<Rightarrow> ResolvedModel \<Rightarrow> (string, json) pydict option \<Rightarrow> (string, json) pydict" where
  "build_additional_model_request_fields request resolved_model requested_reasoning =
     (if dget request ''parallel_tool_calls'' JNull = JBool False \<and>
         cap_supports_disable_parallel_tool_use (rm_capabilities resolved_model)
      then [(''disable_parallel_tool_use'', JBool True)] else []) @
     (case requested_reasoning of None \<Rightarrow> [] | Some r \<Rightarrow> [(''thinking'', JObj r)])"

subsection \<open>Structured output\<close>

definition structured_output_error :: "string \<Rightarrow> py_exc" where
  "structured_output_error message = BuildErr REASON_STRUCTURED_OUTPUT_NOT_SUPPORTED message"

definition build_output_config :: "request \<Rightarrow> ResolvedModel \<Rightarrow> (string, json) pydict option res" where
  "build_output_config request resolved_model =
     (case dget request ''response_format'' JNull of
        JNull \<Rightarrow> Inr None
      | JObj response_format \<Rightarrow>
          if dget response_format ''type'' JNull = JStr ''json_object''
          then Inl (structured_output_error ''Schema-less structured output is not supported.'')
          else
            (case (cap_supports_native_structured_output (rm_capabilities resolved_model),
                   dget response_format ''json_schema'' JNull) of
               (True, JObj json_schema) \<Rightarrow>
                 (case dget json_schema ''schema'' JNull of
                    JObj schema \<Rightarrow>
                      bindR (normalize_schema (JObj schema)) (\<lambda>normalized_schema.
                      let field = (\<lambda>k. if dget json_schema k JNull = JNull then []
                                       else [(k, dget json_schema k JNull)]) in
                      Inr (Some [(''textFormat'', JObj
                        [(''type'', JStr ''json_schema''),
                         (''structure'', JObj [(''jsonSchema'', JObj
                           ([(''schema'', normalized_schema)] @ field ''name'' @
                            field ''description''))])])]))
                  | _ \<Rightarrow> Inl (structured_output_error
                      ''Native structured output is not supported for this model.''))
             | _ \<Rightarrow> Inl (structured_output_error
                 ''Native structured output is not supported for this model.''))
      | _ \<Rightarrow> Inl (structured_output_error ''Unsupported structured output configuration.''))"

subsection \<open>The request\<close>

definition non_empty :: "string \<Rightarrow> (string, json) pydict option \<Rightarrow> (string, json) pydict" where
  "non_empty k d = (case d of None \<Rightarrow> [] | Some e \<Rightarrow> (if e = [] then [] else [(k, JObj e)]))"

text \<open>\<open>bedrock_model_id or inference_profile_id or ""\<close>.\<close>

definition target_model_id :: "ResolvedModel \<Rightarrow> string" where
  "target_model_id m =
     (case rm_bedrock_model_id m of
        Some (c # s) \<Rightarrow> c # s
      | _ \<Rightarrow> (case rm_inference_profile_id m of Some s \<Rightarrow> s | None \<Rightarrow> []))"

definition build_converse_request :: "request \<Rightarrow> ResolvedModel \<Rightarrow> ConverseRequest res" where
  "build_converse_request request resolved_model =
     (let messages = dget request ''messages'' (JList []) in
      bindR (normalize_reasoning_request request resolved_model) (\<lambda>requested_reasoning.
      bindR (if requested_reasoning = None then Inr False else has_reasoning_continuity messages)
        (\<lambda>reasoning_enabled.
      bindR (normalize_messages messages reasoning_enabled) (\<lambda>normalized_messages.
      bindR (normalize_system_blocks (dget request ''system'' JNull)) (\<lambda>system_blocks.
      bindR (build_inference_config request) (\<lambda>inference_config.
      bindR (build_tool_config request reasoning_enabled) (\<lambda>tool_config.
      let additional_fields = build_additional_model_request_fields request resolved_model
            (if reasoning_enabled then requested_reasoning else None) in
      bindR (build_output_config request resolved_model) (\<lambda>output_config.
      Inr \<lparr>cr_operation = (if py_truthy (dget request ''stream'' JNull) then ''converse_stream'' else ''converse''),
           cr_target_model_id = target_model_id resolved_model,
           cr_inference_profile_id = rm_inference_profile_id resolved_model,
           cr_payload =
             [(''messages'', JList normalized_messages)] @
             (if system_blocks = [] then [] else [(''system'', JList system_blocks)]) @
             non_empty ''inferenceConfig'' (Some inference_config) @
             non_empty ''toolConfig'' tool_config @
             non_empty ''additionalModelRequestFields'' (Some additional_fields) @
             non_empty ''outputConfig'' output_config,
           cr_reasoning_enabled = reasoning_enabled\<rparr>))))))))"

subsection \<open>Schemas are closed\<close>

text \<open>
  A schema is closed when every object schema that the descent reaches says whether it has
  additional properties.
\<close>

function closed_schema :: "json \<Rightarrow> bool" and closed_values :: "json \<Rightarrow> bool" where
  "closed_schema v = (case v of
      JList xs \<Rightarrow> list_all closed_schema xs
    | JObj d \<Rightarrow> (dget d ''type'' JNull = JStr ''object'' \<longrightarrow> map_of d ''additionalProperties'' \<noteq> None) \<and>
        list_all (\<lambda>(k, x). if k \<in> schema_maps then closed_values x
                            else if k \<in> schema_subs then closed_schema x else True) d
    | _ \<Rightarrow> True)"
| "closed_values v = (case v of JObj d \<Rightarrow> list_all (\<lambda>(k, x). closed_schema x) d | _ \<Rightarrow> True)"
  by pat_completeness auto

termination
  by (relation "measure (\<lambda>x. case x of Inl v \<Rightarrow> size v | Inr v \<Rightarrow> size v)")
    (auto dest: size_in_dict size_in_list)

declare closed_schema.simps [simp del] closed_values.simps [simp del]

lemma map_of_map_pair: "map_of (map (\<lambda>(k, x). (k, f k x)) d) k = map_option (f k) (map_of d k)"
  by (induction d) auto

lemma list_all_close_object:
  "list_all P (close_object ty d) \<longleftrightarrow> list_all P d \<and>
     (ty = JStr ''object'' \<and> map_of d ''additionalProperties'' = None \<longrightarrow>
        P (''additionalProperties'', JBool False))"
  by (auto simp: close_object_def setdefault_def split: option.splits)

lemma map_of_close_object_type:
  "map_of (close_object ty d) ''type'' = map_of d ''type''"
  by (auto simp: close_object_def setdefault_def map_add_def split: option.splits)

lemma map_of_close_object:
  "map_of (close_object ty d) ''additionalProperties'' = None \<longleftrightarrow>
     ty \<noteq> JStr ''object'' \<and> map_of d ''additionalProperties'' = None"
  by (auto simp: close_object_def setdefault_def map_add_def split: option.splits)

lemma schema_keys [simp]:
  "''type'' \<notin> schema_maps" "''type'' \<notin> schema_subs"
  "''additionalProperties'' \<notin> schema_maps" "''additionalProperties'' \<notin> schema_subs"
  by (simp_all add: schema_maps_def schema_subs_def)

lemma dget_cong: "map_of d k = map_of d' k \<Longrightarrow> dget d k x = dget d' k x"
  by (simp add: dget_def)

lemma inject_eqs:
  "inject (JList xs) = JList (map inject xs)"
  "inject (JObj d) = JObj (close_object (dget d ''type'' JNull)
     (map (\<lambda>(k, x). (k, if k \<in> schema_maps then inject_values x
                         else if k \<in> schema_subs then inject x else x)) d))"
  "inject_values (JObj d) = JObj (map (\<lambda>(k, x). (k, inject x)) d)"
  by (simp_all add: inject.simps [of "JList xs"] inject.simps [of "JObj d"]
      inject_values.simps [of "JObj d"])

lemma closed_schema_eqs:
  "closed_schema (JList xs) = list_all closed_schema xs"
  "closed_schema (JObj d) =
     ((dget d ''type'' JNull = JStr ''object'' \<longrightarrow> map_of d ''additionalProperties'' \<noteq> None) \<and>
      list_all (\<lambda>(k, x). if k \<in> schema_maps then closed_values x
                          else if k \<in> schema_subs then closed_schema x else True) d)"
  "closed_values (JObj d) = list_all (\<lambda>(k, x). closed_schema x) d"
  by (simp_all only: closed_schema.simps [of "JList xs"] closed_schema.simps [of "JObj d"]
      closed_values.simps [of "JObj d"] json.case)

lemma inject_type:
  "dget (close_object ty (map (\<lambda>(k, x). (k, if k \<in> schema_maps then f x
      else if k \<in> schema_subs then g x else x)) d)) ''type'' JNull = dget d ''type'' JNull"
proof (rule dget_cong)
  show "map_of (close_object ty (map (\<lambda>(k, x). (k, if k \<in> schema_maps then f x
      else if k \<in> schema_subs then g x else x)) d)) ''type'' = map_of d ''type''"
    unfolding map_of_close_object_type map_of_map_pair by (cases "map_of d ''type''") simp_all
qed

lemma inject_closed: "closed_schema (inject v)" "closed_values (inject_values v')"
proof (induction v and v' rule: inject_inject_values.induct)
  case (1 v)
  show ?case
  proof (cases v)
    case (JList xs)
    then show ?thesis using 1 by (simp add: inject_eqs closed_schema_eqs list_all_iff)
  next
    case (JObj d)
    have "case p of (k, x) \<Rightarrow> (if k \<in> schema_maps then closed_values (inject_values x)
        else if k \<in> schema_subs then closed_schema (inject x) else True)" if "p \<in> set d" for p
      using 1(2, 3) JObj that by (cases p) auto
    then have "list_all (\<lambda>(k, x). if k \<in> schema_maps then closed_values x
        else if k \<in> schema_subs then closed_schema x else True)
        (map (\<lambda>(k, x). (k, if k \<in> schema_maps then inject_values x
                            else if k \<in> schema_subs then inject x else x)) d)"
      by (auto simp: list_all_iff split: if_splits)
    then show ?thesis using JObj
      by (simp add: inject_eqs closed_schema_eqs inject_type list_all_close_object map_of_close_object)
  qed (simp_all add: inject.simps closed_schema.simps)
next
  case (2 v)
  then show ?case
    by (cases v) (auto simp: inject_values.simps closed_values.simps list_all_iff split: prod.splits)
qed

lemma close_object_closed:
  "ty = JStr ''object'' \<longrightarrow> map_of d ''additionalProperties'' \<noteq> None \<Longrightarrow> close_object ty d = d"
  by (auto simp: close_object_def setdefault_def split: option.splits)

lemma map_pair_idI: "(\<And>k x. (k, x) \<in> set d \<Longrightarrow> f k x = x) \<Longrightarrow> map (\<lambda>(k, x). (k, f k x)) d = d"
  by (rule map_idI) auto

text \<open>A closed schema is left as it is, so injecting twice is injecting once.\<close>

lemma inject_id: "closed_schema v \<Longrightarrow> inject v = v" "closed_values v' \<Longrightarrow> inject_values v' = v'"
proof (induction v and v' rule: inject_inject_values.induct)
  case (1 v)
  show ?case
  proof (cases v)
    case (JList xs)
    then have "\<forall>x \<in> set xs. inject x = x" using 1 by (auto simp: closed_schema_eqs list_all_iff)
    then show ?thesis using JList by (simp add: inject_eqs map_idI)
  next
    case (JObj d)
    have c: "dget d ''type'' JNull = JStr ''object'' \<longrightarrow> map_of d ''additionalProperties'' \<noteq> None"
      "\<forall>(k, x) \<in> set d. if k \<in> schema_maps then closed_values x
        else if k \<in> schema_subs then closed_schema x else True"
      using 1(4) JObj by (simp_all add: closed_schema_eqs list_all_iff)
    have "(if k \<in> schema_maps then inject_values x else if k \<in> schema_subs then inject x else x) = x"
      if "(k, x) \<in> set d" for k x
    proof -
      have x: "if k \<in> schema_maps then closed_values x
          else if k \<in> schema_subs then closed_schema x else True"
        using c(2) that by blast
      have m: "closed_values x \<Longrightarrow> k \<in> schema_maps \<Longrightarrow> inject_values x = x"
        by (rule 1(2) [OF JObj that refl])
      have s: "closed_schema x \<Longrightarrow> k \<notin> schema_maps \<Longrightarrow> k \<in> schema_subs \<Longrightarrow> inject x = x"
        by (rule 1(3) [OF JObj that refl])
      show ?thesis using x m s by auto
    qed
    then have "map (\<lambda>(k, x). (k, if k \<in> schema_maps then inject_values x
        else if k \<in> schema_subs then inject x else x)) d = d"
      by (rule map_pair_idI)
    then show ?thesis using JObj close_object_closed [OF c(1)] by (simp add: inject_eqs)
  qed (simp_all add: inject.simps)
next
  case (2 v)
  show ?case
  proof (cases v)
    case (JObj d)
    have "inject x = x" if "(k, x) \<in> set d" for k x
      using 2 JObj that by (auto simp: closed_schema_eqs list_all_iff)
    then show ?thesis using JObj by (simp add: inject_eqs map_pair_idI)
  qed (simp_all add: inject_values.simps)
qed

subsection \<open>Which exceptions the builder raises\<close>

definition builder_error :: "py_exc \<Rightarrow> bool" where
  "builder_error e \<longleftrightarrow> is_py_err e \<or> (\<exists>reason message. e = BuildErr reason message)"

lemma builder_error_intros [intro]:
  "is_py_err e \<Longrightarrow> builder_error e" "builder_error (BuildErr r m)"
  "builder_error (invalid_content m)" "builder_error (structured_output_error m)"
  by (auto simp: builder_error_def invalid_content_def structured_output_error_def)

lemma mapR_err: "mapR f xs = Inl e \<Longrightarrow> (\<And>x e. f x = Inl e \<Longrightarrow> P e) \<Longrightarrow> P e"
  by (auto dest: mapR_eq_Inl)

lemma coerce_blocks_err: "coerce_blocks v = Inl e \<Longrightarrow> builder_error e"
  by (auto simp: coerce_blocks_def split: json.splits)

lemma tool_result_block_err: "normalize_tool_result_block v = Inl e \<Longrightarrow> builder_error e"
  by (auto simp: normalize_tool_result_block_def Let_def split: json.splits if_splits)

lemma tool_result_content_err: "normalize_tool_result_content v = Inl e \<Longrightarrow> builder_error e"
  by (auto simp: normalize_tool_result_content_def bindR_eq_Inl split: json.splits
      dest: coerce_blocks_err dest!: mapR_eq_Inl intro: tool_result_block_err)

lemma thinking_block_err: "normalize_thinking_block v = Inl e \<Longrightarrow> builder_error e"
  by (auto simp: normalize_thinking_block_def Let_def split: json.splits if_splits)

lemma thinking_blocks_err: "normalize_thinking_blocks v = Inl e \<Longrightarrow> builder_error e"
  by (auto simp: normalize_thinking_blocks_def concatR_def bindR_eq_Inl
      dest: coerce_blocks_err dest!: mapR_eq_Inl intro: thinking_block_err)

lemma content_block_err: "normalize_content_block role v = Inl e \<Longrightarrow> builder_error e"
  by (auto simp: normalize_content_block_def bindR_eq_Inl Let_def split: json.splits if_splits
      dest: py_in_set_err tool_result_content_err)

lemma content_blocks_err: "normalize_content_blocks c role t = Inl e \<Longrightarrow> builder_error e"
  by (auto simp: normalize_content_blocks_def bindR_eq_Inl split: if_splits
      dest: coerce_blocks_err thinking_blocks_err dest!: mapR_eq_Inl intro: content_block_err)

lemma message_err: "normalize_message b v = Inl e \<Longrightarrow> builder_error e"
  by (auto simp: normalize_message_def bindR_eq_Inl Let_def split: json.splits if_splits
      dest: content_blocks_err)

lemma messages_err: "normalize_messages v b = Inl e \<Longrightarrow> builder_error e"
  by (auto simp: normalize_messages_def bindR_eq_Inl dest: py_iter_err dest!: mapR_eq_Inl
      intro: message_err)

lemma system_block_err: "normalize_system_block v = Inl e \<Longrightarrow> builder_error e"
  by (auto simp: normalize_system_block_def split: json.splits if_splits)

lemma system_blocks_err: "normalize_system_blocks v = Inl e \<Longrightarrow> builder_error e"
  by (auto simp: normalize_system_blocks_def split: json.splits dest!: mapR_eq_Inl
      intro: system_block_err)

lemma inference_config_err: "build_inference_config r = Inl e \<Longrightarrow> builder_error e"
  by (auto simp: build_inference_config_def bindR_eq_Inl Let_def split: if_splits dest: py_iter_err)

lemma normalize_schema_err: "normalize_schema v = Inl e \<Longrightarrow> builder_error e"
  by (auto simp: normalize_schema_def bindR_eq_Inl dest: py_dict_err)

lemma tool_spec_err: "tool_spec v = Inl e \<Longrightarrow> builder_error e"
  by (auto simp: tool_spec_def bindR_eq_Inl dest: py_get_err normalize_schema_err)

lemma tool_config_err: "build_tool_config r b = Inl e \<Longrightarrow> builder_error e"
  by (auto simp: build_tool_config_def bindR_eq_Inl Let_def split: if_splits
      dest: py_iter_err dest!: mapR_eq_Inl intro: tool_spec_err)

lemma reasoning_request_err: "normalize_reasoning_request r m = Inl e \<Longrightarrow> builder_error e"
  by (auto simp: normalize_reasoning_request_def bindR_eq_Inl Let_def split: json.splits if_splits
      dest: py_int_err)

lemma reasoning_continuity_err: "reasoning_continuity ms = Inl e \<Longrightarrow> builder_error e"
  by (induction ms) (auto simp: bindR_eq_Inl split: json.splits if_splits dest: coerce_blocks_err)

lemma has_continuity_err: "has_reasoning_continuity v = Inl e \<Longrightarrow> builder_error e"
  by (auto simp: has_reasoning_continuity_def bindR_eq_Inl dest: py_iter_err reasoning_continuity_err)

lemma output_config_err: "build_output_config r m = Inl e \<Longrightarrow> builder_error e"
  by (auto simp: build_output_config_def bindR_eq_Inl Let_def split: json.splits if_splits bool.splits
      dest: normalize_schema_err)

lemmas builder_errs = messages_err system_blocks_err inference_config_err tool_config_err
  reasoning_request_err has_continuity_err output_config_err

subsection \<open>What a successful build consists of\<close>

lemma build_converse_request_parts:
  assumes "build_converse_request request m = Inr r"
  obtains requested enabled msgs system inference tools oc where
    "normalize_reasoning_request request m = Inr requested"
    "(if requested = None then Inr False
      else has_reasoning_continuity (dget request ''messages'' (JList []))) = Inr enabled"
    "normalize_messages (dget request ''messages'' (JList [])) enabled = Inr msgs"
    "normalize_system_blocks (dget request ''system'' JNull) = Inr system"
    "build_inference_config request = Inr inference"
    "build_tool_config request enabled = Inr tools"
    "build_output_config request m = Inr oc"
    "cr_reasoning_enabled r = enabled"
    "cr_payload r = [(''messages'', JList msgs)] @
       (if system = [] then [] else [(''system'', JList system)]) @
       non_empty ''inferenceConfig'' (Some inference) @ non_empty ''toolConfig'' tools @
       non_empty ''additionalModelRequestFields'' (Some (build_additional_model_request_fields
         request m (if enabled then requested else None))) @
       non_empty ''outputConfig'' oc"
  using assms unfolding build_converse_request_def Let_def bindR_eq_Inr
  by (elim exE conjE) (drule sum.inject(2) [THEN iffD1], rule that, assumption+, auto)

lemma map_of_non_empty: "k \<noteq> k' \<Longrightarrow> map_of (non_empty k d) k' = None"
  by (auto simp: non_empty_def split: option.splits)

definition role_of :: "json \<Rightarrow> string" where
  "role_of raw = (case raw of JObj d \<Rightarrow> py_str (dget d ''role'' (JStr [])) | _ \<Rightarrow> [])"

definition is_message :: "json \<Rightarrow> json \<Rightarrow> bool" where
  "is_message raw msg \<longleftrightarrow> role_of raw \<in> SUPPORTED_MESSAGE_ROLES \<and>
     (\<exists>content. msg = JObj [(''role'', JStr (role_of raw)), (''content'', JList content)])"

lemma normalize_message_shape: "normalize_message b raw = Inr msg \<Longrightarrow> is_message raw msg"
  by (auto simp: normalize_message_def is_message_def role_of_def bindR_eq_Inr Let_def
      split: json.splits if_splits)

lemma normalize_messages_shape:
  "normalize_messages v b = Inr msgs \<Longrightarrow> \<exists>raws. py_iter v = Inr raws \<and> list_all2 is_message raws msgs"
  by (auto simp: normalize_messages_def bindR_eq_Inr mapR_eq_Inr
      elim!: list_all2_mono intro: normalize_message_shape)

subsection \<open>Reasoning blocks\<close>

definition is_reasoning_block :: "json \<Rightarrow> bool" where
  "is_reasoning_block block =
     (case block of JObj d \<Rightarrow> map_of d ''reasoningContent'' \<noteq> None | _ \<Rightarrow> False)"

definition has_reasoning_block :: "json \<Rightarrow> bool" where
  "has_reasoning_block msg =
     (case msg of
        JObj d \<Rightarrow> (case dget d ''content'' JNull of
            JList blocks \<Rightarrow> list_ex is_reasoning_block blocks
          | _ \<Rightarrow> False)
      | _ \<Rightarrow> False)"

lemma is_reasoning_block_JObj [simp]:
  "is_reasoning_block (JObj d) \<longleftrightarrow> map_of d ''reasoningContent'' \<noteq> None"
  by (simp add: is_reasoning_block_def)

lemma py_in_set_True: "py_in_set v S = Inr True \<longleftrightarrow> (\<exists>s \<in> S. v = JStr s)"
  by (cases v) (auto simp: py_in_set_def)

lemma content_block_not_reasoning:
  assumes "normalize_content_block role v = Inr b"
  shows "\<not> is_reasoning_block b"
proof (cases v)
  case (JObj d)
  show ?thesis
  proof (cases "\<exists>s \<in> {''image'', ''document''}. dget d ''type'' JNull = JStr s")
    case True
    then show ?thesis using assms JObj
      by (auto simp: normalize_content_block_def Let_def py_in_set_def)
  next
    case False
    then have "py_in_set (dget d ''type'' JNull) {''image'', ''document''} \<noteq> Inr True"
      unfolding py_in_set_True by blast
    then show ?thesis using assms JObj
      by (auto simp: normalize_content_block_def Let_def bindR_eq_Inr text_block_def split: if_splits)
  qed
qed (use assms in \<open>auto simp: normalize_content_block_def text_block_def\<close>)

lemma message_without_reasoning:
  assumes "normalize_message False raw = Inr msg"
  shows "\<not> has_reasoning_block msg"
proof -
  obtain role content blocks where m: "msg = JObj [(''role'', JStr role), (''content'', JList content)]"
    "mapR (normalize_content_block role) blocks = Inr content"
    using assms by (auto simp: normalize_message_def normalize_content_blocks_def bindR_eq_Inr Let_def
        split: json.splits if_splits)
  have "\<not> is_reasoning_block b" if "b \<in> set content" for b
    using mapR_set_Inr [OF m(2) that] content_block_not_reasoning by blast
  then show ?thesis by (auto simp: has_reasoning_block_def m(1) dget_def list_ex_iff)
qed

definition is_tool_turn :: "json \<Rightarrow> bool" where
  "is_tool_turn raw =
     (case raw of
        JObj d \<Rightarrow> dget d ''role'' JNull = JStr ''assistant'' \<and>
          (case coerce_blocks (dget d ''content'' JNull) of
             Inr blocks \<Rightarrow> list_ex is_tool_use blocks | Inl e \<Rightarrow> False)
      | _ \<Rightarrow> False)"

definition has_thinking :: "json \<Rightarrow> bool" where
  "has_thinking raw = (case raw of JObj d \<Rightarrow> py_truthy (dget d ''thinking_blocks'' JNull) | _ \<Rightarrow> False)"

lemma reasoning_continuity_True:
  "reasoning_continuity ms = Inr True \<Longrightarrow> raw \<in> set ms \<Longrightarrow> is_tool_turn raw \<Longrightarrow> has_thinking raw"
  by (induction ms) (auto simp: bindR_eq_Inr is_tool_turn_def has_thinking_def
      split: json.splits if_splits sum.splits)

lemma reasoning_request_Some:
  assumes "normalize_reasoning_request request m = Inr (Some d)"
  shows "cap_supports_reasoning (rm_capabilities m) \<and>
    (dget request ''thinking'' JNull \<noteq> JNull \<or> dget request ''reasoning_effort'' JNull \<noteq> JNull) \<and>
    (\<exists>n. d = [(''type'', JStr ''enabled''), (''budget_tokens'', JInt n)] \<and> 1024 \<le> n)"
  using assms
  by (auto simp: normalize_reasoning_request_def bindR_eq_Inr Let_def MIN_REASONING_BUDGET_TOKENS_def
      reasoning_budget_def split: json.splits if_splits)

lemma tool_choice_reasoning:
  "build_tool_config request True = Inr (Some d) \<Longrightarrow>
     map_of d ''toolChoice'' = None \<or> map_of d ''toolChoice'' = Some (JObj [(''auto'', JObj [])])"
  by (auto simp: build_tool_config_def bindR_eq_Inr Let_def map_tool_choice_def split: if_splits)

subsection \<open>Properties\<close>

text \<open>
  The payload has one message per message of the request, in order, each with the
  role of its origin, which is \<open>user\<close> or \<open>assistant\<close>.
\<close>

lemma build_keeps_messages:
  assumes "build_converse_request request m = Inr r"
  shows "\<exists>raws msgs. py_iter (dget request ''messages'' (JList [])) = Inr raws \<and>
    map_of (cr_payload r) ''messages'' = Some (JList msgs) \<and> list_all2 is_message raws msgs"
proof (rule build_converse_request_parts [OF assms])
  fix requested enabled msgs system inference tools oc
  assume "normalize_messages (dget request ''messages'' (JList [])) enabled = Inr msgs"
    and p: "cr_payload r = [(''messages'', JList msgs)] @
       (if system = [] then [] else [(''system'', JList system)]) @
       non_empty ''inferenceConfig'' (Some inference) @ non_empty ''toolConfig'' tools @
       non_empty ''additionalModelRequestFields'' (Some (build_additional_model_request_fields
         request m (if enabled then requested else None))) @
       non_empty ''outputConfig'' oc"
  then show ?thesis using normalize_messages_shape by (fastforce simp: p)
qed

text \<open>
  Property C24: reasoning is switched on only for a model that supports it and a request that asks
  for it, and then every assistant turn with a tool call brings its thinking blocks, and the
  thinking budget is at least 1024 tokens. When it is off, no thinking blocks and no thinking
  field are sent.
\<close>

theorem build_reasoning_consistent:
  assumes "build_converse_request request m = Inr r"
  shows "(cr_reasoning_enabled r \<longrightarrow>
      cap_supports_reasoning (rm_capabilities m) \<and>
      (dget request ''thinking'' JNull \<noteq> JNull \<or> dget request ''reasoning_effort'' JNull \<noteq> JNull) \<and>
      (\<forall>raws. py_iter (dget request ''messages'' (JList [])) = Inr raws \<longrightarrow>
         (\<forall>raw \<in> set raws. is_tool_turn raw \<longrightarrow> has_thinking raw)) \<and>
      (\<exists>fields n. map_of (cr_payload r) ''additionalModelRequestFields'' = Some (JObj fields) \<and>
         map_of fields ''thinking'' = Some (JObj [(''type'', JStr ''enabled''), (''budget_tokens'', JInt n)]) \<and>
         1024 \<le> n)) \<and>
    (\<not> cr_reasoning_enabled r \<longrightarrow>
      (\<forall>msgs. map_of (cr_payload r) ''messages'' = Some (JList msgs) \<longrightarrow>
         \<not> list_ex has_reasoning_block msgs) \<and>
      (\<forall>fields. map_of (cr_payload r) ''additionalModelRequestFields'' = Some (JObj fields) \<longrightarrow>
         map_of fields ''thinking'' = None))"
proof (rule build_converse_request_parts [OF assms])
  fix requested enabled msgs system inference tools oc
  assume req: "normalize_reasoning_request request m = Inr requested"
    and en: "(if requested = None then Inr False
      else has_reasoning_continuity (dget request ''messages'' (JList []))) = Inr enabled"
    and ms: "normalize_messages (dget request ''messages'' (JList [])) enabled = Inr msgs"
    and e: "cr_reasoning_enabled r = enabled"
    and p: "cr_payload r = [(''messages'', JList msgs)] @
       (if system = [] then [] else [(''system'', JList system)]) @
       non_empty ''inferenceConfig'' (Some inference) @ non_empty ''toolConfig'' tools @
       non_empty ''additionalModelRequestFields'' (Some (build_additional_model_request_fields
         request m (if enabled then requested else None))) @
       non_empty ''outputConfig'' oc"
  let ?fields = "build_additional_model_request_fields request m (if enabled then requested else None)"
  have fields: "map_of (cr_payload r) ''additionalModelRequestFields'' =
      (if ?fields = [] then None else Some (JObj ?fields))"
    by (auto simp: p map_of_non_empty map_add_def split: option.splits)
      (auto simp: non_empty_def split: if_splits)
  show ?thesis
  proof (cases enabled)
    case True
    then obtain d where d: "requested = Some d" using en by (cases requested) auto
    have cont: "has_reasoning_continuity (dget request ''messages'' (JList [])) = Inr True"
      using en d True by simp
    have "has_thinking raw" if "py_iter (dget request ''messages'' (JList [])) = Inr raws"
      "raw \<in> set raws" "is_tool_turn raw" for raws raw
    proof -
      have "py_truthy (dget request ''messages'' (JList []))"
        using that(1, 2) by (cases "dget request ''messages'' (JList [])") auto
      then have "reasoning_continuity raws = Inr True"
        using cont that(1) by (simp add: has_reasoning_continuity_def py_or_def)
      then show ?thesis using that(2, 3) by (rule reasoning_continuity_True)
    qed
    moreover have "map_of ?fields ''thinking'' = Some (JObj d)"
      using True d by (simp add: build_additional_model_request_fields_def)
    moreover have "?fields \<noteq> []" using True d by (simp add: build_additional_model_request_fields_def)
    ultimately show ?thesis
      using reasoning_request_Some [OF req [unfolded d]] True e fields by auto
  next
    case False
    have "\<not> has_reasoning_block msg" if msg: "msg \<in> set msgs" for msg
    proof -
      obtain raws where raws: "mapR (normalize_message False) raws = Inr msgs"
        using ms False by (auto simp: normalize_messages_def bindR_eq_Inr)
      obtain raw where "normalize_message False raw = Inr msg"
        using mapR_set_Inr [OF raws msg] by blast
      then show ?thesis by (rule message_without_reasoning)
    qed
    then have "\<not> list_ex has_reasoning_block msgs" by (auto simp: list_ex_iff)
    moreover have "map_of ?fields ''thinking'' = None"
      using False by (simp add: build_additional_model_request_fields_def)
    ultimately show ?thesis using False e fields by (auto simp: p split: if_splits)
  qed
qed

text \<open>
  A normalised schema is closed, and normalising it again changes nothing.
\<close>

lemma normalize_schema_closed:
  assumes "normalize_schema v = Inr s"
  shows "closed_schema s \<and> normalize_schema s = Inr s"
proof -
  obtain d where d: "s = inject (JObj d)" using assms by (auto simp: normalize_schema_def bindR_eq_Inr)
  have c: "closed_schema s" unfolding d by (rule inject_closed)
  obtain d' where d': "s = JObj d'" unfolding d inject_eqs by blast
  have "normalize_schema s = Inr (inject s)" by (simp add: normalize_schema_def d')
  then show ?thesis using c inject_id(1) [OF c] by simp
qed

text \<open>
  Whatever the request body holds, building raises only the builder's own error or one of Python's
  built-in exceptions, which the proxy both turns into an error response.
\<close>

lemma build_converse_request_err: "build_converse_request request m = Inl e \<Longrightarrow> builder_error e"
  unfolding build_converse_request_def Let_def bindR_eq_Inl
  by (auto split: if_splits intro: builder_errs)

definition demo_model :: ResolvedModel where
  "demo_model =
     \<lparr>rm_requested_model = JStr ''claude'', rm_logical_model = ''sonnet'', rm_provider = ''anthropic'',
      rm_bedrock_api_route = ''converse'', rm_bedrock_model_id = Some ''anthropic.sonnet'',
      rm_inference_profile_id = None, rm_aws_region_name = None,
      rm_capabilities = \<lparr>cap_supports_native_structured_output = True, cap_supports_reasoning = True,
        cap_supports_prompt_cache_ttl = False, cap_supports_disable_parallel_tool_use = True\<rparr>\<rparr>"

definition demo_request :: request where
  "demo_request =
     [(''model'', JStr ''claude''), (''reasoning_effort'', JStr ''high''),
      (''messages'', JList [JObj [(''role'', JStr ''user''), (''content'', JStr ''Hi'')]])]"

lemma demo_build:
  "build_converse_request demo_request demo_model =
     Inr \<lparr>cr_operation = ''converse'', cr_target_model_id = ''anthropic.sonnet'',
       cr_inference_profile_id = None,
       cr_payload =
         [(''messages'', JList [JObj [(''role'', JStr ''user''),
             (''content'', JList [JObj [(''text'', JStr ''Hi'')]])]]),
          (''additionalModelRequestFields'', JObj [(''thinking'', JObj
             [(''type'', JStr ''enabled''), (''budget_tokens'', JInt 8192)])])],
       cr_reasoning_enabled = True\<rparr>"
  by (simp add: build_converse_request_def demo_request_def demo_model_def Let_def dget_def
      normalize_reasoning_request_def reasoning_budget_def has_reasoning_continuity_def py_or_def
      normalize_messages_def normalize_message_def SUPPORTED_MESSAGE_ROLES_def
      normalize_content_blocks_def coerce_blocks_def normalize_content_block_def text_block_def
      normalize_system_blocks_def build_inference_config_def build_tool_config_def
      build_additional_model_request_fields_def build_output_config_def non_empty_def
      target_model_id_def)

lemma build_reasoning_consistent_witness:
  "\<exists>r fields n. build_converse_request demo_request demo_model = Inr r \<and>
     map_of (cr_payload r) ''additionalModelRequestFields'' = Some (JObj fields) \<and>
     map_of fields ''thinking'' = Some (JObj [(''type'', JStr ''enabled''), (''budget_tokens'', JInt n)]) \<and>
     1024 \<le> n"
  using build_reasoning_consistent [OF demo_build] demo_build by fastforce

subsection \<open>The schemas that are sent\<close>

text \<open>Following keys into a value, and the items of a list.\<close>

fun follow :: "json \<Rightarrow> string list \<Rightarrow> json" where
  "follow v [] = v"
| "follow (JObj d) (k # ks) = follow (dget d k JNull) ks"
| "follow v (k # ks) = JNull"

definition json_items :: "json \<Rightarrow> json list" where
  "json_items v = (case v of JList xs \<Rightarrow> xs | _ \<Rightarrow> [])"

text \<open>The schemas in the payload of the Converse call, and those in the request of the client.\<close>

definition sent_tool_schemas :: "ConverseRequest \<Rightarrow> json list" where
  "sent_tool_schemas q = map (\<lambda>t. follow t [''toolSpec'', ''inputSchema'', ''json''])
     (json_items (follow (JObj (cr_payload q)) [''toolConfig'', ''tools'']))"

definition sent_output_schema :: "ConverseRequest \<Rightarrow> json" where
  "sent_output_schema q = follow (JObj (cr_payload q))
     [''outputConfig'', ''textFormat'', ''structure'', ''jsonSchema'', ''schema'']"

definition requested_tool_schemas :: "request \<Rightarrow> json list" where
  "requested_tool_schemas request =
     map (\<lambda>t. case t of JObj d \<Rightarrow> dget d ''input_schema'' (JObj [(''type'', JStr ''object'')]) | _ \<Rightarrow> JNull)
       (json_items (dget request ''tools'' JNull))"

definition requested_output_schema :: "request \<Rightarrow> json" where
  "requested_output_schema request = follow (JObj request) [''response_format'', ''json_schema'', ''schema'']"

lemma payload_tool_config:
  assumes "cr_payload r = [(''messages'', JList msgs)] @
       (if system = [] then [] else [(''system'', JList system)]) @
       non_empty ''inferenceConfig'' inference @ non_empty ''toolConfig'' tools @
       non_empty ''additionalModelRequestFields'' additional @ non_empty ''outputConfig'' oc"
  shows "map_of (cr_payload r) ''toolConfig'' = map_of (non_empty ''toolConfig'' tools) ''toolConfig''"
    "map_of (cr_payload r) ''outputConfig'' = map_of (non_empty ''outputConfig'' oc) ''outputConfig''"
  using assms by (auto simp: map_of_non_empty map_add_def split: option.splits)

lemma tool_spec_schema:
  assumes "tool_spec t = Inr s"
  shows "normalize_schema (case t of JObj d \<Rightarrow> dget d ''input_schema'' (JObj [(''type'', JStr ''object'')]) | _ \<Rightarrow> JNull) =
    Inr (follow s [''toolSpec'', ''inputSchema'', ''json''])"
  using assms by (cases t) (auto simp: tool_spec_def bindR_eq_Inr dget_def)

lemma tool_specs_schemas:
  "mapR tool_spec ts = Inr specs \<Longrightarrow>
     mapR normalize_schema (map (\<lambda>t. case t of JObj d \<Rightarrow> dget d ''input_schema'' (JObj [(''type'', JStr ''object'')])
       | _ \<Rightarrow> JNull) ts) = Inr (map (\<lambda>s. follow s [''toolSpec'', ''inputSchema'', ''json'']) specs)"
proof (induction ts arbitrary: specs)
  case (Cons t ts)
  then obtain s ss where s: "tool_spec t = Inr s" "mapR tool_spec ts = Inr ss" "specs = s # ss"
    by (auto simp: bindR_eq_Inr)
  then show ?case using Cons.IH [OF s(2)] tool_spec_schema [OF s(1)] by simp
qed simp

lemma tool_specs_of_list:
  assumes "py_truthy v" and "py_iter v = Inr ts" and "mapR tool_spec ts = Inr specs"
  shows "v = JList ts"
proof (cases v)
  case (JStr s)
  then show ?thesis using assms by (cases s) (auto simp: tool_spec_def)
next
  case (JObj d)
  then show ?thesis using assms by (cases d) (auto simp: tool_spec_def)
qed (use assms in auto)

lemma mapR_all: "mapR f xs = Inr ys \<Longrightarrow> (\<And>x y. f x = Inr y \<Longrightarrow> P y) \<Longrightarrow> list_all P ys"
  by (induction xs arbitrary: ys) (auto simp: bindR_eq_Inr)

lemma tool_config_schemas:
  assumes "build_tool_config request enabled = Inr tools"
  shows "mapR normalize_schema (requested_tool_schemas request) = Inr
    (map (\<lambda>t. follow t [''toolSpec'', ''inputSchema'', ''json''])
      (json_items (case map_of (non_empty ''toolConfig'' tools) ''toolConfig'' of None \<Rightarrow> JNull
        | Some v \<Rightarrow> follow v [''tools''])))"
proof (cases "py_truthy (dget request ''tools'' JNull)")
  case True
  then obtain ts specs rest where ts: "py_iter (dget request ''tools'' JNull) = Inr ts" "mapR tool_spec ts = Inr specs"
    and tools: "tools = Some ((''tools'', JList specs) # rest)"
    using assms by (auto simp: build_tool_config_def py_or_def bindR_eq_Inr Let_def)
  have "dget request ''tools'' JNull = JList ts" by (rule tool_specs_of_list [OF True ts])
  then show ?thesis using tool_specs_schemas [OF ts(2)]
    by (simp add: requested_tool_schemas_def json_items_def tools non_empty_def dget_def)
next
  case False
  then have "json_items (dget request ''tools'' JNull) = []"
    by (cases "dget request ''tools'' JNull") (auto simp: json_items_def)
  moreover have "tools = None \<or> (\<exists>e. tools = Some e \<and> map_of e ''tools'' = None)"
    using assms False by (auto simp: build_tool_config_def py_or_def Let_def split: if_splits)
  ultimately show ?thesis
    by (auto simp: requested_tool_schemas_def json_items_def non_empty_def dget_def)
qed

lemma output_config_schema:
  assumes "build_output_config request m = Inr oc"
  shows "if dget request ''response_format'' JNull = JNull then oc = None
    else \<exists>e. oc = Some e \<and> e \<noteq> [] \<and> normalize_schema (requested_output_schema request) =
      Inr (follow (JObj e) [''textFormat'', ''structure'', ''jsonSchema'', ''schema''])"
proof (cases "dget request ''response_format'' JNull")
  case (JObj rf)
  have c: "dget ((k, v) # d) k' x = (if k = k' then v else dget d k' x)" for k v d k' and x :: json
    by (simp add: dget_def)
  show ?thesis
  proof (cases "dget rf ''json_schema'' JNull")
    case (JObj js)
    show ?thesis
    proof (cases "dget js ''schema'' JNull")
      case (JObj schema)
      then show ?thesis
        using assms \<open>dget rf ''json_schema'' JNull = JObj js\<close> \<open>dget request ''response_format'' JNull = JObj rf\<close>
        by (auto simp: build_output_config_def requested_output_schema_def bindR_eq_Inr Let_def c
            split: if_splits bool.splits)
    qed (use assms JObj \<open>dget request ''response_format'' JNull = JObj rf\<close> in
      \<open>simp_all add: build_output_config_def split: if_splits bool.splits\<close>)
  qed (use assms JObj in \<open>simp_all add: build_output_config_def split: if_splits bool.splits\<close>)
qed (use assms in \<open>simp_all add: build_output_config_def\<close>)

text \<open>
  Property C37: the schemas sent to Bedrock are those of the client's request, tool by tool and the
  one of structured output, normalised, whatever else the request holds: each is closed, so every
  object schema the builder descends to says whether it has additional properties, and normalising
  it again changes nothing. A request without a \<open>response_format\<close> sends no output configuration.
\<close>

theorem sent_schemas_closed:
  assumes "build_converse_request request m = Inr q"
  shows "mapR normalize_schema (requested_tool_schemas request) = Inr (sent_tool_schemas q) \<and>
    list_all (\<lambda>s. closed_schema s \<and> normalize_schema s = Inr s) (sent_tool_schemas q) \<and>
    (if dget request ''response_format'' JNull = JNull then map_of (cr_payload q) ''outputConfig'' = None
     else normalize_schema (requested_output_schema request) = Inr (sent_output_schema q) \<and>
       closed_schema (sent_output_schema q) \<and> normalize_schema (sent_output_schema q) = Inr (sent_output_schema q))"
proof (rule build_converse_request_parts [OF assms])
  fix requested enabled msgs system inference tools oc
  assume t: "build_tool_config request enabled = Inr tools" and o: "build_output_config request m = Inr oc"
    and p: "cr_payload q = [(''messages'', JList msgs)] @
       (if system = [] then [] else [(''system'', JList system)]) @
       non_empty ''inferenceConfig'' (Some inference) @ non_empty ''toolConfig'' tools @
       non_empty ''additionalModelRequestFields'' (Some (build_additional_model_request_fields
         request m (if enabled then requested else None))) @
       non_empty ''outputConfig'' oc"
  note payload = payload_tool_config [OF p]
  have tools: "mapR normalize_schema (requested_tool_schemas request) = Inr (sent_tool_schemas q)"
    using tool_config_schemas [OF t]
    by (simp add: sent_tool_schemas_def dget_def payload(1) json_items_def split: option.splits)
  moreover have "list_all (\<lambda>s. closed_schema s \<and> normalize_schema s = Inr s) (sent_tool_schemas q)"
    by (rule mapR_all [OF tools]) (rule normalize_schema_closed)
  moreover have "if dget request ''response_format'' JNull = JNull then map_of (cr_payload q) ''outputConfig'' = None
     else normalize_schema (requested_output_schema request) = Inr (sent_output_schema q)"
    using output_config_schema [OF o]
    by (auto simp: sent_output_schema_def dget_def payload(2) non_empty_def split: if_splits)
  ultimately show ?thesis using normalize_schema_closed by (auto split: if_splits)
qed

text \<open>A request with one tool, and a model with structured output.\<close>

definition demo_schema_request :: request where
  "demo_schema_request =
     [(''messages'', JList []),
      (''tools'', JList [JObj [(''name'', JStr ''t''), (''input_schema'', JObj [(''type'', JStr ''object''),
         (''properties'', JObj [(''p'', JObj [(''type'', JStr ''object'')])])])]]),
      (''response_format'', JObj [(''type'', JStr ''json_schema''), (''json_schema'', JObj
         [(''schema'', JObj [(''type'', JStr ''object'')])])])]"

lemma sent_schemas_closed_witness:
  "\<exists>q. build_converse_request demo_schema_request demo_model = Inr q \<and>
     list_all closed_schema (sent_tool_schemas q) \<and> length (sent_tool_schemas q) = 1 \<and>
     closed_schema (sent_output_schema q)"
proof -
  obtain q where q: "build_converse_request demo_schema_request demo_model = Inr q" "length (sent_tool_schemas q) = 1"
    by (simp add: build_converse_request_def demo_schema_request_def demo_model_def Let_def dget_def
        normalize_reasoning_request_def py_or_def normalize_messages_def normalize_system_blocks_def
        build_inference_config_def build_tool_config_def tool_spec_def normalize_schema_def
        build_additional_model_request_fields_def build_output_config_def non_empty_def target_model_id_def
        sent_tool_schemas_def json_items_def)
  from sent_schemas_closed [OF q(1)] q show ?thesis
    by (auto simp: demo_schema_request_def dget_def list_all_iff)
qed

end
