(* ===== verification/StreamDecoder.thy ===== *)
theory StreamDecoder
  imports ResponseParser
begin

section \<open>The stream decoder (\<open>proxy/bedrock_converse/stream_decoder.py\<close>)\<close>

text \<open>
  \<open>ConverseStreamDecoder\<close>: a state machine that turns the events of a Converse stream into
  server-sent events. One event either yields frames, possibly ending the stream, or raises; the
  state it leaves matters in both cases, since the final usage is audited. A thinking block or
  provider reasoning entry is kept as its text.
\<close>

record Decoder =
  dc_model :: json
  dc_message_id :: string
  dc_usage :: "(string, json) pydict"
  dc_thinking_blocks :: "string list"
  dc_provider_reasoning :: "string list"
  dc_block_types :: "(int, string) pydict"
  dc_thinking_block_positions :: "(int, nat) pydict"
  dc_pending_stop_reason :: json

definition new_decoder :: "json \<Rightarrow> Decoder" where
  "new_decoder model =
     \<lparr>dc_model = model, dc_message_id = DEFAULT_STREAM_MESSAGE_ID,
      dc_usage = [(''input_tokens'', JInt 0), (''output_tokens'', JInt 0), (''total_tokens'', JInt 0),
        (''cache_write_input_tokens'', JInt 0), (''cache_read_input_tokens'', JInt 0),
        (''cache_details'', JNull)],
      dc_thinking_blocks = [], dc_provider_reasoning = [], dc_block_types = [],
      dc_thinking_block_positions = [], dc_pending_stop_reason = JNull\<rparr>"

type_synonym 'a dec = "(Decoder, py_exc, 'a) act"

definition sse_frame :: "string \<Rightarrow> (string, json) pydict \<Rightarrow> string" where
  "sse_frame event_name payload =
     ''event: '' @ event_name @ [CHR 10] @ ''data: '' @ json_dumps (JObj payload) @ [CHR 10, CHR 10]"

subsection \<open>Blocks\<close>

definition set_block_type :: "int \<Rightarrow> string \<Rightarrow> unit dec" where
  "set_block_type i t = modifyM (\<lambda>d. d\<lparr>dc_block_types := dset i t (dc_block_types d)\<rparr>)"

definition start_thinking :: "int \<Rightarrow> unit dec" where
  "start_thinking i = modifyM (\<lambda>d. d\<lparr>
     dc_thinking_block_positions :=
       dset i (length (dc_thinking_blocks d)) (dc_thinking_block_positions d),
     dc_thinking_blocks := dc_thinking_blocks d @ [[]],
     dc_provider_reasoning := dc_provider_reasoning d @ [[]]\<rparr>)"

definition normalize_content_block_start :: "int \<Rightarrow> json \<Rightarrow> (string, json) pydict dec" where
  "normalize_content_block_start i start =
     bindM (liftR (py_contains ''text'' start)) (\<lambda>has_text.
     if has_text then bindM (set_block_type i ''text'') (\<lambda>_.
       returnM [(''type'', JStr ''text''), (''text'', JStr [])])
     else bindM (liftR (py_contains ''toolUse'' start)) (\<lambda>has_tool.
     if has_tool then bindM (set_block_type i ''tool_use'') (\<lambda>_.
       bindM (liftR (py_getitem start ''toolUse'')) (\<lambda>tool_use.
       bindM (liftR (py_get tool_use ''toolUseId'' JNull)) (\<lambda>tid.
       bindM (liftR (py_get tool_use ''name'' JNull)) (\<lambda>name.
       returnM [(''type'', JStr ''tool_use''), (''id'', tid), (''name'', name),
                (''input'', JObj [])]))))
     else bindM (liftR (py_contains ''reasoningContent'' start)) (\<lambda>has_reasoning.
     if has_reasoning then bindM (set_block_type i ''thinking'') (\<lambda>_.
       bindM (start_thinking i) (\<lambda>_.
       returnM [(''type'', JStr ''thinking''), (''thinking'', JStr [])]))
     else bindM (set_block_type i ''text'') (\<lambda>_.
       returnM [(''type'', JStr ''text''), (''text'', JStr [])]))))"

text \<open>\<open>+=\<close> on the text at a position, which only a string can be added to.\<close>

definition append_thinking :: "int \<Rightarrow> json \<Rightarrow> unit dec" where
  "append_thinking i reasoning_text = (\<lambda>d.
     case map_of (dc_thinking_block_positions d) i of
       None \<Rightarrow> (Inl key_error, d)
     | Some p \<Rightarrow> (case reasoning_text of
         JStr s \<Rightarrow> (Inr (), d\<lparr>
           dc_thinking_blocks := (dc_thinking_blocks d)[p := dc_thinking_blocks d ! p @ s],
           dc_provider_reasoning := (dc_provider_reasoning d)[p := dc_provider_reasoning d ! p @ s]\<rparr>)
       | _ \<Rightarrow> (Inl type_error, d)))"

definition normalize_content_block_delta :: "int \<Rightarrow> json \<Rightarrow> (string, json) pydict dec" where
  "normalize_content_block_delta i delta =
     bindM (liftR (py_contains ''text'' delta)) (\<lambda>has_text.
     if has_text then bindM (liftR (py_getitem delta ''text'')) (\<lambda>t.
       returnM [(''type'', JStr ''text_delta''), (''text'', t)])
     else bindM (liftR (py_contains ''toolUse'' delta)) (\<lambda>has_tool.
     if has_tool then
       bindM (liftR (bindR (py_getitem delta ''toolUse'') (\<lambda>t. py_get t ''input'' (JStr [])))) (\<lambda>inp.
       returnM [(''type'', JStr ''input_json_delta''), (''partial_json'', inp)])
     else bindM (liftR (py_contains ''reasoningContent'' delta)) (\<lambda>has_reasoning.
     if has_reasoning then
       bindM (liftR (bindR (py_getitem delta ''reasoningContent'') (\<lambda>t. py_get t ''text'' (JStr []))))
         (\<lambda>reasoning_text.
       bindM (append_thinking i reasoning_text) (\<lambda>_.
       returnM [(''type'', JStr ''thinking_delta''), (''thinking'', reasoning_text)]))
     else returnM [(''type'', JStr ''text_delta''), (''text'', JStr [])])))"

definition update_from_metadata :: "json \<Rightarrow> unit dec" where
  "update_from_metadata metadata_event =
     bindM (liftR (bindR (py_get metadata_event ''metadata'' metadata_event) (\<lambda>metadata.
       bindR (py_get metadata ''usage'' JNull) normalize_usage))) (\<lambda>usage.
     modifyM (\<lambda>d. d\<lparr>dc_usage := usage\<rparr>))"

definition flush_pending_stop :: "string list dec" where
  "flush_pending_stop =
     bindM (getsM dc_pending_stop_reason) (\<lambda>pending.
     if pending = JNull then returnM []
     else bindM (liftR (py_in_set pending SUPPORTED_STOP_REASONS)) (\<lambda>supported.
       bindM (getsM dc_usage) (\<lambda>usage.
       bindM (modifyM (\<lambda>d. d\<lparr>dc_pending_stop_reason := JNull\<rparr>)) (\<lambda>_.
       returnM
         [sse_frame ''message_delta''
            [(''type'', JStr ''message_delta''),
             (''delta'', JObj [(''stop_reason'', if supported then pending else JStr ''end_turn''),
               (''stop_sequence'', JNull)]),
             (''usage'', JObj usage)],
          sse_frame ''message_stop'' [(''type'', JStr ''message_stop'')]]))))"

definition block_index :: "json \<Rightarrow> int res" where
  "block_index v = bindR (py_getitem v ''contentBlockIndex'') py_int"

subsection \<open>Events\<close>

text \<open>One event: the frames it yields and whether the generator returns after it.\<close>

definition decode_event :: "json \<Rightarrow> (string list \<times> bool) dec" where
  "decode_event event =
     bindM (liftR (py_contains ''messageStart'' event)) (\<lambda>c. if c then
       bindM (liftR (bindR (py_getitem event ''messageStart'') (\<lambda>v.
         py_get v ''role'' (JStr ''assistant'')))) (\<lambda>role.
       bindM (getsM (\<lambda>d. (dc_message_id d, dc_model d))) (\<lambda>(mid, model).
       returnM ([sse_frame ''message_start''
         [(''type'', JStr ''message_start''),
          (''message'', JObj [(''id'', JStr mid), (''type'', JStr ''message''), (''role'', role),
             (''model'', model), (''content'', JList [])])]], False)))
     else bindM (liftR (py_contains ''contentBlockStart'' event)) (\<lambda>c. if c then
       bindM (liftR (py_getitem event ''contentBlockStart'')) (\<lambda>block_start.
       bindM (liftR (block_index block_start)) (\<lambda>i.
       bindM (liftR (py_get block_start ''start'' (JObj []))) (\<lambda>start.
       bindM (normalize_content_block_start i start) (\<lambda>content_block.
       returnM ([sse_frame ''content_block_start''
         [(''type'', JStr ''content_block_start''), (''index'', JInt i),
          (''content_block'', JObj content_block)]], False)))))
     else bindM (liftR (py_contains ''contentBlockDelta'' event)) (\<lambda>c. if c then
       bindM (liftR (py_getitem event ''contentBlockDelta'')) (\<lambda>block_delta.
       bindM (liftR (block_index block_delta)) (\<lambda>i.
       bindM (liftR (py_get block_delta ''delta'' (JObj []))) (\<lambda>delta.
       bindM (normalize_content_block_delta i delta) (\<lambda>delta_payload.
       returnM ([sse_frame ''content_block_delta''
         [(''type'', JStr ''content_block_delta''), (''index'', JInt i),
          (''delta'', JObj delta_payload)]], False)))))
     else bindM (liftR (py_contains ''contentBlockStop'' event)) (\<lambda>c. if c then
       bindM (liftR (bindR (py_getitem event ''contentBlockStop'') block_index)) (\<lambda>i.
       returnM ([sse_frame ''content_block_stop''
         [(''type'', JStr ''content_block_stop''), (''index'', JInt i)]], False))
     else bindM (liftR (py_contains ''messageStop'' event)) (\<lambda>c. if c then
       bindM (liftR (bindR (py_getitem event ''messageStop'') (\<lambda>v.
         py_get v ''stopReason'' JNull))) (\<lambda>stop_reason.
       bindM (modifyM (\<lambda>d. d\<lparr>dc_pending_stop_reason := stop_reason\<rparr>)) (\<lambda>_. returnM ([], False)))
     else bindM (liftR (py_contains ''metadata'' event)) (\<lambda>c. if c then
       bindM (update_from_metadata event) (\<lambda>_.
       bindM flush_pending_stop (\<lambda>frames. returnM (frames, False)))
     else bindM (liftR (py_contains ''exception'' event)) (\<lambda>c. if c then
       bindM (liftR (py_getitem event ''exception'')) (\<lambda>e.
       returnM ([sse_frame ''error''
         [(''type'', JStr ''error''),
          (''error'', JObj [(''type'', JStr ''api_error''), (''message'', JStr (py_str e))])]], True))
     else returnM ([], False))))))))"

text \<open>
  The generator: the frames yielded, the exception that ended it if one did, and the last state.
  The provider's stream is its events and the exception its iteration raises after them, if any.
\<close>

type_synonym raw_stream = "json list \<times> py_exc option"

fun iter_sse_events :: "json list \<Rightarrow> py_exc option \<Rightarrow> Decoder \<Rightarrow> string list \<times> py_exc option \<times> Decoder" where
  "iter_sse_events [] (Some x) d = ([], Some x, d)"
| "iter_sse_events [] None d =
     (case flush_pending_stop d of
        (Inl x, d') \<Rightarrow> ([], Some x, d')
      | (Inr frames, d') \<Rightarrow> (frames, None, d'))"
| "iter_sse_events (e # es) raised d =
     (case decode_event e d of
        (Inl x, d') \<Rightarrow> ([], Some x, d')
      | (Inr (frames, finished), d') \<Rightarrow>
          if finished then (frames, None, d')
          else (case iter_sse_events es raised d' of (fs, x, d'') \<Rightarrow> (frames @ fs, x, d'')))"

subsection \<open>What every action keeps\<close>

definition keeps :: "(Decoder \<Rightarrow> bool) \<Rightarrow> 'a dec \<Rightarrow> bool" where
  "keeps I m \<longleftrightarrow> (\<forall>d. I d \<longrightarrow> I (snd (m d)))"

definition gives :: "('a \<Rightarrow> bool) \<Rightarrow> 'a dec \<Rightarrow> bool" where
  "gives P m \<longleftrightarrow> (\<forall>d x d'. m d = (Inr x, d') \<longrightarrow> P x)"

lemma keeps_bind: "keeps I m \<Longrightarrow> (\<And>x. keeps I (f x)) \<Longrightarrow> keeps I (bindM m f)"
  by (auto simp: keeps_def bindM_def split: prod.splits sum.splits)

lemma keeps_pure: "keeps I (liftR r)" "keeps I (returnM x)" "keeps I (getsM g)"
  by (simp_all add: keeps_def)

lemma keeps_modify: "(\<And>d. I d \<Longrightarrow> I (f d)) \<Longrightarrow> keeps I (modifyM f)"
  by (simp add: keeps_def)

lemma keeps_if: "(b \<Longrightarrow> keeps I m) \<Longrightarrow> (\<not> b \<Longrightarrow> keeps I m') \<Longrightarrow> keeps I (if b then m else m')"
  by simp

lemmas keeps_intros = keeps_bind keeps_pure keeps_if

lemma gives_bind: "(\<And>x. gives P (f x)) \<Longrightarrow> gives P (bindM m f)"
  by (auto simp: gives_def bindM_Inr)

lemma gives_return: "P x \<Longrightarrow> gives P (returnM x)"
  by (simp add: gives_def)

lemma gives_if: "(b \<Longrightarrow> gives P m) \<Longrightarrow> (\<not> b \<Longrightarrow> gives P m') \<Longrightarrow> gives P (if b then m else m')"
  by simp

lemmas gives_intros = gives_bind gives_return gives_if

text \<open>
  The invariant of the decoder: both accounts of the reasoning text agree, and every recorded
  position is one of a thinking block.
\<close>

definition decoder_ok :: "Decoder \<Rightarrow> bool" where
  "decoder_ok d \<longleftrightarrow> dc_provider_reasoning d = dc_thinking_blocks d \<and>
     (\<forall>i p. map_of (dc_thinking_block_positions d) i = Some p \<longrightarrow> p < length (dc_thinking_blocks d)) \<and>
     usage_ok (dc_usage d)"

lemma decoder_ok_new: "decoder_ok (new_decoder model)"
  by (simp add: decoder_ok_def new_decoder_def usage_ok_def usage_fields_def)

lemma keeps_set_block_type: "keeps decoder_ok (set_block_type i t)"
  unfolding set_block_type_def by (rule keeps_modify) (simp add: decoder_ok_def)

lemma keeps_start_thinking: "keeps decoder_ok (start_thinking i)"
  unfolding start_thinking_def
  by (rule keeps_modify) (auto simp: decoder_ok_def less_Suc_eq)

lemma keeps_append_thinking: "keeps decoder_ok (append_thinking i t)"
  by (auto simp: keeps_def append_thinking_def decoder_ok_def split: option.splits json.splits)

lemma keeps_update_usage: "keeps decoder_ok (update_from_metadata e)"
  by (auto simp: keeps_def update_from_metadata_def decoder_ok_def bindM_def bindR_eq_Inr
      split: prod.splits sum.splits dest: normalize_usage_ok)

lemma keeps_flush: "keeps decoder_ok flush_pending_stop"
  unfolding flush_pending_stop_def
  by (intro keeps_intros keeps_modify) (simp add: decoder_ok_def)

lemma keeps_block_start: "keeps decoder_ok (normalize_content_block_start i v)"
  unfolding normalize_content_block_start_def
  by (intro keeps_intros keeps_set_block_type keeps_start_thinking)

lemma keeps_block_delta: "keeps decoder_ok (normalize_content_block_delta i v)"
  unfolding normalize_content_block_delta_def
  by (intro keeps_intros keeps_append_thinking)

lemma keeps_case_prod: "(\<And>a b. keeps I (f a b)) \<Longrightarrow> keeps I (case p of (a, b) \<Rightarrow> f a b)"
  by (cases p) simp

lemma gives_case_prod: "(\<And>a b. gives P (f a b)) \<Longrightarrow> gives P (case p of (a, b) \<Rightarrow> f a b)"
  by (cases p) simp

lemma keeps_pending: "keeps decoder_ok (modifyM (\<lambda>d. d\<lparr>dc_pending_stop_reason := v\<rparr>))"
  by (rule keeps_modify) (simp add: decoder_ok_def)

lemma decode_event_ok: "keeps decoder_ok (decode_event e)"
  unfolding decode_event_def
  by (intro keeps_intros keeps_case_prod keeps_block_start keeps_block_delta keeps_update_usage
      keeps_flush keeps_pending)

lemma iter_sse_ok:
  "iter_sse_events es raised d = (fs, x, d') \<Longrightarrow> decoder_ok d \<Longrightarrow> decoder_ok d'"
proof (induction es raised d arbitrary: fs x d' rule: iter_sse_events.induct)
  case (2 d)
  then show ?case using keeps_flush
    by (auto simp: keeps_def split: prod.splits sum.splits)
next
  case (3 e es raised d)
  obtain r d1 where r: "decode_event e d = (r, d1)" by force
  have ok: "decoder_ok d1" using decode_event_ok [of e] 3(3) r by (metis keeps_def snd_conv)
  show ?case
  proof (cases r)
    case (Inl a)
    then show ?thesis using 3(2) r ok by simp
  next
    case (Inr p)
    obtain frames fin where p: "p = (frames, fin)" by force
    obtain gs y d2 where n: "iter_sse_events es raised d1 = (gs, y, d2)" using prod_cases3 by blast
    show ?thesis
      using 3(1) [OF r [symmetric] Inr p [symmetric] _ n ok] 3(2) r ok Inr p n
      by (auto split: if_splits)
  qed
qed simp

subsection \<open>Frames\<close>

definition sse_names :: "string set" where
  "sse_names = {''message_start'', ''content_block_start'', ''content_block_delta'',
     ''content_block_stop'', ''message_delta'', ''message_stop'', ''error''}"

definition is_frame :: "string \<Rightarrow> bool" where
  "is_frame f \<longleftrightarrow> (\<exists>n \<in> sse_names. \<exists>p. f = sse_frame n p)"

lemma is_frame_sse [simp]: "n \<in> sse_names \<Longrightarrow> is_frame (sse_frame n p)"
  by (auto simp: is_frame_def)

lemma sse_names_mem [simp]:
  "''message_start'' \<in> sse_names" "''content_block_start'' \<in> sse_names"
  "''content_block_delta'' \<in> sse_names" "''content_block_stop'' \<in> sse_names"
  "''message_delta'' \<in> sse_names" "''message_stop'' \<in> sse_names" "''error'' \<in> sse_names"
  by (simp_all add: sse_names_def)

lemma gives_flush: "gives (list_all is_frame) flush_pending_stop"
  unfolding flush_pending_stop_def by (intro gives_intros) simp_all

lemma gives_bind_flush:
  "gives (\<lambda>p. list_all is_frame (fst p)) (bindM flush_pending_stop (\<lambda>frames. returnM (frames, b)))"
  using gives_flush by (auto simp: gives_def bindM_Inr)

lemma decode_event_frames: "gives (\<lambda>p. list_all is_frame (fst p)) (decode_event e)"
  unfolding decode_event_def
  by (intro gives_bind_flush gives_if gives_case_prod gives_return | rule gives_bind | simp)+

lemma iter_sse_frames:
  "iter_sse_events es raised d = (fs, x, d') \<Longrightarrow> list_all is_frame fs"
proof (induction es raised d arbitrary: fs x d' rule: iter_sse_events.induct)
  case (2 d)
  then show ?case using gives_flush
    by (auto simp: gives_def split: prod.splits sum.splits)
next
  case (3 e es raised d)
  obtain r d1 where r: "decode_event e d = (r, d1)" by force
  show ?case
  proof (cases r)
    case (Inl a)
    then show ?thesis using 3(2) r by simp
  next
    case (Inr p)
    obtain frames fin where p: "p = (frames, fin)" by force
    have f: "list_all is_frame frames"
      using decode_event_frames [of e] r Inr p by (auto simp: gives_def)
    obtain gs y d2 where n: "iter_sse_events es raised d1 = (gs, y, d2)" using prod_cases3 by blast
    show ?thesis
      using 3(1) [OF r [symmetric] Inr p [symmetric] _ n] 3(2) r f Inr p n
      by (auto split: if_splits)
  qed
qed simp

text \<open>
  The client's reading of the stream: lines in threes, an event name, its data and an empty line.
\<close>

fun sse_lines :: "string list \<Rightarrow> (string \<times> string) list" where
  "sse_lines (e # d # b # rest) =
     (if py_startswith e ''event: '' \<and> py_startswith d ''data: '' \<and> b = []
      then (py_removeprefix e ''event: '', py_removeprefix d ''data: '') # sse_lines rest else [])"
| "sse_lines _ = []"

definition sse_read :: "string \<Rightarrow> (string \<times> string) list" where
  "sse_read text = sse_lines (py_split (CHR 10) text)"

lemma py_split_frame:
  assumes "n \<in> sse_names"
  shows "py_split (CHR 10) (sse_frame n p @ s) =
    (''event: '' @ n) # (''data: '' @ json_dumps (JObj p)) # [] # py_split (CHR 10) s"
proof -
  have n: "CHR 10 \<notin> set (''event: '' @ n)" using assms by (auto simp: sse_names_def)
  have d: "CHR 10 \<notin> set (''data: '' @ json_dumps (JObj p))"
    using json_dumps_no_newline [of "JObj p"] by auto
  have "sse_frame n p @ s = (''event: '' @ n) @ CHR 10 # (''data: '' @ json_dumps (JObj p)) @
      CHR 10 # CHR 10 # s"
    by (simp add: sse_frame_def)
  then show ?thesis
    by (simp only: py_split_append [OF n] py_split_append [OF d]) simp
qed

definition frame_parts :: "string \<Rightarrow> string \<times> string \<Rightarrow> bool" where
  "frame_parts f e \<longleftrightarrow> (\<exists>n \<in> sse_names. \<exists>p. f = sse_frame n p \<and> e = (n, json_dumps (JObj p)))"

lemma sse_read_frames:
  "list_all is_frame fs \<Longrightarrow> list_all2 frame_parts fs (sse_read (concat fs))"
proof (induction fs)
  case Nil
  then show ?case by (simp add: sse_read_def)
next
  case (Cons f fs)
  then obtain n p where f: "n \<in> sse_names" "f = sse_frame n p" by (auto simp: is_frame_def)
  have "sse_read (concat (f # fs)) = (n, json_dumps (JObj p)) # sse_read (concat fs)"
    unfolding sse_read_def concat.simps f(2) py_split_frame [OF f(1)]
    by (simp only: sse_lines.simps py_startswith_append py_removeprefix_append if_True simp_thms)
  moreover have "frame_parts f (n, json_dumps (JObj p))" using f by (auto simp: frame_parts_def)
  ultimately show ?case using Cons by simp
qed

subsection \<open>The stream of a message\<close>

text \<open>
  A message in the form the repository's tests stream it: every block is announced by a start event,
  then come its deltas and a stop event, and after the blocks the stop reason and the usage; and the
  frames the client is to get for it. The Converse API announces the blocks of tools only;
  \<open>StreamAgreement\<close> has what becomes of messages in its form.
\<close>

datatype stream_block =
    SText "string list"
  | STool string string "string list"
  | SThinking "string list"

fun block_start_json :: "stream_block \<Rightarrow> json" where
  "block_start_json (SText ts) = JObj [(''text'', JStr [])]"
| "block_start_json (STool i n ts) = JObj [(''toolUse'', JObj [(''toolUseId'', JStr i), (''name'', JStr n)])]"
| "block_start_json (SThinking ts) = JObj [(''reasoningContent'', JObj [])]"

fun block_deltas :: "stream_block \<Rightarrow> string list" where
  "block_deltas (SText ts) = ts"
| "block_deltas (STool i n ts) = ts"
| "block_deltas (SThinking ts) = ts"

fun delta_json :: "stream_block \<Rightarrow> string \<Rightarrow> json" where
  "delta_json (SText ts) t = JObj [(''text'', JStr t)]"
| "delta_json (STool i n ts) t = JObj [(''toolUse'', JObj [(''input'', JStr t)])]"
| "delta_json (SThinking ts) t = JObj [(''reasoningContent'', JObj [(''text'', JStr t)])]"

definition delta_event :: "int \<Rightarrow> json \<Rightarrow> json" where
  "delta_event i delta = JObj [(''contentBlockDelta'',
     JObj [(''contentBlockIndex'', JInt i), (''delta'', delta)])]"

definition start_event :: "int \<Rightarrow> json \<Rightarrow> json" where
  "start_event i start = JObj [(''contentBlockStart'',
     JObj [(''contentBlockIndex'', JInt i), (''start'', start)])]"

definition stop_event :: "int \<Rightarrow> json" where
  "stop_event i = JObj [(''contentBlockStop'', JObj [(''contentBlockIndex'', JInt i)])]"

definition block_events :: "int \<Rightarrow> stream_block \<Rightarrow> json list" where
  "block_events i b = start_event i (block_start_json b) #
     map (\<lambda>t. delta_event i (delta_json b t)) (block_deltas b) @ [stop_event i]"

fun client_start :: "stream_block \<Rightarrow> (string, json) pydict" where
  "client_start (SText ts) = [(''type'', JStr ''text''), (''text'', JStr [])]"
| "client_start (STool i n ts) = [(''type'', JStr ''tool_use''), (''id'', JStr i), (''name'', JStr n),
     (''input'', JObj [])]"
| "client_start (SThinking ts) = [(''type'', JStr ''thinking''), (''thinking'', JStr [])]"

fun client_delta :: "stream_block \<Rightarrow> string \<Rightarrow> (string, json) pydict" where
  "client_delta (SText ts) t = [(''type'', JStr ''text_delta''), (''text'', JStr t)]"
| "client_delta (STool i n ts) t = [(''type'', JStr ''input_json_delta''), (''partial_json'', JStr t)]"
| "client_delta (SThinking ts) t = [(''type'', JStr ''thinking_delta''), (''thinking'', JStr t)]"

definition delta_frame :: "int \<Rightarrow> (string, json) pydict \<Rightarrow> string" where
  "delta_frame i p = sse_frame ''content_block_delta''
     [(''type'', JStr ''content_block_delta''), (''index'', JInt i), (''delta'', JObj p)]"

definition block_frames :: "int \<Rightarrow> stream_block \<Rightarrow> string list" where
  "block_frames i b =
     sse_frame ''content_block_start''
       [(''type'', JStr ''content_block_start''), (''index'', JInt i),
        (''content_block'', JObj (client_start b))] #
     map (\<lambda>t. delta_frame i (client_delta b t)) (block_deltas b) @
     [sse_frame ''content_block_stop''
       [(''type'', JStr ''content_block_stop''), (''index'', JInt i)]]"

fun blocks_events :: "int \<Rightarrow> stream_block list \<Rightarrow> json list" where
  "blocks_events i [] = []"
| "blocks_events i (b # bs) = block_events i b @ blocks_events (i + 1) bs"

fun blocks_frames :: "int \<Rightarrow> stream_block list \<Rightarrow> string list" where
  "blocks_frames i [] = []"
| "blocks_frames i (b # bs) = block_frames i b @ blocks_frames (i + 1) bs"

fun thinking_texts :: "stream_block list \<Rightarrow> string list" where
  "thinking_texts [] = []"
| "thinking_texts (SThinking ts # bs) = concat ts # thinking_texts bs"
| "thinking_texts (b # bs) = thinking_texts bs"

definition message_events :: "string \<Rightarrow> stream_block list \<Rightarrow> string \<Rightarrow> json \<Rightarrow> json list" where
  "message_events role bs stop usage =
     JObj [(''messageStart'', JObj [(''role'', JStr role)])] # blocks_events 0 bs @
     [JObj [(''messageStop'', JObj [(''stopReason'', JStr stop)])],
      JObj [(''metadata'', JObj [(''usage'', usage)])]]"

definition message_frames ::
    "json \<Rightarrow> string \<Rightarrow> stream_block list \<Rightarrow> string \<Rightarrow> (string, json) pydict \<Rightarrow> string list" where
  "message_frames model role bs stop usage =
     sse_frame ''message_start'' [(''type'', JStr ''message_start''),
       (''message'', JObj [(''id'', JStr DEFAULT_STREAM_MESSAGE_ID), (''type'', JStr ''message''),
          (''role'', JStr role), (''model'', model), (''content'', JList [])])] #
     blocks_frames 0 bs @
     [sse_frame ''message_delta'' [(''type'', JStr ''message_delta''),
        (''delta'', JObj [(''stop_reason'', JStr (if stop \<in> SUPPORTED_STOP_REASONS then stop else ''end_turn'')),
          (''stop_sequence'', JNull)]), (''usage'', JObj usage)],
      sse_frame ''message_stop'' [(''type'', JStr ''message_stop'')]]"

text \<open>Decoding a run of events none of which ends the stream.\<close>

inductive decodes :: "json list \<Rightarrow> Decoder \<Rightarrow> string list \<Rightarrow> Decoder \<Rightarrow> bool" where
  none: "decodes [] d [] d"
| one: "decode_event e d = (Inr (f, False), d1) \<Longrightarrow> decodes es d1 fs d2 \<Longrightarrow>
    decodes (e # es) d (f @ fs) d2"

lemma decodes_append:
  "decodes es d fs d1 \<Longrightarrow> decodes es' d1 fs' d2 \<Longrightarrow> decodes (es @ es') d (fs @ fs') d2"
  by (induction rule: decodes.induct) (auto intro: decodes.intros)

lemma decodes_single: "decode_event e d = (Inr (f, False), d1) \<Longrightarrow> decodes [e] d f d1"
  using decodes.one [OF _ decodes.none] by fastforce

lemma iter_decodes:
  "decodes es d fs d1 \<Longrightarrow> iter_sse_events (es @ rest) raised d =
     (case iter_sse_events rest raised d1 of (gs, x, d2) \<Rightarrow> (fs @ gs, x, d2))"
  by (induction rule: decodes.induct) (auto split: prod.splits)

lemma bindM_liftR [simp]: "bindM (liftR (Inr x)) f = f x"
  by (simp add: bindM_def fun_eq_iff)

lemma decode_start_event:
  assumes "normalize_content_block_start i start d = (Inr p, d')"
  shows "decode_event (start_event i start) d =
    (Inr ([sse_frame ''content_block_start''
       [(''type'', JStr ''content_block_start''), (''index'', JInt i), (''content_block'', JObj p)]], False), d')"
  using assms by (simp add: decode_event_def start_event_def block_index_def dget_def)

lemma decode_delta_event:
  assumes "normalize_content_block_delta i delta d = (Inr p, d')"
  shows "decode_event (delta_event i delta) d = (Inr ([delta_frame i p], False), d')"
  using assms by (simp add: decode_event_def delta_event_def delta_frame_def block_index_def dget_def)

lemma decode_stop_event:
  "decode_event (stop_event i) d = (Inr ([sse_frame ''content_block_stop''
     [(''type'', JStr ''content_block_stop''), (''index'', JInt i)]], False), d)"
  by (simp add: decode_event_def stop_event_def block_index_def)

subsection \<open>Decoding a block\<close>

definition same_head :: "Decoder \<Rightarrow> Decoder \<Rightarrow> bool" where
  "same_head d d' \<longleftrightarrow> dc_model d' = dc_model d \<and> dc_message_id d' = dc_message_id d \<and>
     dc_usage d' = dc_usage d \<and> dc_pending_stop_reason d' = dc_pending_stop_reason d"

lemma same_head_refl [simp]: "same_head d d"
  by (simp add: same_head_def)

lemma same_head_trans: "same_head d d1 \<Longrightarrow> same_head d1 d2 \<Longrightarrow> same_head d d2"
  by (simp add: same_head_def)

definition after_start :: "int \<Rightarrow> stream_block \<Rightarrow> Decoder \<Rightarrow> Decoder" where
  "after_start i b d = (case b of
     SText ts \<Rightarrow> d\<lparr>dc_block_types := dset i ''text'' (dc_block_types d)\<rparr>
   | STool tid n ts \<Rightarrow> d\<lparr>dc_block_types := dset i ''tool_use'' (dc_block_types d)\<rparr>
   | SThinking ts \<Rightarrow> snd (start_thinking i
       (d\<lparr>dc_block_types := dset i ''thinking'' (dc_block_types d)\<rparr>)))"

lemma block_start_run:
  "normalize_content_block_start i (block_start_json b) d = (Inr (client_start b), after_start i b d)"
  by (cases b) (simp_all add: normalize_content_block_start_def set_block_type_def start_thinking_def
      after_start_def dget_def)

lemma plain_delta_run:
  "\<forall>ts. b \<noteq> SThinking ts \<Longrightarrow>
     normalize_content_block_delta i (delta_json b t) d = (Inr (client_delta b t), d)"
  by (cases b) (simp_all add: normalize_content_block_delta_def dget_def)

lemma thinking_delta_run:
  assumes "map_of (dc_thinking_block_positions d) i = Some p"
  shows "\<exists>d1. normalize_content_block_delta i (delta_json (SThinking ts) t) d =
      (Inr (client_delta (SThinking ts) t), d1) \<and> same_head d d1 \<and>
    dc_thinking_block_positions d1 = dc_thinking_block_positions d \<and>
    dc_thinking_blocks d1 = (dc_thinking_blocks d)[p := dc_thinking_blocks d ! p @ t]"
  using assms by (simp add: normalize_content_block_delta_def append_thinking_def same_head_def dget_def)

lemma plain_deltas:
  assumes "\<forall>ts. b \<noteq> SThinking ts"
  shows "decodes (map (\<lambda>t. delta_event i (delta_json b t)) us) d
    (map (\<lambda>t. delta_frame i (client_delta b t)) us) d"
proof (induction us)
  case (Cons u us)
  have "decode_event (delta_event i (delta_json b u)) d = (Inr ([delta_frame i (client_delta b u)], False), d)"
    by (rule decode_delta_event) (rule plain_delta_run [OF assms])
  from decodes.one [OF this Cons] show ?case by simp
qed (simp add: decodes.none)

lemma thinking_deltas:
  assumes "map_of (dc_thinking_block_positions d) i = Some p" and "p < length (dc_thinking_blocks d)"
  shows "\<exists>d1. decodes (map (\<lambda>t. delta_event i (delta_json (SThinking ts) t)) us) d
      (map (\<lambda>t. delta_frame i (client_delta (SThinking ts) t)) us) d1 \<and> same_head d d1 \<and>
    dc_thinking_blocks d1 = (dc_thinking_blocks d)[p := dc_thinking_blocks d ! p @ concat us]"
  using assms
proof (induction us arbitrary: d)
  case Nil
  then show ?case by (auto intro: decodes.none)
next
  case (Cons u us)
  obtain d1 where d1: "normalize_content_block_delta i (delta_json (SThinking ts) u) d =
      (Inr (client_delta (SThinking ts) u), d1)" "same_head d d1"
    "dc_thinking_block_positions d1 = dc_thinking_block_positions d"
    "dc_thinking_blocks d1 = (dc_thinking_blocks d)[p := dc_thinking_blocks d ! p @ u]"
    using thinking_delta_run Cons.prems(1) by blast
  obtain d2 where d2: "decodes (map (\<lambda>t. delta_event i (delta_json (SThinking ts) t)) us) d1
      (map (\<lambda>t. delta_frame i (client_delta (SThinking ts) t)) us) d2" "same_head d1 d2"
    "dc_thinking_blocks d2 = (dc_thinking_blocks d1)[p := dc_thinking_blocks d1 ! p @ concat us]"
    using Cons.IH [of d1] d1 Cons.prems by auto
  from decodes.one [OF decode_delta_event [OF d1(1)] d2(1)] show ?case
    using d1 d2 Cons.prems(2) same_head_trans by fastforce
qed

lemma block_decodes:
  "\<exists>d1. decodes (block_events i b) d (block_frames i b) d1 \<and> same_head d d1 \<and>
     dc_thinking_blocks d1 = dc_thinking_blocks d @ thinking_texts [b]"
proof -
  let ?d0 = "after_start i b d"
  have "\<exists>d1. decodes (map (\<lambda>t. delta_event i (delta_json b t)) (block_deltas b)) ?d0
      (map (\<lambda>t. delta_frame i (client_delta b t)) (block_deltas b)) d1 \<and> same_head d d1 \<and>
    dc_thinking_blocks d1 = dc_thinking_blocks d @ thinking_texts [b]"
  proof (cases "\<exists>ts. b = SThinking ts")
    case True
    then obtain ts where b: "b = SThinking ts" by blast
    have "map_of (dc_thinking_block_positions ?d0) i = Some (length (dc_thinking_blocks d))"
      "dc_thinking_blocks ?d0 = dc_thinking_blocks d @ [[]]" "same_head d ?d0"
      by (auto simp: b after_start_def start_thinking_def same_head_def)
    then show ?thesis
      using thinking_deltas [of ?d0 i "length (dc_thinking_blocks d)" ts ts] same_head_trans
      by (fastforce simp: b)
  next
    case False
    then have "same_head d ?d0" "dc_thinking_blocks ?d0 = dc_thinking_blocks d" "thinking_texts [b] = []"
      by (cases b; auto simp: after_start_def same_head_def)+
    then show ?thesis using plain_deltas [of b i "block_deltas b" ?d0] False by auto
  qed
  then obtain d1 where d1: "decodes (map (\<lambda>t. delta_event i (delta_json b t)) (block_deltas b)) ?d0
      (map (\<lambda>t. delta_frame i (client_delta b t)) (block_deltas b)) d1" "same_head d d1"
    "dc_thinking_blocks d1 = dc_thinking_blocks d @ thinking_texts [b]" by blast
  from decodes.one [OF decode_start_event [OF block_start_run]
      decodes_append [OF d1(1) decodes_single [OF decode_stop_event]]]
  show ?thesis using d1 by (auto simp: block_events_def block_frames_def)
qed

lemma blocks_decode:
  "\<exists>d1. decodes (blocks_events i bs) d (blocks_frames i bs) d1 \<and> same_head d d1 \<and>
     dc_thinking_blocks d1 = dc_thinking_blocks d @ thinking_texts bs"
proof (induction bs arbitrary: i d)
  case Nil
  then show ?case by (auto intro: decodes.none)
next
  case (Cons b bs)
  have t: "thinking_texts (b # bs) = thinking_texts [b] @ thinking_texts bs" by (cases b) simp_all
  obtain d1 where d1: "decodes (block_events i b) d (block_frames i b) d1" "same_head d d1"
    "dc_thinking_blocks d1 = dc_thinking_blocks d @ thinking_texts [b]" using block_decodes by blast
  obtain d2 where d2: "decodes (blocks_events (i + 1) bs) d1 (blocks_frames (i + 1) bs) d2" "same_head d1 d2"
    "dc_thinking_blocks d2 = dc_thinking_blocks d1 @ thinking_texts bs" using Cons by blast
  from decodes_append [OF d1(1) d2(1)] show ?case
    using d1 d2 t same_head_trans by fastforce
qed

subsection \<open>Properties\<close>

lemma flush_pending_run:
  "dc_pending_stop_reason d = JStr stop \<Longrightarrow> flush_pending_stop d = (Inr
     [sse_frame ''message_delta'' [(''type'', JStr ''message_delta''),
        (''delta'', JObj [(''stop_reason'', JStr (if stop \<in> SUPPORTED_STOP_REASONS then stop else ''end_turn'')),
          (''stop_sequence'', JNull)]), (''usage'', JObj (dc_usage d))],
      sse_frame ''message_stop'' [(''type'', JStr ''message_stop'')]],
     d\<lparr>dc_pending_stop_reason := JNull\<rparr>)"
  by (simp add: flush_pending_stop_def py_in_set_def)

text \<open>
  A message streamed with every block announced (text, tool-use and reasoning blocks in any
  number and order, each with any number of deltas, then the stop reason and the usage) reaches
  the client as exactly the frames of that message: one start, delta and stop frame per provider
  event with the block's index, the supported stop reason, the normalised usage, and a final
  \<open>message_stop\<close>. The decoder keeps the joined text of every reasoning block and the usage that
  is audited.
\<close>

lemma stream_of_message:
  assumes "normalize_usage usage = Inr u"
  shows "\<exists>d'. iter_sse_events (message_events role bs stop usage) None (new_decoder model) =
      (message_frames model role bs stop u, None, d') \<and>
    dc_thinking_blocks d' = thinking_texts bs \<and> dc_usage d' = u"
proof -
  let ?d = "new_decoder model"
  let ?stop = "JObj [(''messageStop'', JObj [(''stopReason'', JStr stop)])]"
  let ?meta = "JObj [(''metadata'', JObj [(''usage'', usage)])]"
  obtain d1 where d1: "decodes (blocks_events 0 bs) ?d (blocks_frames 0 bs) d1" "same_head ?d d1"
    "dc_thinking_blocks d1 = thinking_texts bs"
    using blocks_decode [of 0 bs ?d] by (auto simp: new_decoder_def)
  have s: "decode_event (JObj [(''messageStart'', JObj [(''role'', JStr role)])]) ?d =
      (Inr ([hd (message_frames model role bs stop u)], False), ?d)"
    by (simp add: decode_event_def message_frames_def new_decoder_def dget_def)
  have m: "decode_event ?stop d1 = (Inr ([], False), d1\<lparr>dc_pending_stop_reason := JStr stop\<rparr>)"
    by (simp add: decode_event_def dget_def)
  let ?d2 = "d1\<lparr>dc_pending_stop_reason := JStr stop\<rparr>"
  have e: "decode_event ?meta ?d2 = (Inr (drop (Suc (length (blocks_frames 0 bs)))
      (message_frames model role bs stop u), False), ?d2\<lparr>dc_usage := u, dc_pending_stop_reason := JNull\<rparr>)"
    using assms by (simp add: decode_event_def update_from_metadata_def message_frames_def dget_def
        bindM_value [OF flush_pending_run])
  have run: "decodes (message_events role bs stop usage) ?d (message_frames model role bs stop u)
      (?d2\<lparr>dc_usage := u, dc_pending_stop_reason := JNull\<rparr>)"
    using decodes.one [OF s decodes_append [OF d1(1) decodes.one [OF m decodes_single [OF e]]]]
    by (simp add: message_events_def message_frames_def)
  have "iter_sse_events [] None (?d2\<lparr>dc_usage := u, dc_pending_stop_reason := JNull\<rparr>) =
      ([], None, ?d2\<lparr>dc_usage := u, dc_pending_stop_reason := JNull\<rparr>)"
    by (simp add: flush_pending_stop_def)
  then show ?thesis using iter_decodes [OF run, of "[]" None] d1(3) by simp
qed

text \<open>
  Property C39: whatever the provider sends, also when the stream breaks off, the text written is
  one a client parses back frame by frame: reading it as server-sent events gives the name and
  the data of every frame emitted, so no provider string can break or forge a frame.
\<close>

theorem stream_frames_read_back:
  "list_all2 frame_parts (fst (iter_sse_events es raised d))
     (sse_read (concat (fst (iter_sse_events es raised d))))"
  by (rule sse_read_frames, cases "iter_sse_events es raised d") (simp add: iter_sse_frames)

text \<open>
  At the end of any run of a new decoder, complete or broken off, the two accounts of
  the reasoning text agree, every recorded block position is valid, and the usage to be audited
  has all its fields, the token counts as integers.
\<close>

lemma stream_decoder_stays_ok:
  "decoder_ok (snd (snd (iter_sse_events es raised (new_decoder model))))"
  by (cases "iter_sse_events es raised (new_decoder model)") (simp add: iter_sse_ok [OF _ decoder_ok_new])

text \<open>
  A reasoning delta for a block that was never started ends the stream with
  \<open>KeyError\<close>: the frames stop there, without a \<open>message_stop\<close>, whatever would have followed.
\<close>

lemma stream_reasoning_without_start:
  assumes "decodes es (new_decoder model) fs d"
    and "map_of (dc_thinking_block_positions d) i = None"
  shows "iter_sse_events (es @ delta_event i (delta_json (SThinking ts) t) # rest) raised
    (new_decoder model) = (fs, Some key_error, d)"
proof -
  have "decode_event (delta_event i (delta_json (SThinking ts) t)) d = (Inl key_error, d)"
    using assms(2) by (simp add: decode_event_def delta_event_def block_index_def dget_def
        normalize_content_block_delta_def append_thinking_def)
  then show ?thesis using iter_decodes [OF assms(1)] by simp
qed

end
