(* ===== verification/ProxyRouter.thy ===== *)
theory ProxyRouter
  imports ApiErrors AuditLogger RateLimiter RequestBuilder StreamDecoder Auth
begin

section \<open>The proxy's handlers (\<open>api/proxy_router.py\<close>)\<close>

text \<open>
  \<open>POST /v1/messages\<close> and \<open>POST /v1/messages/count_tokens\<close> over the dependencies they are given,
  each an operation on an arbitrary state, each possibly missing. The request is its JSON body,
  its \<open>Authorization\<close> header and its identifier; the elapsed milliseconds are an argument. A
  streaming response is returned before its body runs: the handler's result is then the job the
  server runs afterwards, with its own audit record. A client that disconnects ends the job's
  stream early, with \<open>GeneratorExit\<close> as the exception that stops the iteration.
\<close>

record 's BedrockClient =
  bc_converse :: "ConverseRequest \<Rightarrow> ('s, json) op"
  bc_converse_stream :: "ConverseRequest \<Rightarrow> ('s, raw_stream) op"
  bc_count_tokens :: "ConverseRequest \<Rightarrow> ('s, json) op"

record 's AppDependencies =
  ad_auth_service :: "'s ProxyAuthService option"
  ad_model_resolver :: "(json \<Rightarrow> ('s, ResolvedModel) op) option"
  ad_policy_engine :: "(UserRecord \<Rightarrow> json \<Rightarrow> PolicyRecord list \<Rightarrow> ('s, PolicyDecision) op) option"
  ad_quota_engine :: "(BudgetPolicyRecord list \<Rightarrow> float64 \<Rightarrow> float64 option \<Rightarrow> string option \<Rightarrow>
    TokenUsageEstimate option \<Rightarrow> ('s, QuotaDecision) op) option"
  ad_rate_limiter :: "(string \<Rightarrow> ('s, RateLimitDecision) op) option"
  ad_bedrock_client :: "'s BedrockClient option"
  ad_audit_logger :: "'s AuditLogger option"

text \<open>Calling a method of a dependency that is \<open>None\<close> raises \<open>AttributeError\<close>.\<close>

definition dependency :: "'d option \<Rightarrow> ('s, 'd) op" where
  "dependency d = (case d of None \<Rightarrow> raiseM attribute_error | Some x \<Rightarrow> returnM x)"

record StreamJob =
  sj_events :: raw_stream
  sj_decoder :: Decoder
  sj_authenticated :: AuthenticatedRequestContext
  sj_request_id :: string
  sj_requested_model :: json
  sj_resolved_model :: "string option"
  sj_policy_decision :: PolicyDecision
  sj_usage_snapshot :: "UsageCostSnapshot option"

datatype ProxyResponse = Json JSONResponse | Streaming StreamJob

subsection \<open>Denials\<close>

text \<open>\<open>reason or default\<close>, and \<open>f"{reason}"\<close> of an optional string.\<close>

definition or_default :: "string option \<Rightarrow> string \<Rightarrow> string" where
  "or_default s d = (case s of Some (c # t) \<Rightarrow> c # t | _ \<Rightarrow> d)"

definition format_optional :: "string option \<Rightarrow> string" where
  "format_optional s = (case s of None \<Rightarrow> ''None'' | Some t \<Rightarrow> t)"

definition blocked_message :: "string \<Rightarrow> string option \<Rightarrow> string" where
  "blocked_message what reason = ''Request blocked by '' @ what @ '': '' @ format_optional reason @ ''.''"

text \<open>Records a denial when there is an audit logger, then answers with the error.\<close>

definition deny ::
    "'s AppDependencies \<Rightarrow> string \<Rightarrow> string \<Rightarrow> AuthenticatedRequestContext \<Rightarrow> json \<Rightarrow> ResolvedModel \<Rightarrow>
     PolicyDecision \<Rightarrow> ServiceError \<Rightarrow> ('s, ProxyResponse) op" where
  "deny deps request_id reason authenticated model resolved_model policy_decision err =
     bindM (case ad_audit_logger deps of
         None \<Rightarrow> returnM ()
       | Some logger \<Rightarrow> record_denial logger request_id reason (Some authenticated) model
           (rm_bedrock_model_id resolved_model) (Some policy_decision)) (\<lambda>_.
     returnM (Json (error_response_for_exception (ServiceErr err) request_id)))"

definition retry_headers :: "RateLimitDecision \<Rightarrow> (string, string) pydict" where
  "retry_headers d = (case rl_retry_after_seconds d of
     None \<Rightarrow> [] | Some n \<Rightarrow> [(''Retry-After'', py_str_int n)])"

subsection \<open>\<open>create_message\<close>\<close>

definition request_of :: "json \<Rightarrow> request res" where
  "request_of body = (case body of JObj d \<Rightarrow> Inr d | _ \<Rightarrow> Inl attribute_error)"

text \<open>The Bedrock call and its answer.\<close>

definition call_bedrock ::
    "'s AppDependencies \<Rightarrow> string \<Rightarrow> int \<Rightarrow> AuthenticatedRequestContext \<Rightarrow> json \<Rightarrow> ResolvedModel \<Rightarrow>
     PolicyDecision \<Rightarrow> QuotaDecision \<Rightarrow> ConverseRequest \<Rightarrow> ('s, ProxyResponse) op" where
  "call_bedrock deps request_id latency_ms authenticated model resolved_model policy_decision
       quota_decision converse_request =
     (if cr_operation converse_request = ''converse_stream''
      then bindM (dependency (ad_bedrock_client deps)) (\<lambda>client.
        bindM (bc_converse_stream client converse_request) (\<lambda>raw_stream.
        returnM (Streaming
          \<lparr>sj_events = raw_stream, sj_decoder = new_decoder model, sj_authenticated = authenticated,
           sj_request_id = request_id, sj_requested_model = model,
           sj_resolved_model = rm_bedrock_model_id resolved_model,
           sj_policy_decision = policy_decision,
           sj_usage_snapshot = qd_usage_snapshot quota_decision\<rparr>)))
      else bindM (dependency (ad_bedrock_client deps)) (\<lambda>client.
        bindM (bc_converse client converse_request) (\<lambda>raw_response.
        bindM (liftR (parse_converse_response raw_response model)) (\<lambda>parsed_response.
        bindM (case ad_audit_logger deps of
            None \<Rightarrow> returnM ()
          | Some logger \<Rightarrow>
              bindM (liftR (bindR (py_getitem (JObj parsed_response) ''usage'') request_of)) (\<lambda>usage.
              record_success logger authenticated request_id model
                (rm_bedrock_model_id resolved_model) policy_decision usage
                (qd_usage_snapshot quota_decision) (Some latency_ms))) (\<lambda>_.
        returnM (Json \<lparr>jr_status_code = 200, jr_content = parsed_response, jr_headers = []\<rparr>))))))"

text \<open>The second \<open>try\<close> block, from the rate limiter on.\<close>

definition admit ::
    "'s AppDependencies \<Rightarrow> string \<Rightarrow> int \<Rightarrow> json \<Rightarrow> AuthenticatedRequestContext \<Rightarrow> json \<Rightarrow> ResolvedModel \<Rightarrow>
     PolicyDecision \<Rightarrow> QuotaDecision \<Rightarrow> ('s, ProxyResponse) op" where
  "admit deps request_id latency_ms body authenticated model resolved_model policy_decision quota_decision =
     bindM (dependency (ad_rate_limiter deps)) (\<lambda>check.
     bindM (liftR (ac_user authenticated)) (\<lambda>user.
     bindM (check (uc_user_id user)) (\<lambda>rate_limit_decision.
     if \<not> rl_allowed rate_limit_decision
     then deny deps request_id DENIAL_REASON_RATE_LIMITED authenticated model resolved_model
       policy_decision (rate_limit_exceeded_error request_id (retry_headers rate_limit_decision))
     else
     bindM (liftR (bindR (request_of body) (\<lambda>d. build_converse_request d resolved_model)))
       (\<lambda>converse_request.
     call_bedrock deps request_id latency_ms authenticated model resolved_model policy_decision
       quota_decision converse_request))))"

text \<open>The second \<open>try\<close> block, entered with an authenticated request.\<close>

definition serve ::
    "'s AppDependencies \<Rightarrow> string \<Rightarrow> int \<Rightarrow> json \<Rightarrow> AuthenticatedRequestContext \<Rightarrow> ('s, ProxyResponse) op" where
  "serve deps request_id latency_ms body authenticated =
     bindM (dependency (ad_model_resolver deps)) (\<lambda>resolve_model.
     bindM (liftR (py_getitem body ''model'')) (\<lambda>model.
     bindM (resolve_model model) (\<lambda>resolved_model.
     bindM (dependency (ad_policy_engine deps)) (\<lambda>evaluate_policy.
     bindM (evaluate_policy (ac_user_record authenticated) model []) (\<lambda>policy_decision.
     if \<not> pd_allowed policy_decision
     then deny deps request_id (or_default (pd_denial_reason policy_decision) ''policy_denied'')
       authenticated model resolved_model policy_decision
       (access_denied_error request_id (blocked_message ''policy'' (pd_denial_reason policy_decision)))
     else
     bindM (dependency (ad_quota_engine deps)) (\<lambda>evaluate_quota.
     bindM (evaluate_quota [] (Fin 0) None (rm_bedrock_model_id resolved_model) None) (\<lambda>quota_decision.
     if \<not> qd_allowed quota_decision
     then deny deps request_id
       (or_default (qd_denial_reason quota_decision) DENIAL_QUOTA_HARD_LIMIT_EXCEEDED)
       authenticated model resolved_model policy_decision
       (access_denied_error request_id (blocked_message ''quota'' (qd_denial_reason quota_decision)))
     else admit deps request_id latency_ms body authenticated model resolved_model policy_decision
       quota_decision)))))))"

definition authenticate_request ::
    "'s AppDependencies \<Rightarrow> string option \<Rightarrow> string \<Rightarrow> ('s, AuthenticatedRequestContext) op" where
  "authenticate_request deps header request_id =
     bindM (dependency (ad_auth_service deps)) (\<lambda>service. authenticate service header request_id)"

text \<open>\<open>body.get("model")\<close> is evaluated for the audit record only, outside every \<open>try\<close>.\<close>

definition refuse ::
    "'s AppDependencies \<Rightarrow> string \<Rightarrow> json \<Rightarrow> py_exc \<Rightarrow> ('s, ProxyResponse) op" where
  "refuse deps request_id body err =
     bindM (case ad_audit_logger deps of
         None \<Rightarrow> returnM ()
       | Some logger \<Rightarrow> bindM (liftR (py_get body ''model'' JNull)) (\<lambda>model.
           record_denial logger request_id DENIAL_REASON_AUTHENTICATION_FAILED None model None None)) (\<lambda>_.
     returnM (Json (error_response_for_exception err request_id)))"

definition create_message ::
    "'s AppDependencies \<Rightarrow> string \<Rightarrow> int \<Rightarrow> json \<Rightarrow> string option \<Rightarrow> ('s, ProxyResponse) op" where
  "create_message deps request_id latency_ms body header = (\<lambda>s.
     case authenticate_request deps header request_id s of
       (Inl err, s') \<Rightarrow> refuse deps request_id body err s'
     | (Inr authenticated, s') \<Rightarrow>
         catchM (serve deps request_id latency_ms body authenticated)
           (\<lambda>err. returnM (Json (error_response_for_exception err request_id))) s')"

text \<open>\<open>_stream_with_audit\<close>: the frames sent, the exception that ends the body, the final state.\<close>

definition stream_with_audit ::
    "'s AppDependencies \<Rightarrow> int \<Rightarrow> StreamJob \<Rightarrow> 's \<Rightarrow> string list \<times> py_exc option \<times> 's" where
  "stream_with_audit deps latency_ms job s =
     (case iter_sse_events (fst (sj_events job)) (snd (sj_events job)) (sj_decoder job) of
        (frames, raised, decoder) \<Rightarrow>
          (case ad_audit_logger deps of
             None \<Rightarrow> (frames, raised, s)
           | Some logger \<Rightarrow>
               (case record_success logger (sj_authenticated job) (sj_request_id job)
                       (sj_requested_model job) (sj_resolved_model job) (sj_policy_decision job)
                       (dc_usage decoder) (sj_usage_snapshot job) (Some latency_ms) s of
                  (Inl err, s') \<Rightarrow> (frames, Some err, s')
                | (Inr _, s') \<Rightarrow> (frames, raised, s'))))"

subsection \<open>\<open>count_tokens\<close>\<close>

definition count_request ::
    "'s AppDependencies \<Rightarrow> string \<Rightarrow> json \<Rightarrow> string option \<Rightarrow> ('s, json) op" where
  "count_request deps request_id body header =
     bindM (authenticate_request deps header request_id) (\<lambda>_.
     bindM (dependency (ad_model_resolver deps)) (\<lambda>resolve_model.
     bindM (liftR (py_getitem body ''model'')) (\<lambda>model.
     bindM (resolve_model model) (\<lambda>resolved_model.
     bindM (liftR (bindR (request_of body) (\<lambda>d. build_converse_request d resolved_model)))
       (\<lambda>converse_request.
     bindM (dependency (ad_bedrock_client deps)) (\<lambda>client.
     bc_count_tokens client converse_request))))))"

text \<open>The response is read outside the \<open>try\<close>.\<close>

definition count_tokens ::
    "'s AppDependencies \<Rightarrow> string \<Rightarrow> json \<Rightarrow> string option \<Rightarrow> ('s, ProxyResponse) op" where
  "count_tokens deps request_id body header = (\<lambda>s.
     case count_request deps request_id body header s of
       (Inl err, s') \<Rightarrow> (Inr (Json (error_response_for_exception err request_id)), s')
     | (Inr count_response, s') \<Rightarrow>
         (bindR (py_get count_response ''input_tokens'' (JInt 0)) (\<lambda>alternative.
          bindR (py_get count_response ''inputTokens'' alternative) (\<lambda>n.
          bindR (py_int (py_or n (JInt 0))) (\<lambda>input_tokens.
          Inr (Json \<lparr>jr_status_code = 200, jr_content = [(''input_tokens'', JInt input_tokens)],
                    jr_headers = []\<rparr>)))), s'))"

end
