(* ===== verification/ProxyApp.thy ===== *)
theory ProxyApp
  imports ProxyRouter
begin

section \<open>The proxy assembled\<close>

text \<open>
  The handlers of \<open>ProxyRouter\<close> over the services of this development: authentication on the key
  ledger, the resolver over configured rules and routes, the policy and quota engines, the
  in-memory rate limiter, the audit logger writing to two event lists. Bedrock is an argument: what
  it answers to a request, or the class of the exception it raises. The state records the
  requests sent to it, so the properties say when it is called.
\<close>

record ProxyState =
  px_world :: World
  px_windows :: windows
  px_usage_events :: "UsageEventRecord list"
  px_audit_events :: "AuditEventRecord list"
  px_bedrock_calls :: "ConverseRequest list"
  px_count_calls :: "ConverseRequest list"
  px_next_event :: nat

record ProxyConfig =
  pc_alias_rules :: "ModelAliasRuleRecord list"
  pc_routes :: "ModelRouteRecord list"
  pc_requests_per_minute :: int
  pc_pricing :: "(string \<Rightarrow> string + ModelPricingRecord option) option"
  pc_converse :: "ConverseRequest \<Rightarrow> string + json"
  pc_converse_stream :: "ConverseRequest \<Rightarrow> string + raw_stream"
  pc_count_tokens :: "ConverseRequest \<Rightarrow> string + json"
  pc_event_id :: "nat \<Rightarrow> string"

text \<open>An outside failure is an exception known by its class name.\<close>

definition outside :: "string + 'a \<Rightarrow> 'a res" where
  "outside r = (case r of Inl c \<Rightarrow> Inl (PyErr c) | Inr x \<Rightarrow> Inr x)"

definition on_world :: "(World, 'a) op \<Rightarrow> (ProxyState, 'a) op" where
  "on_world m s = (case m (px_world s) of (r, w) \<Rightarrow> (r, s\<lparr>px_world := w\<rparr>))"

definition app_auth :: "ProxyState ProxyAuthService" where
  "app_auth = \<lparr>pa_get_key_by_hash = (\<lambda>h. on_world (pa_get_key_by_hash auth_service h)),
     pa_get_user = (\<lambda>u. on_world (pa_get_user auth_service u))\<rparr>"

definition app_rate_check :: "ProxyConfig \<Rightarrow> datetime \<Rightarrow> string \<Rightarrow> (ProxyState, RateLimitDecision) op" where
  "app_rate_check cfg now user_id s =
     (case rate_check (pc_requests_per_minute cfg) now user_id (px_windows s) of
        (d, w) \<Rightarrow> (Inr d, s\<lparr>px_windows := w\<rparr>))"

definition app_logger :: "ProxyConfig \<Rightarrow> datetime \<Rightarrow> ProxyState AuditLogger" where
  "app_logger cfg now =
     \<lparr>al_record_usage = (\<lambda>e. modifyM (\<lambda>s. s\<lparr>px_usage_events := px_usage_events s @ [e]\<rparr>)),
      al_record_audit = (\<lambda>e. modifyM (\<lambda>s. s\<lparr>px_audit_events := px_audit_events s @ [e]\<rparr>)),
      al_clock = returnM now,
      al_event_id = (\<lambda>s. (Inr (pc_event_id cfg (px_next_event s)),
        s\<lparr>px_next_event := Suc (px_next_event s)\<rparr>))\<rparr>"

definition app_bedrock :: "ProxyConfig \<Rightarrow> ProxyState BedrockClient" where
  "app_bedrock cfg =
     \<lparr>bc_converse = (\<lambda>q s. (outside (pc_converse cfg q), s\<lparr>px_bedrock_calls := px_bedrock_calls s @ [q]\<rparr>)),
      bc_converse_stream = (\<lambda>q s. (outside (pc_converse_stream cfg q),
        s\<lparr>px_bedrock_calls := px_bedrock_calls s @ [q]\<rparr>)),
      bc_count_tokens = (\<lambda>q s. (outside (pc_count_tokens cfg q),
        s\<lparr>px_count_calls := px_count_calls s @ [q]\<rparr>))\<rparr>"

text \<open>The policy engine reads the model only to match it against rules.\<close>

definition model_text :: "json \<Rightarrow> string" where
  "model_text model = (case model of JStr s \<Rightarrow> s | _ \<Rightarrow> [])"

definition proxy_app :: "ProxyConfig \<Rightarrow> datetime \<Rightarrow> ProxyState AppDependencies" where
  "proxy_app cfg now =
     \<lparr>ad_auth_service = Some app_auth,
      ad_model_resolver = Some (\<lambda>m. liftR (resolve (pc_alias_rules cfg) (pc_routes cfg) m)),
      ad_policy_engine = Some (\<lambda>u m ps. liftR (evaluate_policies u (model_text m) ps)),
      ad_quota_engine = Some (\<lambda>bs cur req mid tok. liftR (quota_evaluate
        (map_option (\<lambda>f m. outside (f m)) (pc_pricing cfg)) bs cur req mid tok)),
      ad_rate_limiter = Some (app_rate_check cfg now),
      ad_bedrock_client = Some (app_bedrock cfg),
      ad_audit_logger = Some (app_logger cfg now)\<rparr>"

subsection \<open>Its parts at work\<close>

lemma app_authenticate:
  "authenticate app_auth header rid s =
     (case authenticate auth_service header rid (px_world s) of (r, w) \<Rightarrow> (r, s\<lparr>px_world := w\<rparr>))"
  by (auto simp: authenticate_def app_auth_def bindM_def on_world_def raiseM_def returnM_def liftR_def
      split: sum.splits option.splits prod.splits)

text \<open>With no policies, the decision depends on the user's standing only.\<close>

lemma collect_no_policies: "snd (collect_policies_by_scope u []) = []"
proof -
  have "snd (collect_scope [] c) = []" for c by (auto simp: collect_scope_def split: prod.splits)
  then show ?thesis by (simp add: collect_policies_by_scope_def Let_def)
qed

lemma evaluate_no_policies:
  "\<exists>d. evaluate_policies u m [] = Inr d \<and> pd_allowed d = (ur_is_active u \<and> ur_proxy_access_enabled u) \<and>
     pd_denial_reason d = (if \<not> ur_is_active u then Some DENIAL_USER_INACTIVE
       else if \<not> ur_proxy_access_enabled u then Some DENIAL_PROXY_ACCESS_DISABLED else None)"
proof -
  obtain scopes where "collect_policies_by_scope u [] = (scopes, [])"
    using collect_no_policies [of u] by (metis prod.collapse)
  then show ?thesis
    by (simp add: evaluate_policies_def resolve_effective_max_output_tokens_def Let_def)
qed

lemma snapshot_without_tokens: "build_usage_snapshot pricing None = Inr None"
  by (cases pricing) (simp_all add: build_usage_snapshot_def)

lemma quota_without_budgets:
  "quota_evaluate repo [] (Fin 0) None mid None =
     bindR (get_active_pricing repo mid) (\<lambda>_. Inr
       \<lparr>qd_allowed = True, qd_denial_reason = None, qd_effective_policy = None,
        qd_soft_limit_reached = False, qd_hard_limit_reached = False,
        qd_projected_usage = f_add (Fin 0) (Fin 0), qd_usage_snapshot = None\<rparr>)"
  by (simp add: quota_evaluate_def select_effective_policy_def snapshot_without_tokens
      resolve_requested_usage_def)

text \<open>What a step adds to the state.\<close>

definition adds ::
    "ProxyState \<Rightarrow> UsageEventRecord list \<Rightarrow> AuditEventRecord list \<Rightarrow> ConverseRequest list \<Rightarrow> ProxyState \<Rightarrow> bool" where
  "adds s us as cs s' \<longleftrightarrow> px_usage_events s' = px_usage_events s @ us \<and>
     px_audit_events s' = px_audit_events s @ as \<and> px_bedrock_calls s' = px_bedrock_calls s @ cs \<and>
     px_world s' = px_world s \<and> px_count_calls s' = px_count_calls s"

lemma adds_none [simp]: "adds s [] [] [] s"
  by (simp add: adds_def)

lemma adds_windows [simp]: "adds (s\<lparr>px_windows := w\<rparr>) us as cs s' \<longleftrightarrow> adds s us as cs s'"
  by (simp add: adds_def)

definition is_denial :: "AuditEventRecord \<Rightarrow> string \<Rightarrow> string \<Rightarrow> string option \<Rightarrow> bool" where
  "is_denial ev rid reason actor \<longleftrightarrow> ae_decision ev = AUDIT_DECISION_DENIED \<and> ae_request_id ev = rid \<and>
     ae_denial_reason ev = Some reason \<and> ae_event_type ev = denial_reason_to_event_type reason \<and>
     ae_actor_user_id ev = actor"

lemma app_record_denial:
  assumes "a = None \<and> actor = None \<or> (\<exists>c u. a = Some c \<and> ac_user c = Inr u \<and> actor = Some (uc_user_id u))"
  shows "\<exists>ev s'. record_denial (app_logger cfg now) rid reason a m rm pd s = (Inr (), s') \<and>
    adds s [] [ev] [] s' \<and> px_windows s' = px_windows s \<and> is_denial ev rid reason actor"
  using assms by (auto simp: record_denial_def app_logger_def adds_def is_denial_def)

lemma app_deny:
  assumes "ac_user a = Inr u"
  shows "\<exists>ev s'. deny (proxy_app cfg now) rid reason a m rm pd err s =
      (Inr (Json (service_error_response err)), s') \<and>
    adds s [] [ev] [] s' \<and> px_windows s' = px_windows s \<and> is_denial ev rid reason (Some (uc_user_id u))"
proof -
  obtain ev s' where "record_denial (app_logger cfg now) rid reason (Some a) m
      (rm_bedrock_model_id rm) (Some pd) s = (Inr (), s')"
    "adds s [] [ev] [] s' \<and> px_windows s' = px_windows s \<and> is_denial ev rid reason (Some (uc_user_id u))"
    using app_record_denial [of "Some a" "Some (uc_user_id u)"] assms by blast
  then show ?thesis by (auto simp: deny_def proxy_app_def error_response_ServiceErr)
qed

text \<open>A success is recorded once in each list, for the user and with the usage of the response.\<close>

definition is_success ::
    "UsageEventRecord \<Rightarrow> AuditEventRecord \<Rightarrow> string \<Rightarrow> string \<Rightarrow> (string, json) pydict \<Rightarrow> bool" where
  "is_success ue ae rid uid usage \<longleftrightarrow> ue_request_id ue = rid \<and> ue_user_id ue = uid \<and>
     map_of usage ''input_tokens'' = Some (JInt (ue_input_tokens ue)) \<and>
     map_of usage ''output_tokens'' = Some (JInt (ue_output_tokens ue)) \<and>
     map_of usage ''total_tokens'' = Some (JInt (ue_total_tokens ue)) \<and>
     ae_request_id ae = rid \<and> ae_actor_user_id ae = Some uid \<and> ae_decision ae = AUDIT_DECISION_ALLOWED"

lemma app_record_success:
  assumes "usage_ok usage" and "ac_user a = Inr u"
  shows "\<exists>ue ae s'. record_success (app_logger cfg now) a rid m rm pd usage snap lat s = (Inr (), s') \<and>
    adds s [ue] [ae] [] s' \<and> px_windows s' = px_windows s \<and> is_success ue ae rid (uc_user_id u) usage"
proof -
  obtain ue where "usage_event_of (pc_event_id cfg (px_next_event s)) a rid m rm usage snap lat now = Inr ue"
    "ue_request_id ue = rid" "ue_user_id ue = uc_user_id u"
    "map_of usage ''input_tokens'' = Some (JInt (ue_input_tokens ue))"
    "map_of usage ''output_tokens'' = Some (JInt (ue_output_tokens ue))"
    "map_of usage ''total_tokens'' = Some (JInt (ue_total_tokens ue))"
    using usage_event_total [OF assms] by metis
  then show ?thesis
    using assms(2) by (auto simp: record_success_def app_logger_def adds_def is_success_def)
qed

lemma adds_trans: "adds s us as cs s1 \<Longrightarrow> adds s1 us' as' cs' s2 \<Longrightarrow> adds s (us @ us') (as @ as') (cs @ cs') s2"
  by (simp add: adds_def)

lemma adds_call [simp]: "adds s [] [] [q] (s\<lparr>px_bedrock_calls := px_bedrock_calls s @ [q]\<rparr>)"
  by (simp add: adds_def)

text \<open>The job of a streaming response.\<close>

definition stream_job ::
    "string \<Rightarrow> AuthenticatedRequestContext \<Rightarrow> json \<Rightarrow> ResolvedModel \<Rightarrow> PolicyDecision \<Rightarrow> QuotaDecision \<Rightarrow> raw_stream \<Rightarrow>
     StreamJob" where
  "stream_job rid a m rm pd qd raw =
     \<lparr>sj_events = raw, sj_decoder = new_decoder m, sj_authenticated = a, sj_request_id = rid,
      sj_requested_model = m, sj_resolved_model = rm_bedrock_model_id rm, sj_policy_decision = pd,
      sj_usage_snapshot = qd_usage_snapshot qd\<rparr>"

lemma call_bedrock_stream:
  assumes "cr_operation q = ''converse_stream''"
  shows "call_bedrock (proxy_app cfg now) rid lat a m rm pd qd q s =
    (bindR (outside (pc_converse_stream cfg q)) (\<lambda>raw. Inr (Streaming (stream_job rid a m rm pd qd raw))),
     s\<lparr>px_bedrock_calls := px_bedrock_calls s @ [q]\<rparr>)"
  using assms by (cases "pc_converse_stream cfg q")
    (simp_all add: call_bedrock_def proxy_app_def dependency_def app_bedrock_def outside_def stream_job_def
      bindM_def)

lemma call_bedrock_failed:
  assumes "cr_operation q \<noteq> ''converse_stream''"
    and "bindR (outside (pc_converse cfg q)) (\<lambda>raw. parse_converse_response raw m) = Inl e"
  shows "call_bedrock (proxy_app cfg now) rid lat a m rm pd qd q s =
    (Inl e, s\<lparr>px_bedrock_calls := px_bedrock_calls s @ [q]\<rparr>)"
  using assms by (cases "pc_converse cfg q")
    (simp_all add: call_bedrock_def proxy_app_def dependency_def app_bedrock_def outside_def bindM_def)

lemma call_bedrock_answered:
  assumes "cr_operation q \<noteq> ''converse_stream''" and "ac_user a = Inr u"
    and "bindR (outside (pc_converse cfg q)) (\<lambda>raw. parse_converse_response raw m) = Inr parsed"
  shows "\<exists>ue ae usage s'. call_bedrock (proxy_app cfg now) rid lat a m rm pd qd q s =
      (Inr (Json \<lparr>jr_status_code = 200, jr_content = parsed, jr_headers = []\<rparr>), s') \<and>
    adds s [ue] [ae] [q] s' \<and> px_windows s' = px_windows s \<and>
    map_of parsed ''usage'' = Some (JObj usage) \<and> is_success ue ae rid (uc_user_id u) usage"
proof -
  obtain raw where raw: "pc_converse cfg q = Inr raw" "parse_converse_response raw m = Inr parsed"
    using assms(3) by (cases "pc_converse cfg q") (simp_all add: outside_def)
  obtain usage where usage: "map_of parsed ''usage'' = Some (JObj usage)" "usage_ok usage"
    using parse_converse_response_fields [OF raw(2)] by blast
  let ?s = "s\<lparr>px_bedrock_calls := px_bedrock_calls s @ [q]\<rparr>"
  obtain ue ae s' where s': "record_success (app_logger cfg now) a rid m (rm_bedrock_model_id rm) pd usage
      (qd_usage_snapshot qd) (Some lat) ?s = (Inr (), s')" "adds ?s [ue] [ae] [] s'"
    "px_windows s' = px_windows ?s" "is_success ue ae rid (uc_user_id u) usage"
    using app_record_success [OF usage(2) assms(2)] by blast
  show ?thesis
    using assms(1) raw usage(1) s' adds_trans [OF adds_call s'(2)]
    by (auto simp: call_bedrock_def proxy_app_def dependency_def app_bedrock_def outside_def request_of_def)
qed

subsection \<open>What a request to \<open>/v1/messages\<close> can lead to\<close>

text \<open>
  The abstract specification of the handler: the ways a request ends, each with what is answered
  and what is added to the state. Only the rules from \<open>limited\<close> on touch the rate limiter, and
  only the last three call Bedrock.
\<close>

definition request_model :: "ProxyConfig \<Rightarrow> json \<Rightarrow> (json \<times> ResolvedModel) res" where
  "request_model cfg body =
     bindR (py_getitem body ''model'') (\<lambda>m.
     bindR (resolve (pc_alias_rules cfg) (pc_routes cfg) m) (\<lambda>rm. Inr (m, rm)))"

definition active_pricing :: "ProxyConfig \<Rightarrow> ResolvedModel \<Rightarrow> ModelPricingRecord option res" where
  "active_pricing cfg rm =
     get_active_pricing (map_option (\<lambda>f m. outside (f m)) (pc_pricing cfg)) (rm_bedrock_model_id rm)"

definition authenticated_as :: "string option \<Rightarrow> string \<Rightarrow> World \<Rightarrow> AuthenticatedRequestContext \<Rightarrow> bool" where
  "authenticated_as header rid w a \<longleftrightarrow> authenticate auth_service header rid w = (Inr a, w)"

definition in_good_standing :: "AuthenticatedRequestContext \<Rightarrow> bool" where
  "in_good_standing a \<longleftrightarrow> ur_is_active (ac_user_record a) \<and> ur_proxy_access_enabled (ac_user_record a)"

definition caller_id :: "AuthenticatedRequestContext \<Rightarrow> string" where
  "caller_id a = ur_id (ac_user_record a)"

definition rate_decision :: "ProxyConfig \<Rightarrow> datetime \<Rightarrow> AuthenticatedRequestContext \<Rightarrow> ProxyState \<Rightarrow>
    RateLimitDecision \<times> windows" where
  "rate_decision cfg now a s = rate_check (pc_requests_per_minute cfg) now (caller_id a) (px_windows s)"

definition admitted :: "ProxyConfig \<Rightarrow> datetime \<Rightarrow> string \<Rightarrow> json \<Rightarrow> string option \<Rightarrow> ProxyState \<Rightarrow>
    AuthenticatedRequestContext \<Rightarrow> json \<Rightarrow> ResolvedModel \<Rightarrow> bool" where
  "admitted cfg now rid body header s a m rm \<longleftrightarrow> authenticated_as header rid (px_world s) a \<and>
     request_model cfg body = Inr (m, rm) \<and> in_good_standing a \<and>
     (\<exists>p. active_pricing cfg rm = Inr p) \<and> rl_allowed (fst (rate_decision cfg now a s))"

inductive message_outcome :: "ProxyConfig \<Rightarrow> datetime \<Rightarrow> string \<Rightarrow> json \<Rightarrow> string option \<Rightarrow> ProxyState \<Rightarrow>
    ProxyResponse \<Rightarrow> ProxyState \<Rightarrow> bool" for cfg now rid body header s where
  unauthenticated: "authenticate auth_service header rid (px_world s) = (Inl err, px_world s) \<Longrightarrow>
    adds s [] [ev] [] s' \<Longrightarrow> px_windows s' = px_windows s \<Longrightarrow>
    is_denial ev rid DENIAL_REASON_AUTHENTICATION_FAILED None \<Longrightarrow>
    message_outcome cfg now rid body header s (Json (error_response_for_exception err rid)) s'"
| unresolved: "authenticated_as header rid (px_world s) a \<Longrightarrow> request_model cfg body = Inl err \<Longrightarrow>
    message_outcome cfg now rid body header s (Json (error_response_for_exception err rid)) s"
| denied: "authenticated_as header rid (px_world s) a \<Longrightarrow> request_model cfg body = Inr (m, rm) \<Longrightarrow>
    \<not> in_good_standing a \<Longrightarrow> adds s [] [ev] [] s' \<Longrightarrow> px_windows s' = px_windows s \<Longrightarrow>
    reason = (if ur_is_active (ac_user_record a) then DENIAL_PROXY_ACCESS_DISABLED else DENIAL_USER_INACTIVE) \<Longrightarrow>
    is_denial ev rid reason (Some (caller_id a)) \<Longrightarrow>
    message_outcome cfg now rid body header s (Json (service_error_response
      (access_denied_error rid (blocked_message ''policy'' (Some reason))))) s'"
| unpriced: "authenticated_as header rid (px_world s) a \<Longrightarrow> request_model cfg body = Inr (m, rm) \<Longrightarrow>
    in_good_standing a \<Longrightarrow> active_pricing cfg rm = Inl err \<Longrightarrow>
    message_outcome cfg now rid body header s (Json (error_response_for_exception err rid)) s"
| limited: "authenticated_as header rid (px_world s) a \<Longrightarrow> request_model cfg body = Inr (m, rm) \<Longrightarrow>
    in_good_standing a \<Longrightarrow> active_pricing cfg rm = Inr p \<Longrightarrow>
    rate_decision cfg now a s = (dec, w) \<Longrightarrow> \<not> rl_allowed dec \<Longrightarrow>
    adds s [] [ev] [] s' \<Longrightarrow> px_windows s' = w \<Longrightarrow>
    is_denial ev rid DENIAL_REASON_RATE_LIMITED (Some (caller_id a)) \<Longrightarrow>
    message_outcome cfg now rid body header s (Json (service_error_response
      (rate_limit_exceeded_error rid (retry_headers dec)))) s'"
| unbuildable: "admitted cfg now rid body header s a m rm \<Longrightarrow> body = JObj d \<Longrightarrow>
    build_converse_request d rm = Inl err \<Longrightarrow> adds s [] [] [] s' \<Longrightarrow>
    px_windows s' = snd (rate_decision cfg now a s) \<Longrightarrow>
    message_outcome cfg now rid body header s (Json (error_response_for_exception err rid)) s'"
| upstream: "admitted cfg now rid body header s a m rm \<Longrightarrow> body = JObj d \<Longrightarrow>
    build_converse_request d rm = Inr q \<Longrightarrow>
    (if cr_operation q = ''converse_stream'' then outside (pc_converse_stream cfg q) = Inl err
     else bindR (outside (pc_converse cfg q)) (\<lambda>raw. parse_converse_response raw m) = Inl err) \<Longrightarrow>
    adds s [] [] [q] s' \<Longrightarrow> px_windows s' = snd (rate_decision cfg now a s) \<Longrightarrow>
    message_outcome cfg now rid body header s (Json (error_response_for_exception err rid)) s'"
| answered: "admitted cfg now rid body header s a m rm \<Longrightarrow> body = JObj d \<Longrightarrow>
    build_converse_request d rm = Inr q \<Longrightarrow> cr_operation q \<noteq> ''converse_stream'' \<Longrightarrow>
    pc_converse cfg q = Inr raw \<Longrightarrow> parse_converse_response raw m = Inr parsed \<Longrightarrow>
    adds s [ue] [ae] [q] s' \<Longrightarrow> px_windows s' = snd (rate_decision cfg now a s) \<Longrightarrow>
    map_of parsed ''usage'' = Some (JObj usage) \<Longrightarrow> is_success ue ae rid (caller_id a) usage \<Longrightarrow>
    message_outcome cfg now rid body header s
      (Json \<lparr>jr_status_code = 200, jr_content = parsed, jr_headers = []\<rparr>) s'"
| streaming: "admitted cfg now rid body header s a m rm \<Longrightarrow> body = JObj d \<Longrightarrow>
    build_converse_request d rm = Inr q \<Longrightarrow> cr_operation q = ''converse_stream'' \<Longrightarrow>
    pc_converse_stream cfg q = Inr raw \<Longrightarrow> adds s [] [] [q] s' \<Longrightarrow>
    px_windows s' = snd (rate_decision cfg now a s) \<Longrightarrow>
    message_outcome cfg now rid body header s (Streaming (stream_job rid a m rm pd qd raw)) s'"

subsection \<open>The handler meets its specification\<close>

lemma authenticate_context:
  assumes "authenticate auth_service header rid w = (Inr a, w')"
  shows "\<exists>uc. ac_user a = Inr uc \<and> uc_user_id uc = caller_id a"
proof -
  have "\<exists>u k h p. a = restore_trusted_request_context rid u k h p"
    using assms unfolding authenticate_def bindM_Inr
    by (elim exE conjE) (auto simp: bindM_Inr split: option.split_asm if_split_asm, blast)
  then show ?thesis by (auto simp: restore_trusted_request_context_def ac_user_def caller_id_def)
qed

lemma admit_limited:
  assumes "ac_user a = Inr uc" and "uc_user_id uc = caller_id a"
    and "rate_decision cfg now a s = (dec, w)" and "\<not> rl_allowed dec"
  shows "\<exists>ev s'. admit (proxy_app cfg now) rid lat body a m rm pd qd s =
      (Inr (Json (service_error_response (rate_limit_exceeded_error rid (retry_headers dec)))), s') \<and>
    adds s [] [ev] [] s' \<and> px_windows s' = w \<and> is_denial ev rid DENIAL_REASON_RATE_LIMITED (Some (caller_id a))"
proof -
  obtain ev s' where "deny (proxy_app cfg now) rid DENIAL_REASON_RATE_LIMITED a m rm pd
      (rate_limit_exceeded_error rid (retry_headers dec)) (s\<lparr>px_windows := w\<rparr>) =
      (Inr (Json (service_error_response (rate_limit_exceeded_error rid (retry_headers dec)))), s')"
    "adds (s\<lparr>px_windows := w\<rparr>) [] [ev] [] s'" "px_windows s' = w"
    "is_denial ev rid DENIAL_REASON_RATE_LIMITED (Some (caller_id a))"
    using app_deny [OF assms(1)] assms(2) by fastforce
  then show ?thesis
    using assms by (auto simp: admit_def proxy_app_def dependency_def app_rate_check_def rate_decision_def)
qed

lemma admit_allowed:
  assumes "ac_user a = Inr uc" and "uc_user_id uc = caller_id a"
    and "rate_decision cfg now a s = (dec, w)" and "rl_allowed dec"
  shows "admit (proxy_app cfg now) rid lat (JObj d) a m rm pd qd s =
    bindM (liftR (build_converse_request d rm))
      (call_bedrock (proxy_app cfg now) rid lat a m rm pd qd) (s\<lparr>px_windows := w\<rparr>)"
  using assms by (simp add: admit_def proxy_app_def dependency_def app_rate_check_def rate_decision_def
      request_of_def)

lemma serve_unresolved:
  assumes "request_model cfg body = Inl err"
  shows "serve (proxy_app cfg now) rid lat body a s = (Inl err, s)"
  using assms by (cases "py_getitem body ''model''")
    (auto simp: serve_def proxy_app_def dependency_def request_model_def bindR_eq_Inl)

lemma serve_denied:
  assumes "request_model cfg body = Inr (m, rm)" and "\<not> in_good_standing a"
    and "ac_user a = Inr uc" and "uc_user_id uc = caller_id a"
    and reason: "reason = (if ur_is_active (ac_user_record a) then DENIAL_PROXY_ACCESS_DISABLED else DENIAL_USER_INACTIVE)"
  shows "\<exists>ev s'. serve (proxy_app cfg now) rid lat body a s =
      (Inr (Json (service_error_response (access_denied_error rid (blocked_message ''policy'' (Some reason))))), s') \<and>
    adds s [] [ev] [] s' \<and> px_windows s' = px_windows s \<and> is_denial ev rid reason (Some (caller_id a))"
proof -
  have m: "py_getitem body ''model'' = Inr m" "resolve (pc_alias_rules cfg) (pc_routes cfg) m = Inr rm"
    using assms(1) by (auto simp: request_model_def bindR_eq_Inr)
  obtain pd where pd: "evaluate_policies (ac_user_record a) (model_text m) [] = Inr pd" "\<not> pd_allowed pd"
    "pd_denial_reason pd = Some reason"
    using evaluate_no_policies [of "ac_user_record a" "model_text m"] assms(2) reason
    by (auto simp: in_good_standing_def split: if_splits)
  have "or_default (Some reason) ''policy_denied'' = reason"
    by (simp add: reason or_default_def DENIAL_PROXY_ACCESS_DISABLED_def DENIAL_USER_INACTIVE_def)
  then show ?thesis
    using app_deny [OF assms(3), of cfg now rid reason m rm pd
        "access_denied_error rid (blocked_message ''policy'' (Some reason))" s] m pd assms(4)
    by (auto simp: serve_def proxy_app_def dependency_def)
qed

lemma serve_good_standing:
  assumes "request_model cfg body = Inr (m, rm)" and "in_good_standing a"
  shows "\<exists>pd qd. serve (proxy_app cfg now) rid lat body a s =
    (case active_pricing cfg rm of Inl err \<Rightarrow> (Inl err, s)
     | Inr p \<Rightarrow> admit (proxy_app cfg now) rid lat body a m rm pd qd s)"
proof -
  have m: "py_getitem body ''model'' = Inr m" "resolve (pc_alias_rules cfg) (pc_routes cfg) m = Inr rm"
    using assms(1) by (auto simp: request_model_def bindR_eq_Inr)
  obtain pd where pd: "evaluate_policies (ac_user_record a) (model_text m) [] = Inr pd" "pd_allowed pd"
    using evaluate_no_policies [of "ac_user_record a" "model_text m"] assms(2)
    by (auto simp: in_good_standing_def)
  show ?thesis
  proof (cases "active_pricing cfg rm")
    case (Inl err)
    then show ?thesis using m pd
      by (simp add: serve_def proxy_app_def dependency_def quota_without_budgets active_pricing_def)
  next
    case (Inr p)
    let ?qd = "\<lparr>qd_allowed = True, qd_denial_reason = None, qd_effective_policy = None,
        qd_soft_limit_reached = False, qd_hard_limit_reached = False,
        qd_projected_usage = f_add (Fin 0) (Fin 0), qd_usage_snapshot = None\<rparr>"
    have "serve (proxy_app cfg now) rid lat body a s =
        admit (proxy_app cfg now) rid lat body a m rm pd ?qd s"
      using m pd Inr
      by (simp add: serve_def proxy_app_def dependency_def quota_without_budgets active_pricing_def)
    then show ?thesis using Inr by auto
  qed
qed

text \<open>How an exception of the second \<open>try\<close> block is answered.\<close>

definition answering :: "string \<Rightarrow> (ProxyState, ProxyResponse) op \<Rightarrow> (ProxyState, ProxyResponse) op" where
  "answering rid m = catchM m (\<lambda>err. returnM (Json (error_response_for_exception err rid)))"

lemma answering_run:
  "m s = (Inl e, s') \<Longrightarrow> answering rid m s = (Inr (Json (error_response_for_exception e rid)), s')"
  "m s = (Inr x, s') \<Longrightarrow> answering rid m s = (Inr x, s')"
  by (simp_all add: answering_def)

lemma call_outcome:
  assumes adm: "admitted cfg now rid (JObj d) header s a m rm"
    and u: "ac_user a = Inr uc" "uc_user_id uc = caller_id a"
    and q: "build_converse_request d rm = Inr q"
  shows "\<exists>resp s'. answering rid (call_bedrock (proxy_app cfg now) rid lat a m rm pd qd q)
      (s\<lparr>px_windows := snd (rate_decision cfg now a s)\<rparr>) = (Inr resp, s') \<and>
    message_outcome cfg now rid (JObj d) header s resp s'"
proof -
  let ?s = "s\<lparr>px_windows := snd (rate_decision cfg now a s)\<rparr>"
  let ?s' = "?s\<lparr>px_bedrock_calls := px_bedrock_calls ?s @ [q]\<rparr>"
  have ad: "adds s [] [] [q] ?s'" by (simp add: adds_def)
  have w: "px_windows ?s' = snd (rate_decision cfg now a s)" by simp
  show ?thesis
  proof (cases "cr_operation q = ''converse_stream''")
    case True
    note run = call_bedrock_stream [OF True, of cfg now rid lat a m rm pd qd ?s]
    show ?thesis
    proof (cases "outside (pc_converse_stream cfg q)")
      case (Inl err)
      have "message_outcome cfg now rid (JObj d) header s (Json (error_response_for_exception err rid)) ?s'"
        by (rule message_outcome.upstream [OF adm refl q _ ad w]) (simp add: True Inl)
      then show ?thesis using answering_run(1) run Inl by fastforce
    next
      case (Inr raw)
      then have "pc_converse_stream cfg q = Inr raw"
        by (simp add: outside_def split: sum.splits)
      from message_outcome.streaming [OF adm refl q True this ad w]
      show ?thesis using answering_run(2) run Inr by fastforce
    qed
  next
    case False
    show ?thesis
    proof (cases "bindR (outside (pc_converse cfg q)) (\<lambda>raw. parse_converse_response raw m)")
      case (Inl err)
      have "message_outcome cfg now rid (JObj d) header s (Json (error_response_for_exception err rid)) ?s'"
        by (rule message_outcome.upstream [OF adm refl q _ ad w]) (simp add: False Inl)
      then show ?thesis using answering_run(1) call_bedrock_failed [OF False Inl] by fastforce
    next
      case (Inr parsed)
      then obtain raw where raw: "pc_converse cfg q = Inr raw" "parse_converse_response raw m = Inr parsed"
        by (cases "pc_converse cfg q") (simp_all add: outside_def)
      obtain ue ae usage s' where
        run: "call_bedrock (proxy_app cfg now) rid lat a m rm pd qd q ?s =
          (Inr (Json \<lparr>jr_status_code = 200, jr_content = parsed, jr_headers = []\<rparr>), s')"
        and s': "adds s [ue] [ae] [q] s'" "px_windows s' = snd (rate_decision cfg now a s)"
          "map_of parsed ''usage'' = Some (JObj usage)" "is_success ue ae rid (caller_id a) usage"
        using call_bedrock_answered [OF False u(1) Inr, of now rid lat rm pd qd ?s] u(2) by auto
      from message_outcome.answered [OF adm refl q False raw s']
      show ?thesis using answering_run(2) [where m = "call_bedrock (proxy_app cfg now) rid lat a m rm pd qd q", OF run]
        by blast
    qed
  qed
qed

lemma serve_outcome:
  assumes au: "authenticated_as header rid (px_world s) a"
  shows "\<exists>resp s'. answering rid (serve (proxy_app cfg now) rid lat (JObj d) a) s = (Inr resp, s') \<and>
    message_outcome cfg now rid (JObj d) header s resp s'"
proof -
  obtain uc where u: "ac_user a = Inr uc" "uc_user_id uc = caller_id a"
    using authenticate_context au unfolding authenticated_as_def by blast
  show ?thesis
  proof (cases "request_model cfg (JObj d)")
    case (Inl err)
    from message_outcome.unresolved [OF au Inl] show ?thesis
      using serve_unresolved [OF Inl] by (auto simp: answering_run)
  next
    case (Inr p)
    obtain m rm where p: "p = (m, rm)" by force
    note mrm = Inr [unfolded p]
    show ?thesis
    proof (cases "in_good_standing a")
      case False
      define reason where "reason = (if ur_is_active (ac_user_record a)
        then DENIAL_PROXY_ACCESS_DISABLED else DENIAL_USER_INACTIVE)"
      obtain ev s' where run: "serve (proxy_app cfg now) rid lat (JObj d) a s = (Inr (Json
          (service_error_response (access_denied_error rid (blocked_message ''policy'' (Some reason))))), s')"
        and s': "adds s [] [ev] [] s'" "px_windows s' = px_windows s"
          "is_denial ev rid reason (Some (caller_id a))"
        using serve_denied [OF mrm False u reason_def] by blast
      from message_outcome.denied [OF au mrm False s'(1,2) reason_def s'(3)] show ?thesis
        using answering_run(2) [where m = "serve (proxy_app cfg now) rid lat (JObj d) a", OF run] by blast
    next
      case True
      obtain pd qd where sv: "serve (proxy_app cfg now) rid lat (JObj d) a s =
          (case active_pricing cfg rm of Inl err \<Rightarrow> (Inl err, s)
           | Inr p \<Rightarrow> admit (proxy_app cfg now) rid lat (JObj d) a m rm pd qd s)"
        using serve_good_standing [OF mrm True] by blast
      show ?thesis
      proof (cases "active_pricing cfg rm")
        case (Inl err)
        from message_outcome.unpriced [OF au mrm True Inl]
          answering_run(1) [of "serve (proxy_app cfg now) rid lat (JObj d) a" s err s rid]
        show ?thesis using sv Inl by auto
      next
        case (Inr pr)
        obtain dec w where dec: "rate_decision cfg now a s = (dec, w)" by force
        show ?thesis
        proof (cases "rl_allowed dec")
          case False
          obtain ev s' where run: "admit (proxy_app cfg now) rid lat (JObj d) a m rm pd qd s = (Inr (Json
              (service_error_response (rate_limit_exceeded_error rid (retry_headers dec)))), s')"
            and s': "adds s [] [ev] [] s'" "px_windows s' = w"
              "is_denial ev rid DENIAL_REASON_RATE_LIMITED (Some (caller_id a))"
            using admit_limited [OF u dec False] by blast
          have "answering rid (serve (proxy_app cfg now) rid lat (JObj d) a) s = (Inr (Json
              (service_error_response (rate_limit_exceeded_error rid (retry_headers dec)))), s')"
            using answering_run(2) sv Inr run by simp
          with message_outcome.limited [OF au mrm True Inr dec False s'] show ?thesis by blast
        next
          case al: True
          have adm: "admitted cfg now rid (JObj d) header s a m rm"
            using au mrm True Inr dec al by (simp add: admitted_def)
          let ?s = "s\<lparr>px_windows := snd (rate_decision cfg now a s)\<rparr>"
          have sv': "serve (proxy_app cfg now) rid lat (JObj d) a s =
              bindM (liftR (build_converse_request d rm))
                (call_bedrock (proxy_app cfg now) rid lat a m rm pd qd) ?s"
            using sv Inr admit_allowed [OF u dec al] dec by simp
          show ?thesis
          proof (cases "build_converse_request d rm")
            case (Inl err)
            from message_outcome.unbuildable [OF adm refl Inl, of ?s]
            show ?thesis using answering_run(1) sv' Inl by (fastforce simp: adds_def)
          next
            case (Inr q)
            then have "serve (proxy_app cfg now) rid lat (JObj d) a s =
                call_bedrock (proxy_app cfg now) rid lat a m rm pd qd q ?s"
              using sv' by simp
            then have "answering rid (serve (proxy_app cfg now) rid lat (JObj d) a) s =
                answering rid (call_bedrock (proxy_app cfg now) rid lat a m rm pd qd q) ?s"
              by (simp add: answering_def catchM_def)
            then show ?thesis using call_outcome [OF adm u Inr] by simp
          qed
        qed
      qed
    qed
  qed
qed

lemma app_authenticate_request:
  assumes "authenticate auth_service header rid (px_world s) = (r, px_world s)"
  shows "authenticate_request (proxy_app cfg now) header rid s = (r, s)"
  using assms by (simp add: authenticate_request_def proxy_app_def dependency_def app_authenticate)

lemma message_outcome_run:
  assumes "world_ok (px_world s)"
  shows "\<exists>resp s'. create_message (proxy_app cfg now) rid lat (JObj d) header s = (Inr resp, s') \<and>
    message_outcome cfg now rid (JObj d) header s resp s'"
proof -
  obtain r where r: "authenticate auth_service header rid (px_world s) = (r, px_world s)"
    using world_auth.always_answers [OF assms] by blast
  show ?thesis
  proof (cases r)
    case (Inl err)
    obtain ev s' where run: "record_denial (app_logger cfg now) rid DENIAL_REASON_AUTHENTICATION_FAILED None
        (dget d ''model'' JNull) None None s = (Inr (), s')"
      and s': "adds s [] [ev] [] s'" "px_windows s' = px_windows s"
        "is_denial ev rid DENIAL_REASON_AUTHENTICATION_FAILED None"
      using app_record_denial [of None None] by blast
    from message_outcome.unauthenticated [OF r [unfolded Inl] s'] show ?thesis
      using app_authenticate_request [OF r] run
      by (auto simp: create_message_def Inl refuse_def proxy_app_def)
  next
    case (Inr a)
    then have "authenticated_as header rid (px_world s) a" using r by (simp add: authenticated_as_def)
    from serve_outcome [OF this] show ?thesis
      using app_authenticate_request [OF r] by (simp add: create_message_def Inr answering_def)
  qed
qed

text \<open>A body that is not an object changes nothing; without authentication the handler raises.\<close>

lemma message_not_an_object:
  assumes "world_ok (px_world s)" and "\<not> is_mapping body"
  shows "create_message (proxy_app cfg now) rid lat body header s =
    (case fst (authenticate auth_service header rid (px_world s)) of
       Inl err \<Rightarrow> Inl attribute_error
     | Inr a \<Rightarrow> Inr (Json (error_response_for_exception type_error rid)), s)"
proof -
  obtain r where r: "authenticate auth_service header rid (px_world s) = (r, px_world s)"
    using world_auth.always_answers [OF assms(1)] by blast
  have g: "py_get body ''model'' JNull = Inl attribute_error" using assms(2) by (cases body) simp_all
  have "request_model cfg body = Inl type_error"
    using assms(2) by (cases body) (simp_all add: request_model_def)
  from serve_unresolved [OF this] show ?thesis
    using app_authenticate_request [OF r] r g
    by (cases r) (simp_all add: create_message_def refuse_def proxy_app_def)
qed

lemma answered_with_error:
  assumes "is_py_err e \<or> (\<exists>q r m. e = ResolutionErr q r m) \<or> (\<exists>r m. e = BuildErr r m)"
  shows "jr_status_code (error_response_for_exception e rid) \<in> {400, 502}"
  using assms by (cases e) (auto simp: error_response_status)

lemma request_model_err:
  "request_model cfg body = Inl e \<Longrightarrow> jr_status_code (error_response_for_exception e rid) \<in> {400, 502}"
  by (rule answered_with_error)
    (auto simp: request_model_def bindR_eq_Inl dest: py_getitem_err resolve_err)

lemma active_pricing_err:
  "active_pricing cfg rm = Inl e \<Longrightarrow> jr_status_code (error_response_for_exception e rid) \<in> {400, 502}"
  by (rule answered_with_error)
    (auto simp: active_pricing_def get_active_pricing_def outside_def split: option.split_asm sum.split_asm)

lemma build_err:
  "build_converse_request d rm = Inl e \<Longrightarrow> jr_status_code (error_response_for_exception e rid) \<in> {400, 502}"
  by (rule answered_with_error) (auto dest: build_converse_request_err simp: builder_error_def)

lemma outside_err: "outside r = Inl e \<Longrightarrow> is_py_err e"
  by (auto simp: outside_def split: sum.split_asm)

lemma bedrock_err:
  assumes "if b then outside r = Inl e else bindR (outside r') (\<lambda>raw. parse_converse_response raw m) = Inl e"
  shows "jr_status_code (error_response_for_exception e rid) \<in> {400, 502}"
  using assms only_py_parse [of _ m]
  by (intro answered_with_error) (auto simp: bindR_eq_Inl only_py_def split: if_split_asm dest: outside_err)

lemma service_error_status: "jr_status_code (service_error_response e) = se_status_code e"
  by (simp add: service_error_response_def anthropic_error_response_def Let_def)

subsection \<open>Properties\<close>

text \<open>
  Property C1: every request to \<open>/v1/messages\<close> with an object body is answered, in one of the ways
  of the specification: authentication, model, policy, pricing, rate limit and payload are
  checked in this order, the first failure decides the answer and what is recorded, and the
  key ledger and the users are never changed.
\<close>

theorem messages_handler_meets_spec:
  assumes "world_ok (px_world s)"
  shows "\<exists>resp s'. create_message (proxy_app cfg now) rid lat (JObj d) header s = (Inr resp, s') \<and>
    message_outcome cfg now rid (JObj d) header s resp s' \<and> px_world s' = px_world s"
proof -
  obtain resp s' where r: "create_message (proxy_app cfg now) rid lat (JObj d) header s = (Inr resp, s')"
    "message_outcome cfg now rid (JObj d) header s resp s'"
    using message_outcome_run [OF assms] by blast
  moreover have "px_world s' = px_world s"
    using r(2) by (cases rule: message_outcome.cases) (auto simp: adds_def)
  ultimately show ?thesis by blast
qed

text \<open>
  A message calls Bedrock only after every check, and then once.
\<close>

lemma message_call_admitted:
  assumes "world_ok (px_world s)"
    and "create_message (proxy_app cfg now) rid lat (JObj d) header s = (r, s')"
    and "px_bedrock_calls s' \<noteq> px_bedrock_calls s"
  shows "\<exists>a m rm q. px_bedrock_calls s' = px_bedrock_calls s @ [q] \<and>
    authenticate auth_service header rid (px_world s) = (Inr a, px_world s) \<and>
    ur_is_active (ac_user_record a) \<and> ur_proxy_access_enabled (ac_user_record a) \<and>
    map_of d ''model'' = Some m \<and> resolve (pc_alias_rules cfg) (pc_routes cfg) m = Inr rm \<and>
    rl_allowed (fst (rate_check (pc_requests_per_minute cfg) now (ur_id (ac_user_record a)) (px_windows s))) \<and>
    build_converse_request d rm = Inr q"
proof -
  obtain resp where "message_outcome cfg now rid (JObj d) header s resp s'"
    using message_outcome_run [OF assms(1), of cfg now rid lat d header] assms(2) by auto
  then obtain a m rm q where "admitted cfg now rid (JObj d) header s a m rm"
    "px_bedrock_calls s' = px_bedrock_calls s @ [q]" "build_converse_request d rm = Inr q"
    using assms(3) by (cases rule: message_outcome.cases) (auto simp: adds_def)
  then show ?thesis
    by (auto simp: admitted_def authenticated_as_def in_good_standing_def rate_decision_def caller_id_def
        request_model_def bindR_eq_Inr split: option.splits)
qed

text \<open>
  What is recorded when no store fails: one usage and one audit event with a 200 answer, one denial
  with a 401, 403 or 429, nothing with any other error, and nothing yet with a stream.
\<close>

lemma message_records:
  assumes "world_ok (px_world s)"
    and "create_message (proxy_app cfg now) rid lat (JObj d) header s = (Inr resp, s')"
  shows "case resp of
      Streaming job \<Rightarrow> \<exists>q. adds s [] [] [q] s'
    | Json j \<Rightarrow>
        if jr_status_code j = 200
        then \<exists>q ue ae uid usage. adds s [ue] [ae] [q] s' \<and> is_success ue ae rid uid usage \<and>
          map_of (jr_content j) ''usage'' = Some (JObj usage)
        else if jr_status_code j \<in> {401, 403, 429}
        then \<exists>ev reason actor. adds s [] [ev] [] s' \<and> is_denial ev rid reason actor
        else jr_status_code j \<in> {400, 502} \<and> (\<exists>cs. adds s [] [] cs s')"
proof -
  have out: "message_outcome cfg now rid (JObj d) header s resp s'"
    using message_outcome_run [OF assms(1), of cfg now rid lat d header] assms(2) by auto
  have st: "jr_status_code (error_response_for_exception err rid) = 401"
    if "authenticate auth_service header rid (px_world s) = (Inl err, px_world s)" for err
    using world_auth.always_answers [OF assms(1), of header rid] that by (auto simp: error_response_status)
  have none: "\<exists>cs. adds s [] [] cs s" using adds_none by blast
  show ?thesis using out
  proof (cases rule: message_outcome.cases)
    case (unauthenticated err ev)
    then show ?thesis using st by auto
  next
    case (unresolved a err)
    then show ?thesis using request_model_err [of cfg "JObj d" err rid] none by auto
  next
    case (unpriced a m rm err)
    then show ?thesis using active_pricing_err [of cfg rm err rid] none by auto
  next
    case (unbuildable a m rm d' err)
    then show ?thesis using build_err [of d' rm err rid] by auto
  next
    case (upstream a m rm d' q err)
    then show ?thesis using bedrock_err [OF upstream(5), of rid] by auto
  qed (auto simp: service_error_status access_denied_error_def rate_limit_exceeded_error_def)
qed

text \<open>
  Property C22: when the job of a streaming answer has run, whether the provider's stream ended, or
  failed, or the client went away, exactly one usage event and one audit event are added, for the
  caller, with the usage of the last metadata event decoded.
\<close>

theorem stream_recorded_once:
  assumes "world_ok (px_world s)"
    and "create_message (proxy_app cfg now) rid lat (JObj d) header s = (Inr (Streaming job), s1)"
    and "stream_with_audit (proxy_app cfg later) lat' job s2 = (frames, raised, s3)"
  shows "\<exists>ue ae a dec. authenticated_as header rid (px_world s) a \<and>
    iter_sse_events (fst (sj_events job)) (snd (sj_events job)) (new_decoder (sj_requested_model job)) =
      (frames, raised, dec) \<and>
    adds s2 [ue] [ae] [] s3 \<and> is_success ue ae rid (caller_id a) (dc_usage dec)"
proof -
  have "message_outcome cfg now rid (JObj d) header s (Streaming job) s1"
    using message_outcome_run [OF assms(1), of cfg now rid lat d header] assms(2) by auto
  then obtain a m rm pd qd raw where a: "authenticated_as header rid (px_world s) a"
    and job: "job = stream_job rid a m rm pd qd raw"
    by (cases rule: message_outcome.cases) (auto simp: admitted_def)
  obtain uc where u: "ac_user a = Inr uc" "uc_user_id uc = caller_id a"
    using authenticate_context a unfolding authenticated_as_def by blast
  obtain fs x dec where it: "iter_sse_events (fst raw) (snd raw) (new_decoder m) = (fs, x, dec)"
    using prod_cases3 by blast
  have "usage_ok (dc_usage dec)"
    using iter_sse_ok [OF it decoder_ok_new] by (simp add: decoder_ok_def)
  then obtain ue ae s' where run: "record_success (app_logger cfg later) a rid m (rm_bedrock_model_id rm) pd
      (dc_usage dec) (qd_usage_snapshot qd) (Some lat') s2 = (Inr (), s')"
    and s': "adds s2 [ue] [ae] [] s'" "is_success ue ae rid (caller_id a) (dc_usage dec)"
    using app_record_success [OF _ u(1)] u(2) by metis
  show ?thesis
    using assms(3) a it run s' by (auto simp: job stream_with_audit_def stream_job_def proxy_app_def)
qed

subsection \<open>Sequences of requests\<close>

text \<open>
  The proxy over time: requests, whoever makes them, interleave with anything else that leaves the
  limiter's windows alone (key issuing, administration, token counting, the jobs of streaming
  answers). The log holds for each request its time, its caller if it is authenticated, and
  whether Bedrock was called.
\<close>

type_synonym request_log = "(datetime \<times> string option \<times> bool) list"

definition caller_of :: "string option \<Rightarrow> string \<Rightarrow> World \<Rightarrow> string option" where
  "caller_of header rid w =
     (case fst (authenticate auth_service header rid w) of Inl err \<Rightarrow> None | Inr a \<Rightarrow> Some (caller_id a))"

inductive proxy_reaches :: "ProxyConfig \<Rightarrow> request_log \<Rightarrow> ProxyState \<Rightarrow> bool" for cfg where
  start: "px_windows s = [] \<Longrightarrow> proxy_reaches cfg [] s"
| request: "proxy_reaches cfg reqs s \<Longrightarrow> world_ok (px_world s) \<Longrightarrow> list_all (\<lambda>(t, _). t \<le> now) reqs \<Longrightarrow>
    create_message (proxy_app cfg now) rid lat body header s = (r, s') \<Longrightarrow>
    proxy_reaches cfg (reqs @ [(now, caller_of header rid (px_world s),
      px_bedrock_calls s' \<noteq> px_bedrock_calls s)]) s'"
| other: "proxy_reaches cfg reqs s \<Longrightarrow> px_windows s' = px_windows s \<Longrightarrow> proxy_reaches cfg reqs s'"

text \<open>A request either leaves the limiter alone and does not call Bedrock, or asks the limiter.\<close>

lemma request_asks_limiter:
  assumes "world_ok (px_world s)"
    and "create_message (proxy_app cfg now) rid lat body header s = (r, s')"
  shows "px_windows s' = px_windows s \<and> px_bedrock_calls s' = px_bedrock_calls s \<or>
    (\<exists>u dec. caller_of header rid (px_world s) = Some u \<and>
      rate_check (pc_requests_per_minute cfg) now u (px_windows s) = (dec, px_windows s') \<and>
      (px_bedrock_calls s' \<noteq> px_bedrock_calls s \<longrightarrow> rl_allowed dec))"
proof (cases "is_mapping body")
  case False
  then show ?thesis using message_not_an_object [OF assms(1)] assms(2)
    by (simp split: sum.splits)
next
  case True
  then obtain d where d: "body = JObj d" by (cases body) simp_all
  have asks: "\<exists>u dec. caller_of header rid (px_world s) = Some u \<and>
      rate_check (pc_requests_per_minute cfg) now u (px_windows s) = (dec, px_windows s') \<and>
      (px_bedrock_calls s' \<noteq> px_bedrock_calls s \<longrightarrow> rl_allowed dec)"
    if "authenticated_as header rid (px_world s) a" "px_windows s' = snd (rate_decision cfg now a s)"
      "px_bedrock_calls s' \<noteq> px_bedrock_calls s \<longrightarrow> rl_allowed (fst (rate_decision cfg now a s))" for a
    using that by (intro exI [of _ "caller_id a"] exI [of _ "fst (rate_decision cfg now a s)"])
      (simp add: caller_of_def authenticated_as_def rate_decision_def)
  obtain resp where "message_outcome cfg now rid (JObj d) header s resp s'"
    using message_outcome_run [OF assms(1), of cfg now rid lat d header] assms(2) d by auto
  then show ?thesis
  proof (cases rule: message_outcome.cases)
    case (limited a m rm p dec w ev)
    then show ?thesis using asks [of a] by (auto simp: adds_def)
  qed (use asks in \<open>auto simp: adds_def admitted_def\<close>)
qed

lemma proxy_reaches_limiter:
  "proxy_reaches cfg reqs s \<Longrightarrow> \<exists>h. limiter_reaches (pc_requests_per_minute cfg) h (px_windows s) \<and>
     (\<forall>now. list_all (\<lambda>(t, _). t \<le> now) reqs \<longrightarrow> list_all (\<lambda>(t, _). t \<le> now) h) \<and>
     (\<forall>u P. length (filter (\<lambda>(t, c, b). c = Some u \<and> b \<and> P t) reqs) \<le>
        length (filter (\<lambda>(t, v, a). v = u \<and> a \<and> P t) h))"
proof (induction rule: proxy_reaches.induct)
  case (start s)
  then show ?case by (auto intro: exI [of _ "[]"] limiter_reaches.start)
next
  case (request reqs s now rid lat body header r s')
  let ?n = "pc_requests_per_minute cfg"
  obtain h where h: "limiter_reaches ?n h (px_windows s)"
    "\<forall>now. list_all (\<lambda>(t, _). t \<le> now) reqs \<longrightarrow> list_all (\<lambda>(t, _). t \<le> now) h"
    "\<forall>u P. length (filter (\<lambda>(t, c, b). c = Some u \<and> b \<and> P t) reqs) \<le>
        length (filter (\<lambda>(t, v, a). v = u \<and> a \<and> P t) h)"
    using request.IH by blast
  show ?case using request_asks_limiter [OF request.hyps(2,4)]
  proof (elim disjE exE conjE)
    assume "px_windows s' = px_windows s" "px_bedrock_calls s' = px_bedrock_calls s"
    then show ?thesis using h by (intro exI [of _ h]) simp
  next
    fix u dec
    assume c: "caller_of header rid (px_world s) = Some u"
      and rc: "rate_check ?n now u (px_windows s) = (dec, px_windows s')"
      and al: "px_bedrock_calls s' \<noteq> px_bedrock_calls s \<longrightarrow> rl_allowed dec"
    have "limiter_reaches ?n (h @ [(now, u, rl_allowed dec)]) (px_windows s')"
      using limiter_reaches.step [OF h(1) _ rc] h(2) request.hyps(3) by blast
    then show ?thesis using h(2,3) c al
      by (intro exI [of _ "h @ [(now, u, rl_allowed dec)]"]) (auto simp: le_SucI)
  qed
qed simp

text \<open>
  Property C11: within one process of the proxy the messages endpoint calls Bedrock for a user at most the
  configured number of times (at least one) in any clock minute, whatever messages arrive and however
  they interleave with key issuing, administration and token counting. The calls that count tokens
  go to an operation of their own and are not limited (\<open>CountTokens\<close>), and every further process
  has a limiter of its own (\<open>Replicas\<close>).
\<close>

theorem bedrock_calls_per_minute:
  assumes "proxy_reaches cfg reqs s"
  shows "int (length (filter (\<lambda>(t, c, called). c = Some u \<and> called \<and> window_start t = window_start m) reqs))
    \<le> max 1 (pc_requests_per_minute cfg)"
proof -
  obtain h where "limiter_reaches (pc_requests_per_minute cfg) h (px_windows s)"
    "\<forall>u P. length (filter (\<lambda>(t, c, b). c = Some u \<and> b \<and> P t) reqs) \<le>
        length (filter (\<lambda>(t, v, a). v = u \<and> a \<and> P t) h)"
    using proxy_reaches_limiter [OF assms] by blast
  then show ?thesis
    using limiter_per_minute [of "pc_requests_per_minute cfg" h "px_windows s" u m]
    by (meson of_nat_mono order_trans)
qed

text \<open>
  The bearer of a key that is disabled or revoked in the ledger gets a 401, whatever
  the request and whatever the token service's cache still holds: Bedrock is not called, the
  limiter is not touched, and one authentication failure is recorded.
\<close>

lemma revoked_key_is_cut_off:
  assumes "world_ok (px_world s)" and "extract_virtual_key header rid = Inr vk"
    and "k \<in> world_keys (px_world s)" and "vk_key_hash k = hash_virtual_key vk" and "vk_status k \<noteq> ACTIVE"
  shows "\<exists>j s' ev. create_message (proxy_app cfg now) rid lat (JObj d) header s = (Inr (Json j), s') \<and>
    jr_status_code j = 401 \<and> adds s [] [ev] [] s' \<and> px_windows s' = px_windows s \<and>
    is_denial ev rid DENIAL_REASON_AUTHENTICATION_FAILED None"
proof -
  let ?err = "authentication_error rid AUTH_REASON_INACTIVE_KEY"
  have a: "authenticate auth_service header rid (px_world s) = (Inl ?err, px_world s)"
    by (rule world_auth.inactive_refused [OF assms(1-5)])
  obtain resp s' where run: "create_message (proxy_app cfg now) rid lat (JObj d) header s = (Inr resp, s')"
    "message_outcome cfg now rid (JObj d) header s resp s'"
    using message_outcome_run [OF assms(1)] by blast
  have "jr_status_code (error_response_for_exception ?err rid) = 401"
    by (simp add: error_response_status authentication_error_def authentication_failed_error_def)
  moreover obtain ev where "resp = Json (error_response_for_exception ?err rid)" "adds s [] [ev] [] s'"
    "px_windows s' = px_windows s" "is_denial ev rid DENIAL_REASON_AUTHENTICATION_FAILED None"
    using run(2) by (cases rule: message_outcome.cases) (use a in \<open>auto simp: authenticated_as_def admitted_def\<close>)
  ultimately show ?thesis using run(1) by blast
qed

subsection \<open>A small deployment\<close>

text \<open>
  One alias and one route, a limit of one request per minute, a provider that answers with an empty
  message, and the user whose key the token service has issued.
\<close>

definition demo_route :: ModelRouteRecord where
  "demo_route =
     \<lparr>mr_id = ''r1'', mr_logical_model = ''sonnet'', mr_provider = ''anthropic'',
      mr_bedrock_api_route = ''converse'', mr_bedrock_model_id = Some ''anthropic.sonnet'',
      mr_inference_profile_id = None, mr_supports_native_structured_output = True,
      mr_supports_reasoning = True, mr_supports_prompt_cache_ttl = False,
      mr_supports_disable_parallel_tool_use = True, mr_priority = 1, mr_is_active = True\<rparr>"

definition demo_config :: ProxyConfig where
  "demo_config =
     \<lparr>pc_alias_rules = [demo_rule\<lparr>ma_pattern := ''claude''\<rparr>], pc_routes = [demo_route],
      pc_requests_per_minute = 1, pc_pricing = None, pc_converse = (\<lambda>_. Inr (JObj [])),
      pc_converse_stream = (\<lambda>_. Inr ([], None)), pc_count_tokens = (\<lambda>_. Inl ''ClientError''),
      pc_event_id = (\<lambda>n. ''event-'' @ py_str_int (int n))\<rparr>"

definition demo_proxy :: "World \<Rightarrow> ProxyState" where
  "demo_proxy w =
     \<lparr>px_world = w, px_windows = [], px_usage_events = [], px_audit_events = [],
      px_bedrock_calls = [], px_count_calls = [], px_next_event = 0\<rparr>"

lemma demo_request_model:
  "map_of d ''model'' = Some (JStr ''claude'') \<Longrightarrow>
     request_model demo_config (JObj d) = Inr (JStr ''claude'', demo_model)"
proof -
  assume m: "map_of d ''model'' = Some (JStr ''claude'')"
  have "fnmatchcase ''claude'' ''claude''" by (simp add: fnmatchcase_plain plain_char_def)
  then show ?thesis using m
    by (simp add: request_model_def demo_config_def resolve_def find_alias_rule_def concatR_def demo_rule_def
        fnmatch_json_def select_highest_priority_def find_route_def demo_route_def demo_model_def
        capabilities_from_route_def)
qed

lemma demo_empty_answer: "\<exists>m. parse_converse_response (JObj []) (JStr ''claude'') = Inr m"
  by (simp add: parse_converse_response_def dget_def map_stop_reason_def normalize_usage_def py_or_def
      int_or_zero_None)

lemma demo_rate: "rl_allowed (fst (rate_check 1 now u []))"
  by (simp add: rate_check_def Let_def requests_per_minute_def)

text \<open>The caller's requests are admitted.\<close>

lemma demo_admitted:
  "\<exists>a. authenticated_as demo_header rid (demo_issued 0) a \<and> in_good_standing a \<and> caller_id a = ''ana''"
proof -
  obtain a where "authenticate auth_service demo_header rid (demo_issued 0) = (Inr a, demo_issued 0)"
    "ac_user_record a = user_row_to_record (demo_user ''ana'' True)"
    using demo_authenticated by blast
  then show ?thesis
    by (auto simp: authenticated_as_def in_good_standing_def caller_id_def user_row_to_record_def demo_user_def)
qed

lemma demo_config_calls [simp]:
  "outside (pc_converse demo_config q) = Inr (JObj [])"
  "outside (pc_converse_stream demo_config q) = Inr ([], None)"
  by (simp_all add: demo_config_def outside_def)

lemma demo_outcome:
  assumes d: "map_of d ''model'' = Some (JStr ''claude'')" and q: "build_converse_request d demo_model = Inr q"
  shows "\<exists>resp s'. create_message (proxy_app demo_config 0) ''r2'' 5 (JObj d) demo_header
       (demo_proxy (demo_issued 0)) = (Inr resp, s') \<and> px_bedrock_calls s' = [q] \<and>
     (if cr_operation q = ''converse_stream'' then \<exists>job. resp = Streaming job
      else \<exists>j. resp = Json j \<and> jr_status_code j = 200)"
proof -
  let ?s = "demo_proxy (demo_issued 0)"
  obtain a where a: "authenticated_as demo_header ''r2'' (px_world ?s) a" "in_good_standing a"
    using demo_admitted by (auto simp: demo_proxy_def)
  note m = demo_request_model [OF d]
  have p: "active_pricing demo_config demo_model = Inr None"
    by (simp add: active_pricing_def demo_config_def get_active_pricing_def)
  have r: "rl_allowed (fst (rate_decision demo_config 0 b ?s))" for b
    using demo_rate [of 0 "caller_id b"] by (simp add: rate_decision_def demo_config_def demo_proxy_def)
  obtain x where x: "parse_converse_response (JObj []) (JStr ''claude'') = Inr x"
    using demo_empty_answer by blast
  have "world_ok (px_world ?s)" using demo_issued_ok by (simp add: demo_proxy_def)
  then obtain resp s' where run: "create_message (proxy_app demo_config 0) ''r2'' 5 (JObj d)
      demo_header ?s = (Inr resp, s')"
    "message_outcome demo_config 0 ''r2'' (JObj d) demo_header ?s resp s'"
    using message_outcome_run by blast
  have same: "b = a" if "authenticated_as demo_header ''r2'' (px_world ?s) b" for b
    using that a(1) by (simp add: authenticated_as_def)
  have "px_bedrock_calls s' = [q] \<and>
     (if cr_operation q = ''converse_stream'' then \<exists>job. resp = Streaming job
      else \<exists>j. resp = Json j \<and> jr_status_code j = 200)"
    using run(2)
  proof (cases rule: message_outcome.cases)
    case (unauthenticated err ev)
    then show ?thesis using a(1) by (simp add: authenticated_as_def)
  next
    case (denied b m' rm ev reason)
    then show ?thesis using same a(2) by blast
  next
    case (limited b m' rm pr dec w ev)
    then show ?thesis using r [of b] by simp
  next
    case (upstream b m' rm d' q' err)
    then show ?thesis using m q x by (auto simp: admitted_def split: if_splits)
  qed (use m p q x in \<open>auto simp: admitted_def adds_def demo_proxy_def\<close>)
  then show ?thesis using run(1) by blast
qed

lemma demo_answer:
  "\<exists>j s'. create_message (proxy_app demo_config 0) ''r2'' 5 (JObj demo_request) demo_header
       (demo_proxy (demo_issued 0)) = (Inr (Json j), s') \<and> jr_status_code j = 200 \<and>
     px_bedrock_calls s' \<noteq> []"
  using demo_outcome [OF _ demo_build] by (fastforce simp: demo_request_def)

definition demo_stream_request :: request where
  "demo_stream_request = demo_request @ [(''stream'', JBool True)]"

lemma demo_stream_build:
  "\<exists>q. build_converse_request demo_stream_request demo_model = Inr q \<and> cr_operation q = ''converse_stream''"
  by (simp add: build_converse_request_def demo_stream_request_def demo_request_def demo_model_def Let_def
      dget_def normalize_reasoning_request_def reasoning_budget_def has_reasoning_continuity_def py_or_def
      normalize_messages_def normalize_message_def SUPPORTED_MESSAGE_ROLES_def
      normalize_content_blocks_def coerce_blocks_def normalize_content_block_def text_block_def
      normalize_system_blocks_def build_inference_config_def build_tool_config_def
      build_additional_model_request_fields_def build_output_config_def)

lemma demo_stream:
  "\<exists>job s'. create_message (proxy_app demo_config 0) ''r2'' 5 (JObj demo_stream_request)
       demo_header (demo_proxy (demo_issued 0)) = (Inr (Streaming job), s')"
proof -
  obtain q where "build_converse_request demo_stream_request demo_model = Inr q"
    "cr_operation q = ''converse_stream''" using demo_stream_build by blast
  then show ?thesis using demo_outcome [of demo_stream_request q]
    by (auto simp: demo_stream_request_def demo_request_def)
qed

lemma demo_proxy_ok: "world_ok (px_world (demo_proxy (demo_issued 0)))"
  using demo_issued_ok by (simp add: demo_proxy_def)

lemma messages_handler_meets_spec_witness:
  "\<exists>resp s'. create_message (proxy_app demo_config 0) ''r2'' 5 (JObj demo_request) demo_header
       (demo_proxy (demo_issued 0)) = (Inr resp, s') \<and> px_world s' = demo_issued 0"
  using messages_handler_meets_spec [OF demo_proxy_ok, of demo_config 0 "''r2''" 5 demo_request demo_header]
  by (auto simp: demo_proxy_def)

lemma stream_recorded_once_witness:
  "\<exists>job frames raised s3 ue ae. stream_with_audit (proxy_app demo_config 0) 7 job
       (demo_proxy (demo_issued 0)) = (frames, raised, s3) \<and>
     adds (demo_proxy (demo_issued 0)) [ue] [ae] [] s3"
proof -
  obtain job s1 where run: "create_message (proxy_app demo_config 0) ''r2'' 5 (JObj demo_stream_request)
       demo_header (demo_proxy (demo_issued 0)) = (Inr (Streaming job), s1)"
    using demo_stream by blast
  obtain frames raised s3 where st: "stream_with_audit (proxy_app demo_config 0) 7 job
       (demo_proxy (demo_issued 0)) = (frames, raised, s3)" using prod_cases3 by blast
  from stream_recorded_once [OF demo_proxy_ok run st] st show ?thesis by blast
qed

lemma bedrock_calls_per_minute_witness:
  "\<exists>s c. proxy_reaches demo_config [(0, Some ''ana'', c)] s \<and>
     length (filter (\<lambda>(t, c, called). c = Some ''ana'' \<and> called \<and> window_start t = window_start 0)
       [(0, Some ''ana'', c)]) \<le> 1"
proof -
  let ?s = "demo_proxy (demo_issued 0)"
  obtain r s' where run: "create_message (proxy_app demo_config 0) ''r2'' 5 (JObj demo_request) demo_header ?s = (r, s')"
    by force
  have "caller_of demo_header ''r2'' (px_world ?s) = Some ''ana''"
    using demo_admitted [of "''r2''"] by (auto simp: caller_of_def authenticated_as_def demo_proxy_def)
  then have "proxy_reaches demo_config ([] @ [(0, Some ''ana'', px_bedrock_calls s' \<noteq> px_bedrock_calls ?s)]) s'"
    using proxy_reaches.request [OF proxy_reaches.start demo_proxy_ok _ run] by (simp add: demo_proxy_def)
  then have "proxy_reaches demo_config [(0, Some ''ana'', px_bedrock_calls s' \<noteq> px_bedrock_calls ?s)] s'"
    by simp
  moreover from bedrock_calls_per_minute [OF this, of "''ana''" 0]
  have "length (filter (\<lambda>(t, c, called). c = Some ''ana'' \<and> called \<and> window_start t = window_start 0)
       [(0, Some ''ana'', px_bedrock_calls s' \<noteq> px_bedrock_calls ?s)]) \<le> 1"
    by (simp add: demo_config_def)
  ultimately show ?thesis by blast
qed

end
