(* ===== verification/Observability.thy ===== *)
theory Observability
  imports ProxyApp
begin

section \<open>Observability and health (\<open>api/observability.py\<close>, \<open>api/health_router.py\<close>)\<close>

text \<open>
  The middleware around every endpoint, and the request identifier it shares with them. The state
  puts the request's own attribute beside the application's state, the metrics and the warnings
  of the runtime logger; a response is its status, its headers by their lower-case name, and its
  body. The elapsed time is an argument. Last, the messages endpoint as it is served, behind the
  middleware.
\<close>

definition RUNTIME_REQUEST_COUNT_METRIC :: string where
  "RUNTIME_REQUEST_COUNT_METRIC = ''runtime.requests''"

definition RUNTIME_REQUEST_ERROR_COUNT_METRIC :: string where
  "RUNTIME_REQUEST_ERROR_COUNT_METRIC = ''runtime.errors''"

definition RUNTIME_REQUEST_LATENCY_METRIC :: string where
  "RUNTIME_REQUEST_LATENCY_METRIC = ''runtime.request_latency_ms''"

definition RUNTIME_FAILURE_EVENT :: string where
  "RUNTIME_FAILURE_EVENT = ''runtime_request_failed''"

definition REQUEST_ID_HEADER :: string where
  "REQUEST_ID_HEADER = ''X-Request-Id''"

record 's Runtime =
  rt_app :: 's
  rt_request_id :: "json option"
  rt_metrics :: "MetricCall list"
  rt_warnings :: "string list"

record 'b HttpResponse =
  ht_status_code :: int
  ht_headers :: "(string, string) pydict"
  ht_body :: 'b

definition on_app :: "('s, 'a) op \<Rightarrow> ('s Runtime, 'a) op" where
  "on_app m r = (case m (rt_app r) of (x, s) \<Rightarrow> (x, r\<lparr>rt_app := s\<rparr>))"

subsection \<open>The request identifier\<close>

text \<open>\<open>resolve_request_id\<close>: the attribute if it is a string that is not blank, or a new one.\<close>

definition runtime_request_id :: "('s, string) op \<Rightarrow> ('s Runtime, string) op" where
  "runtime_request_id generator r =
     (let fresh = bindM (on_app generator) (\<lambda>request_id.
        bindM (modifyM (\<lambda>r. r\<lparr>rt_request_id := Some (JStr request_id)\<rparr>)) (\<lambda>_.
        returnM request_id))
      in case rt_request_id r of
           Some (JStr request_id) \<Rightarrow> if py_strip request_id \<noteq> [] then (Inr request_id, r) else fresh r
         | _ \<Rightarrow> fresh r)"

subsection \<open>The middleware\<close>

definition runtime_record_metrics :: "bool \<Rightarrow> int \<Rightarrow> int \<Rightarrow> (string \<times> string) list \<Rightarrow> MetricCall list" where
  "runtime_record_metrics has_recorder latency_ms response_status tags =
     (if \<not> has_recorder then []
      else [Increment RUNTIME_REQUEST_COUNT_METRIC 1 tags,
            Observe RUNTIME_REQUEST_LATENCY_METRIC (fl (of_int latency_ms)) tags] @
           (if 400 \<le> response_status then [Increment RUNTIME_REQUEST_ERROR_COUNT_METRIC 1 tags] else []))"

text \<open>The keys are written in sorted order.\<close>

definition runtime_warning :: "string \<Rightarrow> string \<Rightarrow> string \<Rightarrow> int \<Rightarrow> string" where
  "runtime_warning request_id request_method path status_code = json_dumps (JObj
     [(''event'', JStr RUNTIME_FAILURE_EVENT), (''method'', JStr request_method), (''path'', JStr path),
      (''request_id'', JStr request_id), (''status_code'', JInt status_code)])"

text \<open>Header names are compared, and stored, in lower case.\<close>

definition header_setdefault ::
    "string \<Rightarrow> string \<Rightarrow> (string, string) pydict \<Rightarrow> (string, string) pydict" where
  "header_setdefault key v headers = setdefault (py_lower key) v headers"

definition runtime_observability_middleware ::
    "bool \<Rightarrow> ('s, string) op \<Rightarrow> int \<Rightarrow> string \<Rightarrow> string \<Rightarrow> ('s Runtime, 'b HttpResponse) op \<Rightarrow>
     ('s Runtime, 'b HttpResponse) op" where
  "runtime_observability_middleware has_recorder generator latency_ms request_method path call_next =
     bindM (runtime_request_id generator) (\<lambda>request_id.
     bindM call_next (\<lambda>response.
     let status = ht_status_code response;
         tags = [(''method'', request_method), (''path'', path), (''status_code'', py_str_int status)] in
     bindM (modifyM (\<lambda>r. r\<lparr>rt_metrics := rt_metrics r @
       runtime_record_metrics has_recorder latency_ms status tags\<rparr>)) (\<lambda>_.
     bindM (if 400 \<le> status
        then modifyM (\<lambda>r. r\<lparr>rt_warnings := rt_warnings r @
          [runtime_warning request_id request_method path status]\<rparr>)
        else returnM ()) (\<lambda>_.
     returnM (response\<lparr>ht_headers := header_setdefault REQUEST_ID_HEADER request_id (ht_headers response)\<rparr>)))))"

subsection \<open>Health\<close>

definition health :: "(string, string) pydict" where
  "health = [(''status'', ''ok'')]"

text \<open>\<open>all(check() for check in readiness_checks)\<close> stops at the first check that fails.\<close>

fun all_checks :: "('s, bool) op list \<Rightarrow> ('s, bool) op" where
  "all_checks [] = returnM True"
| "all_checks (check # checks) = bindM check (\<lambda>ok. if ok then all_checks checks else returnM False)"

definition ready :: "('s, bool) op list \<Rightarrow> ('s, JSONResponse) op" where
  "ready readiness_checks =
     bindM (all_checks readiness_checks) (\<lambda>is_ready.
     returnM (if is_ready
       then \<lparr>jr_status_code = 200, jr_content = [(''status'', JStr ''ready'')], jr_headers = []\<rparr>
       else \<lparr>jr_status_code = 503, jr_content = [(''status'', JStr ''not_ready'')], jr_headers = []\<rparr>))"

lemma all_checks_true:
  assumes "\<forall>c \<in> set checks. c s = (Inr True, s)"
  shows "all_checks checks s = (Inr True, s)"
  using assms by (induction checks) simp_all

lemma all_checks_stops:
  assumes "\<forall>c \<in> set before. c s = (Inr True, s)" and "check s = (Inr False, s')"
  shows "all_checks (before @ check # rest) s = (Inr False, s')"
  using assms(1) by (induction before) (simp_all add: bindM_value [where m = check, OF assms(2)])

subsection \<open>The messages endpoint as served\<close>

definition http_of :: "ProxyResponse \<Rightarrow> ProxyResponse HttpResponse" where
  "http_of resp = (case resp of
       Json j \<Rightarrow> \<lparr>ht_status_code = jr_status_code j,
         ht_headers = map (\<lambda>(k, v). (py_lower k, v)) (jr_headers j), ht_body = resp\<rparr>
     | Streaming job \<Rightarrow> \<lparr>ht_status_code = 200, ht_headers = [], ht_body = resp\<rparr>)"

text \<open>The endpoint asks for the identifier itself, and finds the one the middleware left.\<close>

definition messages_endpoint ::
    "'s AppDependencies \<Rightarrow> ('s, string) op \<Rightarrow> int \<Rightarrow> json \<Rightarrow> string option \<Rightarrow>
     ('s Runtime, ProxyResponse HttpResponse) op" where
  "messages_endpoint deps generator latency_ms body header =
     bindM (runtime_request_id generator) (\<lambda>request_id.
     bindM (on_app (create_message deps request_id latency_ms body header)) (\<lambda>resp.
     returnM (http_of resp)))"

definition served_message ::
    "bool \<Rightarrow> 's AppDependencies \<Rightarrow> ('s, string) op \<Rightarrow> int \<Rightarrow> int \<Rightarrow> json \<Rightarrow> string option \<Rightarrow>
     ('s Runtime, ProxyResponse HttpResponse) op" where
  "served_message has_recorder deps generator handler_ms total_ms body header =
     runtime_observability_middleware has_recorder generator total_ms ''POST'' ''/v1/messages''
       (messages_endpoint deps generator handler_ms body header)"

subsection \<open>Properties\<close>

text \<open>A request that enters with no identifier gets the generated one, here and in the handler.\<close>

lemma runtime_request_id_fresh:
  assumes "rt_request_id r = None" and "generator (rt_app r) = (Inr rid, s)"
  shows "runtime_request_id generator r = (Inr rid, r\<lparr>rt_app := s, rt_request_id := Some (JStr rid)\<rparr>)"
  using assms by (simp add: runtime_request_id_def on_app_def Let_def)

lemma runtime_request_id_kept:
  assumes "rt_request_id r = Some (JStr rid)" and "py_strip rid \<noteq> []"
  shows "runtime_request_id generator r = (Inr rid, r)"
  using assms by (simp add: runtime_request_id_def Let_def)

lemma authenticate_err:
  assumes "world_ok w" and "authenticate auth_service header rid w = (Inl err, w')"
  shows "\<exists>reason. err = authentication_error rid reason"
proof (cases "extract_virtual_key header rid")
  case (Inl e)
  then show ?thesis using extract_virtual_key_Inl [OF Inl] assms(2) by (auto simp: authenticate_def)
next
  case (Inr vk)
  obtain k where "world_get_by_hash (hash_virtual_key vk) w = (Inr k, w)"
    using world_ledger.get_by_hash [OF assms(1)] by blast
  then show ?thesis using Inr assms(2)
    by (auto simp: authenticate_def world_auth.auth_get_key world_auth.auth_get_user
        split: option.split_asm if_split_asm)
qed

lemma error_headers:
  "jr_headers (error_response_for_exception err rid) =
     (case err of ServiceErr e \<Rightarrow> (case se_headers e of None \<Rightarrow> [] | Some h \<Rightarrow> h) | _ \<Rightarrow> [])"
  by (simp add: error_response_for_exception_def service_error_response_def normalize_exception_def
      anthropic_error_response_def invalid_request_error_def upstream_failure_error_def Let_def
      split: py_exc.splits option.splits)

text \<open>
  The exceptions the messages handler answers with: a service error is about this request, and
  sets no headers but the one that says when to retry.
\<close>

definition tagged :: "string \<Rightarrow> py_exc \<Rightarrow> bool" where
  "tagged rid err \<longleftrightarrow> (\<forall>e. err = ServiceErr e \<longrightarrow> se_request_id e = rid \<and>
     (se_headers e = None \<or> (\<exists>dec. se_headers e = Some (retry_headers dec))))"

lemma tagged_py: "is_py_err err \<Longrightarrow> tagged rid err"
  by (auto simp: tagged_def)

lemma outcome_answers:
  assumes "message_outcome cfg now rid (JObj d) header s resp s'" and "world_ok (px_world s)"
  shows "(\<exists>job. resp = Streaming job) \<or>
    (\<exists>parsed. resp = Json \<lparr>jr_status_code = 200, jr_content = parsed, jr_headers = []\<rparr>) \<or>
    (\<exists>err. resp = Json (error_response_for_exception err rid) \<and> tagged rid err)"
  using assms(1)
proof (cases rule: message_outcome.cases)
  case (unauthenticated err ev)
  obtain reason where "err = authentication_error rid reason"
    using authenticate_err [OF assms(2)] unauthenticated(2) by blast
  then have "tagged rid err"
    by (simp add: tagged_def authentication_error_def authentication_failed_error_def)
  then show ?thesis using unauthenticated(1) by blast
next
  case (unresolved a err)
  then have "tagged rid err"
    by (auto simp: tagged_def request_model_def bindR_eq_Inl key_error_def dest: resolve_err split: option.split_asm)
  then show ?thesis using unresolved(1) by blast
next
  case (denied a m rm ev reason)
  then have "resp = Json (error_response_for_exception
      (ServiceErr (access_denied_error rid (blocked_message ''policy'' (Some reason)))) rid)"
    by (simp add: error_response_ServiceErr)
  moreover have "tagged rid (ServiceErr (access_denied_error rid (blocked_message ''policy'' (Some reason))))"
    by (simp add: tagged_def access_denied_error_def)
  ultimately show ?thesis by blast
next
  case (unpriced a m rm err)
  then have "tagged rid err"
    by (auto simp: tagged_def active_pricing_def get_active_pricing_def outside_def split: option.split_asm sum.split_asm)
  then show ?thesis using unpriced(1) by blast
next
  case (limited a m rm p dec w ev)
  then have "resp = Json (error_response_for_exception
      (ServiceErr (rate_limit_exceeded_error rid (retry_headers dec))) rid)"
    by (simp add: error_response_ServiceErr)
  moreover have "tagged rid (ServiceErr (rate_limit_exceeded_error rid (retry_headers dec)))"
    by (auto simp: tagged_def rate_limit_exceeded_error_def)
  ultimately show ?thesis by blast
next
  case (unbuildable a m rm d' err)
  then have "tagged rid err"
    by (auto simp: tagged_def builder_error_def dest: build_converse_request_err)
  then show ?thesis using unbuildable(1) by blast
next
  case (upstream a m rm d' q err)
  then have "is_py_err err"
    using only_py_parse [of _ m]
    by (auto simp: bindR_eq_Inl only_py_def split: if_split_asm dest: outside_err)
  then show ?thesis using upstream(1) tagged_py by blast
qed auto

lemma tagged_response:
  assumes "tagged rid err"
  shows "map_of (jr_content (error_response_for_exception err rid)) ''request_id'' = Some (JStr rid)"
    and "map_of (ht_headers (http_of (Json (error_response_for_exception err rid)))) ''x-request-id'' = None"
  using assms
  by (auto simp: tagged_def error_response_request_id error_headers http_of_def retry_headers_def
      py_lower_def lower_char_def Let_def split: py_exc.splits option.splits)

lemma outcome_headers:
  assumes "message_outcome cfg now rid (JObj d) header s resp s'" and "world_ok (px_world s)"
  shows "map_of (ht_headers (http_of resp)) ''x-request-id'' = None"
  using outcome_answers [OF assms] tagged_response(2) by (auto simp: http_of_def)

lemma outcome_request_id:
  assumes "message_outcome cfg now rid (JObj d) header s (Json j) s'" and "world_ok (px_world s)"
    and "400 \<le> jr_status_code j"
  shows "map_of (jr_content j) ''request_id'' = Some (JStr rid)"
  using outcome_answers [OF assms(1,2)] tagged_response(1) assms(3) by auto

text \<open>
  Property C27: a request to the messages endpoint carries one identifier throughout. It is
  answered as the handler's specification says under the generated identifier, the response has
  it as its \<open>x-request-id\<close> header and an error also in its body; the middleware emits the
  request metrics once, with the status answered, and one warning exactly when that is an error.
\<close>

theorem served_message_observed:
  assumes "rt_request_id r = None" and "generator (rt_app r) = (Inr rid, s)" and "py_strip rid \<noteq> []"
    and "world_ok (px_world s)"
  shows "\<exists>resp s' out r'. message_outcome cfg now rid (JObj d) header s resp s' \<and>
    served_message recorder (proxy_app cfg now) generator ms total_ms (JObj d) header r = (Inr out, r') \<and>
    ht_body out = resp \<and> rt_app r' = s' \<and> ht_status_code out = ht_status_code (http_of resp) \<and>
    map_of (ht_headers out) ''x-request-id'' = Some rid \<and>
    rt_metrics r' = rt_metrics r @ runtime_record_metrics recorder total_ms (ht_status_code out)
      [(''method'', ''POST''), (''path'', ''/v1/messages''), (''status_code'', py_str_int (ht_status_code out))] \<and>
    rt_warnings r' = rt_warnings r @ (if 400 \<le> ht_status_code out
      then [runtime_warning rid ''POST'' ''/v1/messages'' (ht_status_code out)] else []) \<and>
    (\<forall>j. resp = Json j \<and> 400 \<le> jr_status_code j \<longrightarrow> map_of (jr_content j) ''request_id'' = Some (JStr rid))"
proof -
  let ?r = "r\<lparr>rt_app := s, rt_request_id := Some (JStr rid)\<rparr>"
  obtain resp s' where run: "create_message (proxy_app cfg now) rid ms (JObj d) header s = (Inr resp, s')"
    and out: "message_outcome cfg now rid (JObj d) header s resp s'"
    using message_outcome_run [OF assms(4)] by blast
  have ids: "runtime_request_id generator r = (Inr rid, ?r)" "runtime_request_id generator ?r = (Inr rid, ?r)"
    using assms by (simp_all add: runtime_request_id_fresh runtime_request_id_kept)
  have "messages_endpoint (proxy_app cfg now) generator ms (JObj d) header ?r =
      (Inr (http_of resp), ?r\<lparr>rt_app := s'\<rparr>)"
    using ids(2) run by (simp add: messages_endpoint_def on_app_def)
  moreover have "py_lower REQUEST_ID_HEADER = ''x-request-id''"
    unfolding REQUEST_ID_HEADER_def by code_simp
  ultimately have "served_message recorder (proxy_app cfg now) generator ms total_ms (JObj d) header r =
      (Inr ((http_of resp)\<lparr>ht_headers := setdefault ''x-request-id'' rid (ht_headers (http_of resp))\<rparr>),
       ?r\<lparr>rt_app := s',
         rt_metrics := rt_metrics r @ runtime_record_metrics recorder total_ms (ht_status_code (http_of resp))
           [(''method'', ''POST''), (''path'', ''/v1/messages''),
            (''status_code'', py_str_int (ht_status_code (http_of resp)))],
         rt_warnings := rt_warnings r @ (if 400 \<le> ht_status_code (http_of resp)
           then [runtime_warning rid ''POST'' ''/v1/messages'' (ht_status_code (http_of resp))] else [])\<rparr>)"
    using ids(1) by (simp add: served_message_def runtime_observability_middleware_def header_setdefault_def Let_def)
  moreover have "ht_body (http_of resp) = resp" by (simp add: http_of_def split: ProxyResponse.split)
  ultimately show ?thesis
    using out outcome_headers [OF out assms(4)] outcome_request_id [OF _ assms(4)]
    by (intro exI [of _ resp] exI [of _ s']) (auto simp: map_of_setdefault)
qed

text \<open>A generator that numbers the requests: the identifiers it draws differ.\<close>

definition demo_generator :: "(ProxyState, string) op" where
  "demo_generator s = (Inr (''req-'' @ py_str_int (int (px_next_event s))), s\<lparr>px_next_event := px_next_event s + 1\<rparr>)"

lemma served_message_observed_witness:
  "\<exists>out r'. served_message True (proxy_app demo_config 0) demo_generator 3 4
       (JObj [(''model'', JStr ''claude'')]) None
       \<lparr>rt_app = demo_proxy (demo_issued 0), rt_request_id = None, rt_metrics = [], rt_warnings = []\<rparr> = (Inr out, r') \<and>
     map_of (ht_headers out) ''x-request-id'' = Some ''req-0''"
proof -
  let ?r = "\<lparr>rt_app = demo_proxy (demo_issued 0), rt_request_id = None, rt_metrics = [], rt_warnings = []\<rparr>"
  let ?s = "(demo_proxy (demo_issued 0))\<lparr>px_next_event := 1\<rparr>"
  have "py_str_int 0 = ''0''" by code_simp
  then have "demo_generator (rt_app ?r) = (Inr ''req-0'', ?s)"
    by (simp add: demo_generator_def demo_proxy_def)
  moreover have "world_ok (px_world ?s)" using demo_proxy_ok by simp
  moreover have "py_strip ''req-0'' \<noteq> []" by code_simp
  ultimately show ?thesis using served_message_observed [of ?r demo_generator "''req-0''" ?s demo_config 0
      "[(''model'', JStr ''claude'')]" None True 3 4] by fastforce
qed

text \<open>Readiness: 200 exactly when every check holds, 503 from the first that fails.\<close>

lemma ready_runs:
  assumes "\<forall>c \<in> set checks. \<exists>b. c s = (Inr b, s)"
  shows "\<exists>j. ready checks s = (Inr j, s) \<and>
    jr_status_code j = (if \<forall>c \<in> set checks. c s = (Inr True, s) then 200 else 503)"
proof (cases "\<forall>c \<in> set checks. c s = (Inr True, s)")
  case True
  then show ?thesis by (simp add: ready_def bindM_value [OF all_checks_true])
next
  case False
  then obtain before check rest where c: "checks = before @ check # rest"
    "check s \<noteq> (Inr True, s)" "\<forall>c \<in> set before. c s = (Inr True, s)"
    using split_list_first_prop [of checks "\<lambda>c. c s \<noteq> (Inr True, s)"] by blast
  then have "check s = (Inr False, s)" using assms by auto
  with c(3) have "all_checks checks s = (Inr False, s)"
    unfolding c(1) by (intro all_checks_stops) simp_all
  then show ?thesis using False by (simp add: ready_def bindM_def)
qed

end
