(* ===== verification/Deployment.thy ===== *)
theory Deployment
  imports TokenIssue
begin

section \<open>Deployment configuration (\<open>infra/config.py\<close>, \<open>infra/app.py\<close>, \<open>infra/constructs\<close>)\<close>

text \<open>
  How the environment's name and the stack's properties are derived, and what the constructs
  decide from them: log retention, removal policies, and the traffic the security groups declare.
  The process environment is a function of the variable's name; names are strings of code points
  below 256. The CDK resources themselves are not modelled.
\<close>

type_synonym environ = "string \<Rightarrow> string option"

subsection \<open>Environment names\<close>

definition sanitize_char :: "char \<Rightarrow> char" where
  "sanitize_char c = (if alnum_char c \<or> c = CHR ''-'' then c else CHR ''-'')"

definition name_parts :: "string \<Rightarrow> string list" where
  "name_parts v = filter (\<lambda>part. part \<noteq> []) (py_split (CHR ''-'') (map sanitize_char (py_lower (py_strip v))))"

definition normalize_environment_name :: "string \<Rightarrow> string" where
  "normalize_environment_name v =
     (let collapsed = py_join ''-'' (name_parts v) in if collapsed = [] then ''dev'' else collapsed)"

text \<open>\<open>a or b\<close> on an optional string.\<close>

definition str_or :: "string option \<Rightarrow> string \<Rightarrow> string" where
  "str_or a b = (case a of Some (c # s) \<Rightarrow> c # s | _ \<Rightarrow> b)"

definition default_environment_name :: "environ \<Rightarrow> string" where
  "default_environment_name env =
     normalize_environment_name (str_or (env ''CLAUDE_CODE_PROXY_ENV'') (str_or (env ''AWS_PROFILE'') ''dev''))"

definition resolve_environment_name :: "environ \<Rightarrow> json \<Rightarrow> string option \<Rightarrow> string" where
  "resolve_environment_name env context_name explicit_name =
     (let from_context = (case context_name of
        JStr c \<Rightarrow> if py_strip c \<noteq> [] then c else default_environment_name env
      | _ \<Rightarrow> default_environment_name env)
      in case explicit_name of
           Some e \<Rightarrow> if py_strip e \<noteq> [] then e else from_context
         | None \<Rightarrow> from_context)"

subsection \<open>Stack properties\<close>

record DeploymentEnvironment =
  de_account :: string
  de_region :: string

record NamingConfig =
  nc_project :: string
  nc_environment :: string

definition stack_name :: "NamingConfig \<Rightarrow> string" where
  "stack_name n = ''ClaudeCodeProxy-'' @ nc_environment n"

record OptionalAuthorizerConfig =
  oa_enabled :: bool
  oa_identity_header :: string
  oa_results_cache_ttl_seconds :: int

definition default_authorizer :: OptionalAuthorizerConfig where
  "default_authorizer = \<lparr>oa_enabled = False, oa_identity_header = ''Authorization'',
     oa_results_cache_ttl_seconds = 0\<rparr>"

record TokenServiceConfig =
  ts_stage_name :: string
  ts_throttling_rate_limit :: float64
  ts_throttling_burst_limit :: int
  ts_log_retention_days :: int
  ts_authorizer :: OptionalAuthorizerConfig

record AdminApiConfig =
  ap_stage_name :: string
  ap_throttling_rate_limit :: float64
  ap_throttling_burst_limit :: int
  ap_log_retention_days :: int

record NetworkConfig =
  nw_vpc_cidr :: string
  nw_max_azs :: int
  nw_runtime_container_port :: int

record DataPlaneConfig =
  dp_database_name :: string
  dp_min_acu :: float64
  dp_max_acu :: float64
  dp_cache_ttl_minutes :: int

record ProxyRuntimeConfig =
  pr_container_port :: int
  pr_desired_count :: int
  pr_min_capacity :: int
  pr_max_capacity :: int
  pr_cpu :: int
  pr_memory_mib :: int
  pr_health_check_path :: string
  pr_idle_timeout_seconds :: int
  pr_log_retention_days :: int
  pr_domain_name :: string
  pr_hosted_zone_name :: string
  pr_certificate_arn :: string
  pr_waf_arn :: string
  pr_image_repository_name :: string
  pr_image_tag :: string

record StackProps =
  sp_naming :: NamingConfig
  sp_deployment_environment :: DeploymentEnvironment
  sp_token_service :: TokenServiceConfig
  sp_admin_api :: AdminApiConfig
  sp_network :: NetworkConfig
  sp_data_plane :: DataPlaneConfig
  sp_proxy_runtime :: ProxyRuntimeConfig

definition environ_get :: "environ \<Rightarrow> string \<Rightarrow> string \<Rightarrow> string" where
  "environ_get env name d = (case env name of None \<Rightarrow> d | Some v \<Rightarrow> v)"

definition build_stack_props :: "environ \<Rightarrow> string \<Rightarrow> StackProps" where
  "build_stack_props env environment_name =
     (let env_name = normalize_environment_name environment_name;
          account = environ_get env ''CDK_DEFAULT_ACCOUNT'' ''000000000000'';
          region = str_or (env ''CDK_DEFAULT_REGION'') (str_or (env ''AWS_REGION'')
            (str_or (env ''AWS_DEFAULT_REGION'') ''ap-northeast-2''));
          hosted_zone_name = environ_get env ''CLAUDE_CODE_PROXY_HOSTED_ZONE_NAME''
            (env_name @ ''.example.internal'');
          domain_name = environ_get env ''CLAUDE_CODE_PROXY_DOMAIN_NAME'' (''proxy.'' @ hosted_zone_name);
          repository = environ_get env ''CLAUDE_CODE_PROXY_RUNTIME_IMAGE_REPOSITORY_NAME''
            ''claude-code-proxy/runtime'';
          tag = environ_get env ''CLAUDE_CODE_PROXY_RUNTIME_IMAGE_TAG'' ''latest'';
          certificate_arn = environ_get env ''CLAUDE_CODE_PROXY_CERTIFICATE_ARN''
            (''arn:aws:acm:'' @ region @ '':'' @ account @ '':certificate/'' @ env_name @ ''-placeholder'');
          waf_arn = environ_get env ''CLAUDE_CODE_PROXY_WAF_ARN''
            (''arn:aws:wafv2:'' @ region @ '':'' @ account @ '':regional/webacl/'' @ env_name @
             ''-placeholder/00000000-0000-0000-0000-000000000000'')
      in \<lparr>sp_naming = \<lparr>nc_project = ''claude-code-proxy'', nc_environment = env_name\<rparr>,
          sp_deployment_environment = \<lparr>de_account = account, de_region = region\<rparr>,
          sp_token_service = \<lparr>ts_stage_name = env_name, ts_throttling_rate_limit = Fin 25,
            ts_throttling_burst_limit = 50, ts_log_retention_days = 14,
            ts_authorizer = default_authorizer\<rparr>,
          sp_admin_api = \<lparr>ap_stage_name = ''admin-'' @ env_name, ap_throttling_rate_limit = Fin 10,
            ap_throttling_burst_limit = 20, ap_log_retention_days = 30\<rparr>,
          sp_network = \<lparr>nw_vpc_cidr = ''10.42.0.0/16'', nw_max_azs = 2, nw_runtime_container_port = 8000\<rparr>,
          sp_data_plane = \<lparr>dp_database_name = ''claude_code_proxy'', dp_min_acu = Fin (1 / 2),
            dp_max_acu = Fin 2, dp_cache_ttl_minutes = 15\<rparr>,
          sp_proxy_runtime = \<lparr>pr_container_port = 8000, pr_desired_count = 2, pr_min_capacity = 2,
            pr_max_capacity = 4, pr_cpu = 512, pr_memory_mib = 1024, pr_health_check_path = ''/health'',
            pr_idle_timeout_seconds = 300, pr_log_retention_days = 30, pr_domain_name = domain_name,
            pr_hosted_zone_name = hosted_zone_name, pr_certificate_arn = certificate_arn,
            pr_waf_arn = waf_arn, pr_image_repository_name = repository, pr_image_tag = tag\<rparr>\<rparr>)"

subsection \<open>Decisions of the constructs\<close>

datatype RetentionDays =
    ONE_WEEK | TWO_WEEKS | ONE_MONTH | TWO_MONTHS | THREE_MONTHS | FOUR_MONTHS | SIX_MONTHS | ONE_YEAR

definition retention_mapping :: "(int \<times> RetentionDays) list" where
  "retention_mapping = [(7, ONE_WEEK), (14, TWO_WEEKS), (30, ONE_MONTH), (60, TWO_MONTHS),
     (90, THREE_MONTHS), (120, FOUR_MONTHS), (180, SIX_MONTHS), (365, ONE_YEAR)]"

definition retention_days :: "int \<Rightarrow> RetentionDays res" where
  "retention_days v = (case map_of retention_mapping v of None \<Rightarrow> Inl value_error | Some r \<Rightarrow> Inr r)"

datatype RemovalPolicy = DESTROY | SNAPSHOT | RETAIN

definition is_ephemeral_environment :: "NamingConfig \<Rightarrow> bool" where
  "is_ephemeral_environment n \<longleftrightarrow> nc_environment n = ''dev''"

definition database_removal_policy :: "NamingConfig \<Rightarrow> RemovalPolicy" where
  "database_removal_policy n = (if is_ephemeral_environment n then DESTROY else SNAPSHOT)"

definition cache_table_removal_policy :: "NamingConfig \<Rightarrow> RemovalPolicy" where
  "cache_table_removal_policy n = (if is_ephemeral_environment n then DESTROY else RETAIN)"

definition has_reader :: "NamingConfig \<Rightarrow> bool" where
  "has_reader n \<longleftrightarrow> \<not> is_ephemeral_environment n"

subsection \<open>Declared traffic (\<open>infra/constructs/network_construct.py\<close>)\<close>

datatype SecurityGroup = Alb | RuntimeService | TokenServiceLambda | DatabaseProxy | Aurora

datatype Peer = AnyIpv4 | Group SecurityGroup

fun allow_all_outbound :: "SecurityGroup \<Rightarrow> bool" where
  "allow_all_outbound Alb = False"
| "allow_all_outbound RuntimeService = True"
| "allow_all_outbound TokenServiceLambda = True"
| "allow_all_outbound DatabaseProxy = False"
| "allow_all_outbound Aurora = False"

text \<open>A rule is the group it is added to, the peer and the TCP port.\<close>

definition ingress_rules :: "NetworkConfig \<Rightarrow> (SecurityGroup \<times> Peer \<times> int) list" where
  "ingress_rules cfg =
     [(Alb, AnyIpv4, 443),
      (RuntimeService, Group Alb, nw_runtime_container_port cfg),
      (DatabaseProxy, Group RuntimeService, 5432),
      (DatabaseProxy, Group TokenServiceLambda, 5432),
      (Aurora, Group DatabaseProxy, 5432)]"

definition egress_rules :: "NetworkConfig \<Rightarrow> (SecurityGroup \<times> Peer \<times> int) list" where
  "egress_rules cfg =
     [(Alb, Group RuntimeService, nw_runtime_container_port cfg),
      (DatabaseProxy, Group Aurora, 5432)]"

text \<open>
  A connection needs an ingress rule of the target and, from a group that does not allow all
  outbound traffic, an egress rule of the source. A path of traffic starts outside.
\<close>

definition can_connect :: "NetworkConfig \<Rightarrow> Peer \<Rightarrow> SecurityGroup \<Rightarrow> int \<Rightarrow> bool" where
  "can_connect cfg source target port \<longleftrightarrow>
     list_ex (\<lambda>(g, p, n). g = target \<and> (p = AnyIpv4 \<or> p = source) \<and> n = port) (ingress_rules cfg) \<and>
     (case source of AnyIpv4 \<Rightarrow> True
      | Group g \<Rightarrow> allow_all_outbound g \<or> list_ex (\<lambda>(h, p, n). h = g \<and> p = Group target \<and> n = port) (egress_rules cfg))"

inductive traffic :: "NetworkConfig \<Rightarrow> Peer list \<Rightarrow> bool" for cfg where
  outside: "traffic cfg [AnyIpv4]"
| hop: "traffic cfg path \<Longrightarrow> can_connect cfg (last path) g port \<Longrightarrow> traffic cfg (path @ [Group g])"

lemma can_connect_cases:
  "can_connect cfg source target port \<Longrightarrow>
     target = Alb \<and> port = 443 \<or>
     target = RuntimeService \<and> source = Group Alb \<and> port = nw_runtime_container_port cfg \<or>
     target = DatabaseProxy \<and> source \<in> {Group RuntimeService, Group TokenServiceLambda} \<and> port = 5432 \<or>
     target = Aurora \<and> source = Group DatabaseProxy \<and> port = 5432"
  by (auto simp: can_connect_def ingress_rules_def)

lemma traffic_nonempty: "traffic cfg path \<Longrightarrow> path \<noteq> []"
  by (induction rule: traffic.induct) simp_all

lemma traffic_invariant:
  assumes "traffic cfg path"
  shows "(Group RuntimeService \<in> set path \<longrightarrow> Group Alb \<in> set path) \<and>
    (Group DatabaseProxy \<in> set path \<longrightarrow> Group RuntimeService \<in> set path) \<and>
    (Group Aurora \<in> set path \<longrightarrow> Group DatabaseProxy \<in> set path) \<and>
    Group TokenServiceLambda \<notin> set path"
  using assms
proof (induction rule: traffic.induct)
  case (hop path g port)
  have "last path \<in> set path" using traffic_nonempty [OF hop(1)] by simp
  then show ?case using hop.IH can_connect_cases [OF hop(2)] by auto
qed simp

subsection \<open>Environment names are well formed\<close>

definition name_part :: "string \<Rightarrow> bool" where
  "name_part p \<longleftrightarrow> p \<noteq> [] \<and> (\<forall>c \<in> set p. alnum_char c \<and> lower_char c = c)"

definition environment_name_ok :: "string \<Rightarrow> bool" where
  "environment_name_ok s \<longleftrightarrow> (\<exists>ps. ps \<noteq> [] \<and> (\<forall>p \<in> set ps. name_part p) \<and> s = py_join ''-'' ps)"

lemma lower_char_idem: "lower_char (lower_char c) = lower_char c"
proof -
  have "of_char (lower_char c) < (256 :: nat)" by simp
  then show ?thesis
    by (auto simp: lower_char_def Let_def)
qed

lemma minus_not_alnum: "\<not> alnum_char (CHR ''-'')" "lower_char (CHR ''-'') = CHR ''-''"
  by (simp_all add: alnum_char_def lower_char_def Let_def)

lemma alnum_not_space: "alnum_char c \<Longrightarrow> \<not> py_isspace c"
  by (auto simp: alnum_char_def py_isspace_def Let_def)

lemma minus_not_space: "\<not> py_isspace (CHR ''-'')"
  by (simp add: py_isspace_def)

lemma split_join:
  assumes "ps \<noteq> []" and "\<forall>p \<in> set ps. c \<notin> set p"
  shows "py_split c (py_join [c] ps) = ps"
  using assms
proof (induction ps rule: induct_list012)
  case (3 p q ps)
  then show ?case using py_split_append [of c p "py_join [c] (q # ps)"] by simp
qed (simp_all add: py_split_no_sep_id)

lemma split_part_set: "p \<in> set (py_split c s) \<Longrightarrow> set p \<subseteq> set s"
  by (induction s arbitrary: p) (fastforce split: if_splits list.splits)+

lemma name_parts_part:
  assumes "p \<in> set (name_parts v)"
  shows "name_part p"
proof -
  let ?s = "map sanitize_char (py_lower (py_strip v))"
  have "p \<in> set (py_split (CHR ''-'') ?s)" "p \<noteq> []" using assms by (simp_all add: name_parts_def)
  then have p: "p \<noteq> []" "set p \<subseteq> set ?s" "CHR ''-'' \<notin> set p"
    using split_part_set py_split_no_sep by blast+
  have "alnum_char c \<and> lower_char c = c" if c: "c \<in> set p" for c
  proof -
    obtain d where "c = sanitize_char (lower_char d)"
      using subsetD [OF p(2) c] by (auto simp: py_lower_def)
    moreover have "c \<noteq> CHR ''-''" using c p(3) by auto
    ultimately show ?thesis by (auto simp: sanitize_char_def lower_char_idem split: if_splits)
  qed
  then show ?thesis using p(1) by (simp add: name_part_def)
qed

lemma dev_part: "name_part ''dev''"
  by (simp add: name_part_def alnum_char_def lower_char_def Let_def)

lemma py_join_empty: "\<forall>p \<in> set ps. p \<noteq> [] \<Longrightarrow> py_join sep ps = [] \<longleftrightarrow> ps = []"
  by (induction ps rule: induct_list012) simp_all

lemma normalize_parts:
  "normalize_environment_name v = (if name_parts v = [] then ''dev'' else py_join ''-'' (name_parts v))"
  using py_join_empty [of "name_parts v" "''-''"] by (simp add: normalize_environment_name_def name_parts_def)

lemma join_chars:
  assumes "\<forall>p \<in> set ps. name_part p" and "c \<in> set (py_join ''-'' ps)"
  shows "c = CHR ''-'' \<or> (alnum_char c \<and> lower_char c = c)"
  using assms by (induction ps rule: induct_list012) (auto simp: name_part_def)

lemma name_parts_join:
  assumes "ps \<noteq> []" and "\<forall>p \<in> set ps. name_part p"
  shows "name_parts (py_join ''-'' ps) = ps"
proof -
  let ?s = "py_join ''-'' ps"
  have c: "c = CHR ''-'' \<or> (alnum_char c \<and> lower_char c = c)" if "c \<in> set ?s" for c
    by (rule join_chars [OF assms(2) that])
  have "py_strip ?s = ?s"
    using c alnum_not_space minus_not_space by (intro py_strip_no_space) blast
  moreover have "py_lower ?s = ?s" unfolding py_lower_def
    using c minus_not_alnum by (intro map_idI) metis
  moreover have "map sanitize_char ?s = ?s"
    using c by (intro map_idI) (auto simp: sanitize_char_def)
  moreover have "py_split (CHR ''-'') ?s = ps"
    using assms minus_not_alnum by (intro split_join) (auto simp: name_part_def)
  moreover have "filter (\<lambda>p. p \<noteq> []) ps = ps"
    using assms(2) by (intro filter_True) (auto simp: name_part_def)
  ultimately show ?thesis by (simp add: name_parts_def)
qed

lemma normalize_ok: "environment_name_ok (normalize_environment_name v)"
proof (cases "name_parts v = []")
  case True
  then show ?thesis using dev_part
    by (auto simp: normalize_parts environment_name_ok_def intro!: exI [of _ "[''dev'']"])
next
  case False
  then show ?thesis using name_parts_part
    by (auto simp: normalize_parts environment_name_ok_def)
qed

lemma normalize_fixes: "environment_name_ok s \<Longrightarrow> normalize_environment_name s = s"
  using name_parts_join by (auto simp: environment_name_ok_def normalize_parts)

subsection \<open>Properties\<close>

text \<open>
  Whatever name the environment is given, the stack's is made of parts of lower-case
  letters and digits joined by single hyphens, and a name of that form is taken as it is; so
  normalising again, as the stack properties do with a default name, changes nothing.
\<close>

lemma environment_name_normalised:
  "environment_name_ok (normalize_environment_name v) \<and>
   (normalize_environment_name v = v \<longleftrightarrow> environment_name_ok v) \<and>
   normalize_environment_name (normalize_environment_name v) = normalize_environment_name v"
  using normalize_ok [of v] normalize_fixes by metis

text \<open>
  The database and the cache table are destroyed with the stack exactly when the name
  given has no letter or digit, or is \<open>dev\<close> but for case and separators; otherwise the database
  leaves a snapshot and a reader, and the table is retained.
\<close>

lemma data_destroyed_only_in_dev:
  "(let n = sp_naming (build_stack_props env name) in
     (database_removal_policy n = DESTROY \<longleftrightarrow> name_parts name = [] \<or> name_parts name = [''dev'']) \<and>
     (cache_table_removal_policy n = DESTROY \<longleftrightarrow> database_removal_policy n = DESTROY) \<and>
     (has_reader n \<longleftrightarrow> database_removal_policy n = SNAPSHOT))"
proof -
  have "py_join ''-'' (name_parts name) = ''dev'' \<longleftrightarrow> name_parts name = [''dev'']" if "name_parts name \<noteq> []"
    using name_parts_join [OF that] name_parts_part name_parts_join [of "[''dev'']"] dev_part by (metis list.distinct(1)
      list.set_cases list.set_sel(1) py_join.simps(2) set_ConsD)
  then show ?thesis
    by (auto simp: Let_def build_stack_props_def normalize_parts database_removal_policy_def
        cache_table_removal_policy_def has_reader_def is_ephemeral_environment_def)
qed

text \<open>
  The properties of every environment fit each other and the constructs: the log
  retentions are supported, the service's size lies within its scaling bounds, the balancer may
  reach the port the container listens on, the cache's time to live is the token service's
  default, and the stages of the two APIs differ.
\<close>

lemma stack_props_consistent:
  "(let p = build_stack_props env name in
     (\<exists>r. retention_days (ts_log_retention_days (sp_token_service p)) = Inr r) \<and>
     (\<exists>r. retention_days (ap_log_retention_days (sp_admin_api p)) = Inr r) \<and>
     (\<exists>r. retention_days (pr_log_retention_days (sp_proxy_runtime p)) = Inr r) \<and>
     pr_min_capacity (sp_proxy_runtime p) \<le> pr_desired_count (sp_proxy_runtime p) \<and>
     pr_desired_count (sp_proxy_runtime p) \<le> pr_max_capacity (sp_proxy_runtime p) \<and>
     can_connect (sp_network p) (Group Alb) RuntimeService (pr_container_port (sp_proxy_runtime p)) \<and>
     dp_cache_ttl_minutes (sp_data_plane p) * minute = DEFAULT_CACHE_TTL \<and>
     normalize_cache_ttl (dp_cache_ttl_minutes (sp_data_plane p) * minute) = DEFAULT_CACHE_TTL \<and>
     ts_stage_name (sp_token_service p) \<noteq> ap_stage_name (sp_admin_api p))"
  by (simp add: Let_def build_stack_props_def retention_days_def retention_mapping_def can_connect_def
      ingress_rules_def egress_rules_def DEFAULT_CACHE_TTL_def normalize_cache_ttl_def MAX_CACHE_TTL_def time_defs)

text \<open>
  The declared rules put the database behind the proxy runtime. A path of connections
  from outside that reaches it has gone through the load balancer, the runtime service and the
  database proxy; the token service's function accepts no connection, and from outside only the
  load balancer's port 443 can be reached.
\<close>

lemma database_behind_runtime:
  assumes "traffic cfg path" and "Group Aurora \<in> set path"
  shows "{Group Alb, Group RuntimeService, Group DatabaseProxy} \<subseteq> set path \<and>
    Group TokenServiceLambda \<notin> set path \<and>
    (\<forall>g port. can_connect cfg AnyIpv4 g port \<longrightarrow> g = Alb \<and> port = 443)"
  using traffic_invariant [OF assms(1)] assms(2) by (auto dest: can_connect_cases)

end
