(* ===== verification/SecurityGuards.thy ===== *)
theory SecurityGuards
  imports Prelude
begin

section \<open>Security guards (\<open>infra/aspects/security_guards.py\<close>)\<close>

text \<open>
  The aspect that visits every resource of the stack and adds an error for an insecure one. A
  resource is its CloudFormation class with the properties the aspect reads; a property is a
  Python value, where a configuration may be a dictionary with CloudFormation's keys or an object
  with attributes, or a token that is neither. What a visit does is the list of errors it adds.
\<close>

datatype PyValue =
    PyNone
  | PyBool bool
  | PyInt int
  | PyStr string
  | PyDict "(string \<times> PyValue) list"
  | PyObject "(string \<times> PyValue) list"

datatype CfnResource =
    CfnLogGroup (retention_in_days: PyValue)
  | CfnTable (sse_specification: PyValue)
  | CfnService (network_configuration: PyValue)
  | CfnDBCluster (storage_encrypted: PyValue)
  | CfnDBInstance (publicly_accessible: PyValue)
  | OtherConstruct

fun truthy :: "PyValue \<Rightarrow> bool" where
  "truthy PyNone = False"
| "truthy (PyBool b) = b"
| "truthy (PyInt n) = (n \<noteq> 0)"
| "truthy (PyStr s) = (s \<noteq> [])"
| "truthy (PyDict d) = (d \<noteq> [])"
| "truthy (PyObject attrs) = True"

definition or_else :: "PyValue \<Rightarrow> PyValue \<Rightarrow> PyValue" where
  "or_else a b = (if truthy a then a else b)"

definition key_of :: "(string \<times> PyValue) list \<Rightarrow> string \<Rightarrow> PyValue" where
  "key_of d k = (case map_of d k of None \<Rightarrow> PyNone | Some v \<Rightarrow> v)"

text \<open>\<open>getattr(value, name, None)\<close> of a value that is not a dictionary.\<close>

fun attr_of :: "PyValue \<Rightarrow> string \<Rightarrow> PyValue" where
  "attr_of (PyObject attrs) n = key_of attrs n"
| "attr_of v n = PyNone"

definition service_assign_public_ip :: "PyValue \<Rightarrow> PyValue" where
  "service_assign_public_ip configuration =
     (if configuration = PyNone then PyNone
      else
        let awsvpc = (case configuration of
              PyDict d \<Rightarrow> or_else (key_of d ''awsvpcConfiguration'') (key_of d ''AwsvpcConfiguration'')
            | v \<Rightarrow> attr_of v ''awsvpc_configuration'')
        in case awsvpc of
             PyNone \<Rightarrow> PyNone
           | PyDict d \<Rightarrow> or_else (key_of d ''assignPublicIp'') (key_of d ''AssignPublicIp'')
           | v \<Rightarrow> attr_of v ''assign_public_ip'')"

definition guard_log_group_retention :: "PyValue \<Rightarrow> string list" where
  "guard_log_group_retention retention =
     (if retention \<noteq> PyNone then []
      else [''Security guard: CloudWatch log groups must set retention_in_days.''])"

definition guard_table_encryption :: "PyValue \<Rightarrow> string list" where
  "guard_table_encryption sse =
     (let enabled = (case sse of PyDict d \<Rightarrow> key_of d ''sseEnabled'' | v \<Rightarrow> attr_of v ''sse_enabled'')
      in if enabled = PyBool True then []
         else [''Security guard: DynamoDB tables must enable server-side encryption.''])"

definition guard_service_networking :: "PyValue \<Rightarrow> string list" where
  "guard_service_networking configuration =
     (if service_assign_public_ip configuration = PyStr ''ENABLED''
      then [''Security guard: ECS services must not assign public IP addresses.''] else [])"

definition guard_cluster_encryption :: "PyValue \<Rightarrow> string list" where
  "guard_cluster_encryption encrypted =
     (if encrypted = PyBool False \<or> encrypted = PyNone
      then [''Security guard: RDS clusters must enable storage encryption.''] else [])"

definition guard_instance_networking :: "PyValue \<Rightarrow> string list" where
  "guard_instance_networking accessible =
     (if accessible = PyBool True
      then [''Security guard: RDS instances must not be publicly accessible.''] else [])"

fun visit :: "CfnResource \<Rightarrow> string list" where
  "visit (CfnLogGroup retention) = guard_log_group_retention retention"
| "visit (CfnTable sse) = guard_table_encryption sse"
| "visit (CfnService configuration) = guard_service_networking configuration"
| "visit (CfnDBCluster encrypted) = guard_cluster_encryption encrypted"
| "visit (CfnDBInstance accessible) = guard_instance_networking accessible"
| "visit OtherConstruct = []"

subsection \<open>What a service configuration says\<close>

text \<open>
  The two forms the configuration takes in a synthesised stack: the dictionary, with either
  spelling of each key, and the object. Whichever is used, a public address is noticed.
\<close>

inductive says_public_ip :: "PyValue \<Rightarrow> string \<Rightarrow> bool" where
  camel: "map_of d k = Some (PyDict vpc) \<Longrightarrow> k = ''awsvpcConfiguration'' \<or>
      k = ''AwsvpcConfiguration'' \<and> map_of d ''awsvpcConfiguration'' = None \<Longrightarrow>
    map_of vpc i = Some (PyStr ip) \<Longrightarrow> i = ''assignPublicIp'' \<or>
      i = ''AssignPublicIp'' \<and> map_of vpc ''assignPublicIp'' = None \<Longrightarrow>
    says_public_ip (PyDict d) ip"
| attributes: "map_of attrs ''awsvpc_configuration'' = Some (PyObject vpc) \<Longrightarrow>
    map_of vpc ''assign_public_ip'' = Some (PyStr ip) \<Longrightarrow> says_public_ip (PyObject attrs) ip"

lemma service_public_ip_found:
  assumes "says_public_ip configuration ip" and "ip \<noteq> []"
  shows "service_assign_public_ip configuration = PyStr ip"
  using assms
proof (cases rule: says_public_ip.cases)
  case (camel d k vpc i)
  have "vpc \<noteq> []" using camel(4) by auto
  then have "or_else (key_of d ''awsvpcConfiguration'') (key_of d ''AwsvpcConfiguration'') = PyDict vpc"
    using camel(2,3) by (auto simp: or_else_def key_of_def)
  moreover have "or_else (key_of vpc ''assignPublicIp'') (key_of vpc ''AssignPublicIp'') = PyStr ip"
    using camel(4,5) assms(2) by (auto simp: or_else_def key_of_def)
  ultimately show ?thesis using camel(1) by (simp add: service_assign_public_ip_def)
next
  case (attributes attrs vpc)
  then show ?thesis by (simp add: service_assign_public_ip_def key_of_def)
qed

text \<open>
  A service whose configuration assigns a public address is reported, whichever form
  and spelling the configuration uses, and one that assigns none is accepted.
\<close>

lemma public_service_reported:
  assumes "says_public_ip configuration ip" and "ip \<noteq> []"
  shows "visit (CfnService configuration) = [] \<longleftrightarrow> ip \<noteq> ''ENABLED''"
  using service_public_ip_found [OF assms] by (simp add: guard_service_networking_def)

text \<open>The guards fail closed for encryption and open for addresses: a token is reported or passes.\<close>

lemma guards_on_tokens:
  "guard_table_encryption (PyStr t) \<noteq> []" "guard_service_networking (PyStr t) = []"
  "guard_cluster_encryption (PyStr t) = []" "guard_instance_networking (PyStr t) = []"
  by (simp_all add: guard_table_encryption_def guard_service_networking_def guard_cluster_encryption_def
      guard_instance_networking_def service_assign_public_ip_def)

end
