(* ===== verification/Constructs.thy ===== *)
theory Constructs
  imports Deployment SecurityGuards
begin

section \<open>The stack (\<open>infra/stack.py\<close>, \<open>infra/constructs\<close>)\<close>

text \<open>
  What the constructs ask the CDK to create, as data. A resource is the class the code
  instantiates with the arguments it passes, at its path in the construct tree; a reference to
  another resource is that resource's path; a value known only after deployment is a \<open>CfnValue\<close>
  that names the resource it is read from. A construct takes the stack built so far and returns
  the stack with its resources, grants and outputs, or the exception its code raises. The CDK
  itself, its validation included, is outside the model. The inline code of the functions is
  given by what it computes.
\<close>

type_synonym path = "string list"

datatype CfnValue =
    Text string
  | TableNameOf path
  | ProxyEndpointOf path
  | SecretArnOf path
  | LoadBalancerArnOf path
  | DnsNameOf path
  | ListenerArnOf path
  | UrlForPath path string
  | Joined "CfnValue list"

datatype SubnetType = PUBLIC | PRIVATE_ISOLATED

record SubnetConfiguration =
  sn_name :: string
  sn_subnet_type :: SubnetType
  sn_cidr_mask :: int

record VpcProps =
  vp_cidr :: string
  vp_max_azs :: int
  vp_nat_gateways :: int
  vp_subnets :: "SubnetConfiguration list"

datatype AwsService =
    DYNAMODB | S3 | ECR | ECR_DOCKER | CLOUDWATCH_LOGS | STS | SECRETS_MANAGER | BEDROCK_RUNTIME

record DatabaseClusterProps =
  dc_engine_version :: string
  dc_default_database_name :: string
  dc_writer :: string
  dc_readers :: "(string \<times> bool) list" \<comment> \<open>identifier, scale with writer\<close>
  dc_min_capacity :: float64
  dc_max_capacity :: float64
  dc_generated_secret :: "string option" \<comment> \<open>the user the secret is generated for\<close>
  dc_vpc :: path
  dc_vpc_subnets :: SubnetType
  dc_security_groups :: "SecurityGroup list"
  dc_storage_encrypted :: bool
  dc_removal_policy :: RemovalPolicy

record DatabaseProxyProps =
  dx_target :: path
  dx_secrets :: "path list"
  dx_vpc :: path
  dx_vpc_subnets :: SubnetType
  dx_security_groups :: "SecurityGroup list"
  dx_require_tls :: bool
  dx_iam_auth :: bool

datatype TableEncryption = AWS_MANAGED | CUSTOMER_MANAGED | TABLE_DEFAULT

record TableProps =
  tb_pay_per_request :: bool
  tb_partition_key :: string
  tb_time_to_live_attribute :: string
  tb_encryption :: TableEncryption
  tb_removal_policy :: RemovalPolicy

datatype LambdaTracing = TRACING_ACTIVE | TRACING_DISABLED

datatype InlineCode = TokenServiceCode | AuthorizerCode | AdminCode

record FunctionProps =
  fn_runtime :: string
  fn_handler :: string
  fn_code :: InlineCode
  fn_description :: string
  fn_vpc :: "path option"
  fn_vpc_subnets :: "SubnetType option"
  fn_security_groups :: "SecurityGroup list option"
  fn_environment :: "(string, CfnValue) pydict"
  fn_log_group :: path
  fn_tracing :: LambdaTracing

record RequestAuthorizerProps =
  au_handler :: path
  au_identity_header :: string
  au_results_cache_ttl :: int

record RestApiProps =
  ra_endpoint_types :: "string list"
  ra_stage_name :: string
  ra_throttling_rate_limit :: float64
  ra_throttling_burst_limit :: int
  ra_access_log :: path
  ra_access_log_fields :: "string list"

datatype AuthorizationType = NO_AUTHORIZATION | IAM | CUSTOM

record MethodProps =
  me_api :: path
  me_resource_path :: string
  me_http_method :: string
  me_handler :: path
  me_authorization_type :: AuthorizationType
  me_authorizer :: "path option"

record ContainerProps =
  co_repository :: path
  co_tag :: string
  co_command :: "string list"
  co_port :: int \<comment> \<open>TCP\<close>
  co_stream_prefix :: string
  co_log_group :: path
  co_environment :: "(string, CfnValue) pydict"

record FargateServiceProps =
  fs_cluster :: path
  fs_task_definition :: path
  fs_desired_count :: int
  fs_assign_public_ip :: bool
  fs_security_groups :: "SecurityGroup list"
  fs_vpc_subnets :: SubnetType
  fs_rollback :: bool
  fs_min_healthy_percent :: int
  fs_max_healthy_percent :: int

record LoadBalancerProps =
  lb_vpc :: path
  lb_internet_facing :: bool
  lb_security_group :: SecurityGroup
  lb_vpc_subnets :: SubnetType
  lb_attributes :: "(string, string) pydict"

record ListenerProps =
  li_load_balancer :: path
  li_port :: int
  li_https :: bool
  li_certificates :: "path list"
  li_open :: bool
  li_target_groups :: "path list"

record TargetGroupProps =
  tg_vpc :: path
  tg_port :: int
  tg_targets :: "path list"
  tg_health_check_path :: string

datatype Resource =
    is_LogGroup: LogGroup RetentionDays
  | is_Vpc: Vpc VpcProps
  | is_SecurityGroupOf: SecurityGroupOf SecurityGroup path bool \<comment> \<open>VPC, allow all outbound\<close>
  | is_GatewayEndpoint: GatewayEndpoint AwsService SubnetType
  | is_InterfaceEndpoint: InterfaceEndpoint AwsService SubnetType bool \<comment> \<open>private DNS\<close>
  | is_DatabaseCluster: DatabaseCluster DatabaseClusterProps
  | is_RdsProxy: RdsProxy DatabaseProxyProps
  | is_Table: Table TableProps
  | is_LambdaFunction: LambdaFunction FunctionProps
  | is_RequestAuthorizer: RequestAuthorizer RequestAuthorizerProps
  | is_RestApi: RestApi RestApiProps
  | is_ApiMethod: ApiMethod MethodProps
  | is_Cluster: Cluster path bool \<comment> \<open>VPC, container insights\<close>
  | is_TaskDefinition: TaskDefinition int int \<comment> \<open>CPU, memory in MiB\<close>
  | is_Container: Container ContainerProps
  | is_FargateService: FargateService FargateServiceProps
  | is_LoadBalancer: LoadBalancer LoadBalancerProps
  | is_ImportedCertificate: ImportedCertificate string
  | is_Listener: Listener ListenerProps
  | is_TargetGroup: TargetGroup TargetGroupProps
  | is_WebACLAssociation: WebACLAssociation CfnValue string
  | is_ScalableTarget: ScalableTarget path int int \<comment> \<open>service, bounds\<close>
  | is_TargetTracking: TargetTracking path int \<comment> \<open>scalable target, CPU utilisation in percent\<close>
  | is_ImportedRepository: ImportedRepository string

datatype Grant =
    ReadWriteData path
  | ReadSecret path
  | PullImage path
  | Allow "string list" "string list" \<comment> \<open>actions, resources\<close>

record Stack =
  st_name :: string
  st_environment :: DeploymentEnvironment
  st_guarded :: bool \<comment> \<open>the aspect of \<open>SecurityGuards\<close> visits its resources\<close>
  st_resources :: "(path \<times> Resource) list"
  st_grants :: "(path \<times> Grant) list"
  st_outputs :: "(string \<times> CfnValue) list"

definition add_resources :: "(path \<times> Resource) list \<Rightarrow> Stack \<Rightarrow> Stack" where
  "add_resources rs st = st\<lparr>st_resources := st_resources st @ rs\<rparr>"

definition add_grants :: "(path \<times> Grant) list \<Rightarrow> Stack \<Rightarrow> Stack" where
  "add_grants gs st = st\<lparr>st_grants := st_grants st @ gs\<rparr>"

definition add_outputs :: "(string \<times> CfnValue) list \<Rightarrow> Stack \<Rightarrow> Stack" where
  "add_outputs vs st = st\<lparr>st_outputs := st_outputs st @ vs\<rparr>"

lemma stack_adds [simp]:
  "st_resources (add_resources rs st) = st_resources st @ rs" "st_grants (add_resources rs st) = st_grants st"
  "st_outputs (add_resources rs st) = st_outputs st" "st_resources (add_grants gs st) = st_resources st"
  "st_grants (add_grants gs st) = st_grants st @ gs" "st_outputs (add_grants gs st) = st_outputs st"
  "st_resources (add_outputs vs st) = st_resources st" "st_grants (add_outputs vs st) = st_grants st"
  "st_outputs (add_outputs vs st) = st_outputs st @ vs" "st_guarded (add_resources rs st) = st_guarded st"
  "st_guarded (add_grants gs st) = st_guarded st" "st_guarded (add_outputs vs st) = st_guarded st"
  by (simp_all add: add_resources_def add_grants_def add_outputs_def)

subsection \<open>Common parts (\<open>infra/constructs/common.py\<close>)\<close>

definition make_rest_api :: "path \<Rightarrow> string \<Rightarrow> float64 \<Rightarrow> int \<Rightarrow> Resource" where
  "make_rest_api log_group stage_name throttling_rate_limit throttling_burst_limit =
     RestApi \<lparr>ra_endpoint_types = [''REGIONAL''], ra_stage_name = stage_name, ra_throttling_rate_limit = throttling_rate_limit,
       ra_throttling_burst_limit = throttling_burst_limit, ra_access_log = log_group,
       ra_access_log_fields = [''caller'', ''http_method'', ''ip'', ''protocol'', ''request_time'', ''resource_path'',
         ''response_length'', ''status'', ''user'']\<rparr>"

definition make_lambda_log_group :: "int \<Rightarrow> Resource res" where
  "make_lambda_log_group log_retention_days =
     bindR (retention_days log_retention_days) (\<lambda>retention. Inr (LogGroup retention))"

definition lambda_observability_defaults :: "path \<Rightarrow> path \<times> LambdaTracing" where
  "lambda_observability_defaults log_group = (log_group, TRACING_DISABLED)"

subsection \<open>Network\<close>

text \<open>The rules of the security groups are \<open>ingress_rules\<close> and \<open>egress_rules\<close> of \<open>Deployment\<close>.\<close>

definition network_vpc :: "NetworkConfig \<Rightarrow> VpcProps" where
  "network_vpc cfg = \<lparr>vp_cidr = nw_vpc_cidr cfg, vp_max_azs = nw_max_azs cfg, vp_nat_gateways = 0,
     vp_subnets = [\<lparr>sn_name = ''Public'', sn_subnet_type = PUBLIC, sn_cidr_mask = 24\<rparr>,
       \<lparr>sn_name = ''Private'', sn_subnet_type = PRIVATE_ISOLATED, sn_cidr_mask = 24\<rparr>]\<rparr>"

definition network_security_groups :: "path \<Rightarrow> (path \<times> Resource) list" where
  "network_security_groups self = map (\<lambda>(i, g). (self @ [i], SecurityGroupOf g (self @ [''Vpc'']) (allow_all_outbound g)))
     [(''AlbSecurityGroup'', Alb), (''RuntimeServiceSecurityGroup'', RuntimeService),
      (''TokenServiceSecurityGroup'', TokenServiceLambda), (''DatabaseProxySecurityGroup'', DatabaseProxy),
      (''DatabaseSecurityGroup'', Aurora)]"

definition network_endpoints :: "path \<Rightarrow> (path \<times> Resource) list" where
  "network_endpoints self =
     map (\<lambda>(i, s). (self @ [''Vpc'', i], GatewayEndpoint s PRIVATE_ISOLATED))
       [(''DynamoDbEndpoint'', DYNAMODB), (''S3Endpoint'', S3)] @
     map (\<lambda>(i, s). (self @ [''Vpc'', i], InterfaceEndpoint s PRIVATE_ISOLATED True))
       [(''EcrApiEndpoint'', ECR), (''EcrDockerEndpoint'', ECR_DOCKER), (''CloudWatchLogsEndpoint'', CLOUDWATCH_LOGS),
        (''StsEndpoint'', STS), (''SecretsManagerEndpoint'', SECRETS_MANAGER),
        (''BedrockRuntimeEndpoint'', BEDROCK_RUNTIME)]"

definition network_construct :: "path \<Rightarrow> NetworkConfig \<Rightarrow> Stack \<Rightarrow> Stack res" where
  "network_construct self cfg st = Inr (add_resources
     ([(self @ [''Vpc''], Vpc (network_vpc cfg))] @ network_security_groups self @ network_endpoints self) st)"

subsection \<open>Data plane\<close>

text \<open>Credentials from a generated secret give the cluster one.\<close>

definition cluster_secret :: "path \<Rightarrow> DatabaseClusterProps \<Rightarrow> path option" where
  "cluster_secret cluster props = map_option (\<lambda>_. cluster @ [''Secret'']) (dc_generated_secret props)"

definition database_cluster :: "DataPlaneConfig \<Rightarrow> NamingConfig \<Rightarrow> path \<Rightarrow> DatabaseClusterProps" where
  "database_cluster cfg naming network =
     \<lparr>dc_engine_version = ''16.4'', dc_default_database_name = dp_database_name cfg, dc_writer = ''writer'',
      dc_readers = (if has_reader naming then [(''reader'', True)] else []),
      dc_min_capacity = dp_min_acu cfg, dc_max_capacity = dp_max_acu cfg,
      dc_generated_secret = Some ''proxyapp'', dc_vpc = network @ [''Vpc''], dc_vpc_subnets = PRIVATE_ISOLATED,
      dc_security_groups = [Aurora], dc_storage_encrypted = True,
      dc_removal_policy = database_removal_policy naming\<rparr>"

definition database_proxy :: "path \<Rightarrow> path \<Rightarrow> path \<Rightarrow> DatabaseProxyProps" where
  "database_proxy cluster secret network =
     \<lparr>dx_target = cluster, dx_secrets = [secret], dx_vpc = network @ [''Vpc''], dx_vpc_subnets = PRIVATE_ISOLATED,
      dx_security_groups = [DatabaseProxy], dx_require_tls = True, dx_iam_auth = False\<rparr>"

definition cache_table :: "NamingConfig \<Rightarrow> TableProps" where
  "cache_table naming = \<lparr>tb_pay_per_request = True, tb_partition_key = ''user_id'',
     tb_time_to_live_attribute = ''ttl'', tb_encryption = AWS_MANAGED,
     tb_removal_policy = cache_table_removal_policy naming\<rparr>"

definition data_plane_construct ::
    "path \<Rightarrow> DataPlaneConfig \<Rightarrow> NamingConfig \<Rightarrow> path \<Rightarrow> Stack \<Rightarrow> Stack res" where
  "data_plane_construct self cfg naming network st =
     (let cluster = database_cluster cfg naming network;
          st = add_resources [(self @ [''AuroraCluster''], DatabaseCluster cluster)] st
      in case cluster_secret (self @ [''AuroraCluster'']) cluster of
           None \<Rightarrow> Inl value_error
         | Some secret \<Rightarrow> Inr (add_resources
             [(self @ [''AuroraProxy''], RdsProxy (database_proxy (self @ [''AuroraCluster'']) secret network)),
              (self @ [''VirtualKeyCache''], Table (cache_table naming))] st))"

definition data_plane_env_vars :: "path \<Rightarrow> (string, CfnValue) pydict" where
  "data_plane_env_vars data_plane =
     [(''VIRTUAL_KEY_CACHE_TABLE'', TableNameOf (data_plane @ [''VirtualKeyCache''])),
      (''DB_PROXY_ENDPOINT'', ProxyEndpointOf (data_plane @ [''AuroraProxy''])),
      (''DB_SECRET_ARN'', SecretArnOf (data_plane @ [''AuroraCluster'', ''Secret'']))]"

definition grant_access :: "path \<Rightarrow> path \<Rightarrow> Stack \<Rightarrow> Stack" where
  "grant_access data_plane grantee = add_grants
     [(grantee, ReadWriteData (data_plane @ [''VirtualKeyCache''])),
      (grantee, ReadSecret (data_plane @ [''AuroraCluster'', ''Secret'']))]"

subsection \<open>Inline code\<close>

definition service_ok :: "string \<Rightarrow> json" where
  "service_ok service = JObj [(''statusCode'', JInt 200),
     (''body'', JStr (json_dumps (JObj [(''status'', JStr ''ok''), (''service'', JStr service)])))]"

fun run_inline :: "InlineCode \<Rightarrow> json \<Rightarrow> json res" where
  "run_inline TokenServiceCode event = Inr (service_ok ''token-service'')"
| "run_inline AdminCode event = Inr (service_ok ''admin-api'')"
| "run_inline AuthorizerCode event = bindR (py_getitem event ''methodArn'') (\<lambda>method_arn. Inr (JObj
     [(''principalId'', JStr ''token-service-authorizer''),
      (''policyDocument'', JObj [(''Version'', JStr ''2012-10-17''),
         (''Statement'', JList [JObj [(''Action'', JStr ''execute-api:Invoke''), (''Effect'', JStr ''Allow''),
            (''Resource'', method_arn)]])])]))"

subsection \<open>Token service\<close>

definition token_service_environment :: "path option \<Rightarrow> (string, CfnValue) pydict" where
  "token_service_environment data_plane = (case data_plane of None \<Rightarrow> [] | Some d \<Rightarrow> data_plane_env_vars d)"

definition token_service_function :: "path \<Rightarrow> path option \<Rightarrow> path option \<Rightarrow> FunctionProps" where
  "token_service_function log_group network data_plane =
     (case lambda_observability_defaults log_group of (logs, tracing) \<Rightarrow>
       \<lparr>fn_runtime = ''python3.12'', fn_handler = ''index.handler'', fn_code = TokenServiceCode, fn_description = ''token service request handler'',
        fn_vpc = map_option (\<lambda>n. n @ [''Vpc'']) network,
        fn_vpc_subnets = map_option (\<lambda>_. PRIVATE_ISOLATED) network,
        fn_security_groups = map_option (\<lambda>_. [TokenServiceLambda]) network,
        fn_environment = token_service_environment data_plane, fn_log_group = logs, fn_tracing = tracing\<rparr>)"

definition authorizer_function :: "path \<Rightarrow> FunctionProps" where
  "authorizer_function log_group =
     (case lambda_observability_defaults log_group of (logs, tracing) \<Rightarrow>
       \<lparr>fn_runtime = ''python3.12'', fn_handler = ''index.handler'', fn_code = AuthorizerCode, fn_description = ''token service request authorizer'',
        fn_vpc = None, fn_vpc_subnets = None, fn_security_groups = None, fn_environment = [],
        fn_log_group = logs, fn_tracing = tracing\<rparr>)"

definition token_service_authorizer :: "path \<Rightarrow> OptionalAuthorizerConfig \<Rightarrow> RequestAuthorizerProps" where
  "token_service_authorizer self cfg = \<lparr>au_handler = self @ [''RequestAuthorizerHandler''],
     au_identity_header = oa_identity_header cfg, au_results_cache_ttl = oa_results_cache_ttl_seconds cfg\<rparr>"

definition add_authorizer :: "path \<Rightarrow> TokenServiceConfig \<Rightarrow> Stack \<Rightarrow> (path option \<times> Stack) res" where
  "add_authorizer self cfg st =
     (if oa_enabled (ts_authorizer cfg)
      then bindR (make_lambda_log_group (ts_log_retention_days cfg)) (\<lambda>authorizer_log_group.
        Inr (Some (self @ [''RequestAuthorizer'']), add_resources
          [(self @ [''AuthorizerLogGroup''], authorizer_log_group),
           (self @ [''RequestAuthorizerHandler''], LambdaFunction (authorizer_function (self @ [''AuthorizerLogGroup'']))),
           (self @ [''RequestAuthorizer''], RequestAuthorizer (token_service_authorizer self (ts_authorizer cfg)))] st))
      else Inr (None, st))"

definition token_service_method :: "path \<Rightarrow> path option \<Rightarrow> MethodProps" where
  "token_service_method self authorizer =
     \<lparr>me_api = self @ [''Api''], me_resource_path = ''/token-service/get-or-create-key'', me_http_method = ''POST'',
      me_handler = self @ [''Handler''],
      me_authorization_type = (if authorizer \<noteq> None then CUSTOM else IAM), me_authorizer = authorizer\<rparr>"

definition token_service_construct ::
    "path \<Rightarrow> TokenServiceConfig \<Rightarrow> path option \<Rightarrow> path option \<Rightarrow> Stack \<Rightarrow> Stack res" where
  "token_service_construct self cfg network data_plane st =
     bindR (retention_days (ts_log_retention_days cfg)) (\<lambda>retention.
     bindR (make_lambda_log_group (ts_log_retention_days cfg)) (\<lambda>handler_log_group.
       let st = add_resources
            [(self @ [''AccessLogs''], LogGroup retention),
             (self @ [''HandlerLogGroup''], handler_log_group),
             (self @ [''Handler''],
              LambdaFunction (token_service_function (self @ [''HandlerLogGroup'']) network data_plane))] st
       in
     bindR (add_authorizer self cfg st) (\<lambda>(authorizer, st).
       let st = add_resources
            [(self @ [''Api''], make_rest_api (self @ [''AccessLogs'']) (ts_stage_name cfg)
                (ts_throttling_rate_limit cfg) (ts_throttling_burst_limit cfg)),
             (self @ [''Api'', ''Default'', ''token-service'', ''get-or-create-key'', ''POST''],
              ApiMethod (token_service_method self authorizer))] st;
           st = add_outputs [(''TokenServiceEndpointUrl'',
             UrlForPath (self @ [''Api'']) ''/token-service/get-or-create-key'')] st
       in Inr (case data_plane of None \<Rightarrow> st | Some d \<Rightarrow> grant_access d (self @ [''Handler'']) st))))"

subsection \<open>Admin API\<close>

definition admin_function :: "path \<Rightarrow> FunctionProps" where
  "admin_function log_group =
     (case lambda_observability_defaults log_group of (logs, tracing) \<Rightarrow>
       \<lparr>fn_runtime = ''python3.12'', fn_handler = ''index.handler'', fn_code = AdminCode, fn_description = ''admin api request handler'',
        fn_vpc = None, fn_vpc_subnets = None, fn_security_groups = None, fn_environment = [],
        fn_log_group = logs, fn_tracing = tracing\<rparr>)"

definition admin_method :: "path \<Rightarrow> MethodProps" where
  "admin_method self = \<lparr>me_api = self @ [''Api''], me_resource_path = ''/admin/users'', me_http_method = ''GET'',
     me_handler = self @ [''Handler''], me_authorization_type = IAM, me_authorizer = None\<rparr>"

definition admin_api_construct :: "path \<Rightarrow> AdminApiConfig \<Rightarrow> Stack \<Rightarrow> Stack res" where
  "admin_api_construct self cfg st =
     bindR (retention_days (ap_log_retention_days cfg)) (\<lambda>retention.
     bindR (make_lambda_log_group (ap_log_retention_days cfg)) (\<lambda>handler_log_group.
       Inr (add_resources
         [(self @ [''AccessLogs''], LogGroup retention),
          (self @ [''HandlerLogGroup''], handler_log_group),
          (self @ [''Handler''], LambdaFunction (admin_function (self @ [''HandlerLogGroup'']))),
          (self @ [''Api''], make_rest_api (self @ [''AccessLogs'']) (ap_stage_name cfg)
             (ap_throttling_rate_limit cfg) (ap_throttling_burst_limit cfg)),
          (self @ [''Api'', ''Default'', ''admin'', ''users'', ''GET''], ApiMethod (admin_method self))] st)))"

subsection \<open>Proxy runtime\<close>

definition anthropic_bedrock_resources :: "string \<Rightarrow> string \<Rightarrow> string list" where
  "anthropic_bedrock_resources aws_partition account =
     [''arn:'' @ aws_partition @ '':bedrock:*::foundation-model/anthropic.*'',
      ''arn:'' @ aws_partition @ '':bedrock:*::foundation-model/*.anthropic.*'',
      ''arn:'' @ aws_partition @ '':bedrock:*:'' @ account @ '':inference-profile/anthropic.*'',
      ''arn:'' @ aws_partition @ '':bedrock:*:'' @ account @ '':inference-profile/*.anthropic.*'']"

definition proxy_container :: "path \<Rightarrow> ProxyRuntimeConfig \<Rightarrow> path \<Rightarrow> ContainerProps" where
  "proxy_container self cfg data_plane =
     \<lparr>co_repository = self @ [''RuntimeImageRepository''], co_tag = pr_image_tag cfg,
      co_command = [''python'', ''-m'', ''http.server'', py_str_int (pr_container_port cfg)],
      co_port = pr_container_port cfg, co_stream_prefix = ''proxy-runtime'',
      co_log_group = self @ [''RuntimeLogs''],
      co_environment = (''PORT'', Text (py_str_int (pr_container_port cfg))) # data_plane_env_vars data_plane\<rparr>"

definition proxy_service :: "path \<Rightarrow> ProxyRuntimeConfig \<Rightarrow> FargateServiceProps" where
  "proxy_service self cfg =
     \<lparr>fs_cluster = self @ [''Cluster''], fs_task_definition = self @ [''TaskDefinition''],
      fs_desired_count = pr_desired_count cfg, fs_assign_public_ip = False,
      fs_security_groups = [RuntimeService], fs_vpc_subnets = PRIVATE_ISOLATED, fs_rollback = True,
      fs_min_healthy_percent = 100, fs_max_healthy_percent = 200\<rparr>"

definition proxy_load_balancer :: "ProxyRuntimeConfig \<Rightarrow> path \<Rightarrow> LoadBalancerProps" where
  "proxy_load_balancer cfg network =
     \<lparr>lb_vpc = network @ [''Vpc''], lb_internet_facing = True, lb_security_group = Alb, lb_vpc_subnets = PUBLIC,
      lb_attributes = [(''idle_timeout.timeout_seconds'', py_str_int (pr_idle_timeout_seconds cfg))]\<rparr>"

definition proxy_listener :: "path \<Rightarrow> ListenerProps" where
  "proxy_listener self =
     \<lparr>li_load_balancer = self @ [''LoadBalancer''], li_port = 443, li_https = True,
      li_certificates = [self @ [''RuntimeCertificate'']], li_open = False,
      li_target_groups = [self @ [''TargetGroup'']]\<rparr>"

definition proxy_target_group :: "path \<Rightarrow> ProxyRuntimeConfig \<Rightarrow> path \<Rightarrow> TargetGroupProps" where
  "proxy_target_group self cfg network =
     \<lparr>tg_vpc = network @ [''Vpc''], tg_port = pr_container_port cfg, tg_targets = [self @ [''Service'']],
      tg_health_check_path = pr_health_check_path cfg\<rparr>"

definition proxy_runtime_construct ::
    "string \<Rightarrow> string \<Rightarrow> path \<Rightarrow> ProxyRuntimeConfig \<Rightarrow> path \<Rightarrow> path \<Rightarrow> Stack \<Rightarrow> Stack res" where
  "proxy_runtime_construct aws_partition account self cfg network data_plane st =
     bindR (retention_days (pr_log_retention_days cfg)) (\<lambda>retention.
       let td = self @ [''TaskDefinition''];
           st = add_resources
             [(self @ [''RuntimeLogs''], LogGroup retention),
              (self @ [''Cluster''], Cluster (network @ [''Vpc'']) True),
              (td, TaskDefinition (pr_cpu cfg) (pr_memory_mib cfg)),
              (self @ [''RuntimeImageRepository''], ImportedRepository (pr_image_repository_name cfg))] st;
           st = add_grants [(td @ [''ExecutionRole''], PullImage (self @ [''RuntimeImageRepository'']))] st;
           st = add_resources [(td @ [''ProxyContainer''], Container (proxy_container self cfg data_plane))] st;
           st = grant_access data_plane (td @ [''TaskRole'']) st;
           st = add_grants [(td @ [''TaskRole''],
             Allow [''bedrock:Converse'', ''bedrock:ConverseStream''] (anthropic_bedrock_resources aws_partition account))] st;
           st = add_resources
             [(self @ [''Service''], FargateService (proxy_service self cfg)),
              (self @ [''LoadBalancer''], LoadBalancer (proxy_load_balancer cfg network)),
              (self @ [''RuntimeCertificate''], ImportedCertificate (pr_certificate_arn cfg)),
              (self @ [''LoadBalancer'', ''HttpsListener''], Listener (proxy_listener self)),
              (self @ [''TargetGroup''], TargetGroup (proxy_target_group self cfg network)),
              (self @ [''WebAclAssociation''],
               WebACLAssociation (LoadBalancerArnOf (self @ [''LoadBalancer''])) (pr_waf_arn cfg)),
              (self @ [''Service'', ''TaskCount''],
               ScalableTarget (self @ [''Service'']) (pr_min_capacity cfg) (pr_max_capacity cfg)),
              (self @ [''Service'', ''TaskCount'', ''CpuTargetTracking''],
               TargetTracking (self @ [''Service'', ''TaskCount'']) 60)] st
       in Inr (add_outputs
         [(''RuntimeEndpointUrl'', Joined [Text ''https://'', DnsNameOf (self @ [''LoadBalancer''])]),
          (''RuntimeAlbDnsName'', DnsNameOf (self @ [''LoadBalancer''])),
          (''RuntimeHttpsListenerArn'', ListenerArnOf (self @ [''LoadBalancer'', ''HttpsListener'']))] st))"

subsection \<open>The stack\<close>

text \<open>The partition is known when the template is deployed; the account is the stack's.\<close>

definition claude_code_proxy_stack :: "string \<Rightarrow> StackProps \<Rightarrow> Stack res" where
  "claude_code_proxy_stack aws_partition props =
     (let network = [''Network'']; data_plane = [''DataPlane''];
          st = \<lparr>st_name = stack_name (sp_naming props), st_environment = sp_deployment_environment props,
            st_guarded = True, st_resources = [], st_grants = [], st_outputs = []\<rparr> in
      bindR (network_construct network (sp_network props) st) (\<lambda>st.
      bindR (data_plane_construct data_plane (sp_data_plane props) (sp_naming props) network st) (\<lambda>st.
      bindR (token_service_construct [''TokenService''] (sp_token_service props) (Some network) (Some data_plane) st) (\<lambda>st.
      bindR (admin_api_construct [''AdminApi''] (sp_admin_api props) st) (\<lambda>st.
        proxy_runtime_construct aws_partition (de_account (sp_deployment_environment props)) [''ProxyRuntime'']
          (sp_proxy_runtime props) network data_plane st)))))"

definition create_stack :: "string \<Rightarrow> StackProps \<Rightarrow> Stack res" where
  [simp]: "create_stack aws_partition props = claude_code_proxy_stack aws_partition props"

definition build_cdk_app :: "environ \<Rightarrow> json \<Rightarrow> string \<Rightarrow> string option \<Rightarrow> Stack res" where
  "build_cdk_app env context_name aws_partition environment_name =
     create_stack aws_partition (build_stack_props env (resolve_environment_name env context_name environment_name))"

end
