(* ===== verification/StackProperties.thy ===== *)
theory StackProperties
  imports Constructs Fnmatch
begin

section \<open>What every stack has\<close>

text \<open>
  The stack as one list of resources, when it can be built, and what holds of it: its references,
  its methods, its guards, the permissions it grants and the connections its functions and tasks
  rely on.
\<close>

subsection \<open>The stack, spelled out\<close>

definition stack_authorizer :: "StackProps \<Rightarrow> path option" where
  "stack_authorizer props =
     (if oa_enabled (ts_authorizer (sp_token_service props)) then Some [''TokenService'', ''RequestAuthorizer''] else None)"

definition token_service_resources :: "StackProps \<Rightarrow> RetentionDays \<Rightarrow> (path \<times> Resource) list" where
  "token_service_resources props retention =
     [([''TokenService'', ''AccessLogs''], LogGroup retention),
      ([''TokenService'', ''HandlerLogGroup''], LogGroup retention),
      ([''TokenService'', ''Handler''], LambdaFunction (token_service_function [''TokenService'', ''HandlerLogGroup'']
         (Some [''Network'']) (Some [''DataPlane''])))] @
     (if oa_enabled (ts_authorizer (sp_token_service props))
      then [([''TokenService'', ''AuthorizerLogGroup''], LogGroup retention),
        ([''TokenService'', ''RequestAuthorizerHandler''],
         LambdaFunction (authorizer_function [''TokenService'', ''AuthorizerLogGroup''])),
        ([''TokenService'', ''RequestAuthorizer''], RequestAuthorizer
          (token_service_authorizer [''TokenService''] (ts_authorizer (sp_token_service props))))] else []) @
     [([''TokenService'', ''Api''], make_rest_api [''TokenService'', ''AccessLogs'']
         (ts_stage_name (sp_token_service props)) (ts_throttling_rate_limit (sp_token_service props))
         (ts_throttling_burst_limit (sp_token_service props))),
      ([''TokenService'', ''Api'', ''Default'', ''token-service'', ''get-or-create-key'', ''POST''],
       ApiMethod (token_service_method [''TokenService''] (stack_authorizer props)))]"

definition admin_api_resources :: "StackProps \<Rightarrow> RetentionDays \<Rightarrow> (path \<times> Resource) list" where
  "admin_api_resources props retention =
     [([''AdminApi'', ''AccessLogs''], LogGroup retention),
      ([''AdminApi'', ''HandlerLogGroup''], LogGroup retention),
      ([''AdminApi'', ''Handler''], LambdaFunction (admin_function [''AdminApi'', ''HandlerLogGroup''])),
      ([''AdminApi'', ''Api''], make_rest_api [''AdminApi'', ''AccessLogs''] (ap_stage_name (sp_admin_api props))
         (ap_throttling_rate_limit (sp_admin_api props)) (ap_throttling_burst_limit (sp_admin_api props))),
      ([''AdminApi'', ''Api'', ''Default'', ''admin'', ''users'', ''GET''], ApiMethod (admin_method [''AdminApi'']))]"

definition proxy_runtime_resources :: "StackProps \<Rightarrow> RetentionDays \<Rightarrow> (path \<times> Resource) list" where
  "proxy_runtime_resources props retention =
     (let cfg = sp_proxy_runtime props in
     [([''ProxyRuntime'', ''RuntimeLogs''], LogGroup retention),
      ([''ProxyRuntime'', ''Cluster''], Cluster [''Network'', ''Vpc''] True),
      ([''ProxyRuntime'', ''TaskDefinition''], TaskDefinition (pr_cpu cfg) (pr_memory_mib cfg)),
      ([''ProxyRuntime'', ''RuntimeImageRepository''], ImportedRepository (pr_image_repository_name cfg)),
      ([''ProxyRuntime'', ''TaskDefinition'', ''ProxyContainer''],
       Container (proxy_container [''ProxyRuntime''] cfg [''DataPlane''])),
      ([''ProxyRuntime'', ''Service''], FargateService (proxy_service [''ProxyRuntime''] cfg)),
      ([''ProxyRuntime'', ''LoadBalancer''], LoadBalancer (proxy_load_balancer cfg [''Network''])),
      ([''ProxyRuntime'', ''RuntimeCertificate''], ImportedCertificate (pr_certificate_arn cfg)),
      ([''ProxyRuntime'', ''LoadBalancer'', ''HttpsListener''], Listener (proxy_listener [''ProxyRuntime''])),
      ([''ProxyRuntime'', ''TargetGroup''], TargetGroup (proxy_target_group [''ProxyRuntime''] cfg [''Network''])),
      ([''ProxyRuntime'', ''WebAclAssociation''],
       WebACLAssociation (LoadBalancerArnOf [''ProxyRuntime'', ''LoadBalancer'']) (pr_waf_arn cfg)),
      ([''ProxyRuntime'', ''Service'', ''TaskCount''],
       ScalableTarget [''ProxyRuntime'', ''Service''] (pr_min_capacity cfg) (pr_max_capacity cfg)),
      ([''ProxyRuntime'', ''Service'', ''TaskCount'', ''CpuTargetTracking''],
       TargetTracking [''ProxyRuntime'', ''Service'', ''TaskCount''] 60)])"

definition data_plane_resources :: "StackProps \<Rightarrow> (path \<times> Resource) list" where
  "data_plane_resources props =
     [([''DataPlane'', ''AuroraCluster''],
       DatabaseCluster (database_cluster (sp_data_plane props) (sp_naming props) [''Network''])),
      ([''DataPlane'', ''AuroraProxy''], RdsProxy (database_proxy [''DataPlane'', ''AuroraCluster'']
         [''DataPlane'', ''AuroraCluster'', ''Secret''] [''Network''])),
      ([''DataPlane'', ''VirtualKeyCache''], Table (cache_table (sp_naming props)))]"

definition stack_resources ::
    "StackProps \<Rightarrow> RetentionDays \<Rightarrow> RetentionDays \<Rightarrow> RetentionDays \<Rightarrow> (path \<times> Resource) list" where
  "stack_resources props rt ra rp =
     [([''Network'', ''Vpc''], Vpc (network_vpc (sp_network props)))] @ network_security_groups [''Network''] @
     network_endpoints [''Network''] @ data_plane_resources props @ token_service_resources props rt @
     admin_api_resources props ra @ proxy_runtime_resources props rp"

definition stack_grants :: "string \<Rightarrow> StackProps \<Rightarrow> (path \<times> Grant) list" where
  "stack_grants aws_partition props =
     [([''TokenService'', ''Handler''], ReadWriteData [''DataPlane'', ''VirtualKeyCache'']),
      ([''TokenService'', ''Handler''], ReadSecret [''DataPlane'', ''AuroraCluster'', ''Secret'']),
      ([''ProxyRuntime'', ''TaskDefinition'', ''ExecutionRole''],
       PullImage [''ProxyRuntime'', ''RuntimeImageRepository'']),
      ([''ProxyRuntime'', ''TaskDefinition'', ''TaskRole''], ReadWriteData [''DataPlane'', ''VirtualKeyCache'']),
      ([''ProxyRuntime'', ''TaskDefinition'', ''TaskRole''],
       ReadSecret [''DataPlane'', ''AuroraCluster'', ''Secret'']),
      ([''ProxyRuntime'', ''TaskDefinition'', ''TaskRole''],
       Allow [''bedrock:Converse'', ''bedrock:ConverseStream'']
         (anthropic_bedrock_resources aws_partition (de_account (sp_deployment_environment props))))]"

lemmas construct_defs = network_construct_def data_plane_construct_def token_service_construct_def
  add_authorizer_def admin_api_construct_def proxy_runtime_construct_def make_lambda_log_group_def
  cluster_secret_def grant_access_def

lemmas part_defs = data_plane_resources_def token_service_resources_def admin_api_resources_def
  proxy_runtime_resources_def stack_authorizer_def

lemma stack_built:
  assumes "retention_days (ts_log_retention_days (sp_token_service props)) = Inr rt"
    and "retention_days (ap_log_retention_days (sp_admin_api props)) = Inr ra"
    and "retention_days (pr_log_retention_days (sp_proxy_runtime props)) = Inr rp"
  shows "\<exists>st. claude_code_proxy_stack aws_partition props = Inr st \<and>
    st_resources st = stack_resources props rt ra rp \<and> st_grants st = stack_grants aws_partition props \<and>
    st_guarded st"
proof -
  have g: "dc_generated_secret (database_cluster cfg naming network) = Some ''proxyapp''" for cfg naming network
    by (simp add: database_cluster_def)
  show ?thesis
    by (cases "oa_enabled (ts_authorizer (sp_token_service props))")
      (simp_all add: claude_code_proxy_stack_def construct_defs assms g Let_def stack_resources_def part_defs
        stack_grants_def)
qed

lemma stack_refused:
  assumes "retention_days (ts_log_retention_days (sp_token_service props)) = Inl e \<or>
    retention_days (ap_log_retention_days (sp_admin_api props)) = Inl e \<or>
    retention_days (pr_log_retention_days (sp_proxy_runtime props)) = Inl e"
  shows "claude_code_proxy_stack aws_partition props = Inl value_error"
proof -
  have g: "dc_generated_secret (database_cluster cfg naming network) = Some ''proxyapp''" for cfg naming network
    by (simp add: database_cluster_def)
  have v: "e = value_error" if "retention_days n = Inl e" for n e
    using that by (simp add: retention_days_def split: option.splits)
  show ?thesis
    using assms v
    by (cases "retention_days (ts_log_retention_days (sp_token_service props))";
        cases "retention_days (ap_log_retention_days (sp_admin_api props))";
        cases "oa_enabled (ts_authorizer (sp_token_service props))")
      (auto simp: claude_code_proxy_stack_def construct_defs g Let_def)
qed

lemma stack_cases:
  assumes "claude_code_proxy_stack aws_partition props = Inr st"
  obtains rt ra rp where "st_resources st = stack_resources props rt ra rp"
    and "st_grants st = stack_grants aws_partition props" and "st_guarded st"
proof -
  let ?t = "retention_days (ts_log_retention_days (sp_token_service props))"
  let ?a = "retention_days (ap_log_retention_days (sp_admin_api props))"
  let ?p = "retention_days (pr_log_retention_days (sp_proxy_runtime props))"
  obtain rt ra rp where "?t = Inr rt" "?a = Inr ra" "?p = Inr rp"
    using stack_refused [of props _ aws_partition] assms by (cases ?t; cases ?a; cases ?p) auto
  from stack_built [OF this, of aws_partition] that assms show ?thesis by auto
qed

subsection \<open>When the stack can be built\<close>

definition supported_retention :: "int \<Rightarrow> bool" where
  "supported_retention n \<longleftrightarrow> n \<in> {7, 14, 30, 60, 90, 120, 180, 365}"

lemma retention_days_supported: "supported_retention n \<longleftrightarrow> (\<exists>r. retention_days n = Inr r)"
  by (auto simp: supported_retention_def retention_days_def retention_mapping_def)

lemma retention_days_unsupported: "\<not> supported_retention n \<Longrightarrow> retention_days n = Inl value_error"
  by (auto simp: supported_retention_def retention_days_def retention_mapping_def)

text \<open>
  The constructs raise for no other reason than a log retention that CloudWatch does
  not support, and then always: the stack of any properties is built exactly if the three
  retentions are supported, and every environment's is.
\<close>

lemma stack_built_iff_retention_supported:
  "(if supported_retention (ts_log_retention_days (sp_token_service props)) \<and>
       supported_retention (ap_log_retention_days (sp_admin_api props)) \<and>
       supported_retention (pr_log_retention_days (sp_proxy_runtime props))
    then \<exists>st. claude_code_proxy_stack aws_partition props = Inr st
    else claude_code_proxy_stack aws_partition props = Inl value_error) \<and>
   (\<exists>st. build_cdk_app env context_name aws_partition environment_name = Inr st)"
proof -
  have "\<exists>st. claude_code_proxy_stack aws_partition p = Inr st"
    if "supported_retention (ts_log_retention_days (sp_token_service p))"
      "supported_retention (ap_log_retention_days (sp_admin_api p))"
      "supported_retention (pr_log_retention_days (sp_proxy_runtime p))" for p
    using that stack_built [of p _ _ _ aws_partition] unfolding retention_days_supported by blast
  moreover have "supported_retention (ts_log_retention_days (sp_token_service (build_stack_props env n)))"
    "supported_retention (ap_log_retention_days (sp_admin_api (build_stack_props env n)))"
    "supported_retention (pr_log_retention_days (sp_proxy_runtime (build_stack_props env n)))" for n
    by (simp_all add: build_stack_props_def Let_def supported_retention_def)
  ultimately show ?thesis
    using stack_refused [of props value_error aws_partition] retention_days_unsupported
    by (auto simp: build_cdk_app_def)
qed

subsection \<open>References\<close>

text \<open>
  The CDK wants names that are unique within their scope, and a reference to a construct that
  exists and has the class the parameter asks for.
\<close>

definition is_at :: "(path \<times> Resource) list \<Rightarrow> (Resource \<Rightarrow> bool) \<Rightarrow> path \<Rightarrow> bool" where
  "is_at rs cls p = (case map_of rs p of None \<Rightarrow> False | Some r \<Rightarrow> cls r)"

fun value_ok :: "(path \<times> Resource) list \<Rightarrow> CfnValue \<Rightarrow> bool" where
  "value_ok rs (Text t) = True"
| "value_ok rs (TableNameOf p) = is_at rs is_Table p"
| "value_ok rs (ProxyEndpointOf p) = is_at rs is_RdsProxy p"
| "value_ok rs (SecretArnOf p) = (p \<noteq> [] \<and> is_at rs is_DatabaseCluster (butlast p) \<and> last p = ''Secret'')"
| "value_ok rs (LoadBalancerArnOf p) = is_at rs is_LoadBalancer p"
| "value_ok rs (DnsNameOf p) = is_at rs is_LoadBalancer p"
| "value_ok rs (ListenerArnOf p) = is_at rs is_Listener p"
| "value_ok rs (UrlForPath p s) = is_at rs is_RestApi p"
| "value_ok rs (Joined vs) = list_all (value_ok rs) vs"

definition group_declared :: "(path \<times> Resource) list \<Rightarrow> SecurityGroup \<Rightarrow> bool" where
  "group_declared rs g \<longleftrightarrow> list_ex (\<lambda>(p, r). case r of SecurityGroupOf h vpc out \<Rightarrow> h = g | _ \<Rightarrow> False) rs"

definition subnets_exist :: "(path \<times> Resource) list \<Rightarrow> path \<Rightarrow> SubnetType \<Rightarrow> bool" where
  "subnets_exist rs vpc t \<longleftrightarrow>
     is_at rs (\<lambda>r. case r of Vpc v \<Rightarrow> list_ex (\<lambda>s. sn_subnet_type s = t) (vp_subnets v) | _ \<Rightarrow> False) vpc"

definition environment_ok :: "(path \<times> Resource) list \<Rightarrow> (string, CfnValue) pydict \<Rightarrow> bool" where
  "environment_ok rs env \<longleftrightarrow> distinct (map fst env) \<and> list_all (\<lambda>(n, v). value_ok rs v) env"

fun references_ok :: "(path \<times> Resource) list \<Rightarrow> Resource \<Rightarrow> bool" where
  "references_ok rs (SecurityGroupOf g vpc out) = is_at rs is_Vpc vpc"
| "references_ok rs (DatabaseCluster c) = (subnets_exist rs (dc_vpc c) (dc_vpc_subnets c) \<and>
     list_all (group_declared rs) (dc_security_groups c))"
| "references_ok rs (RdsProxy x) = (is_at rs is_DatabaseCluster (dx_target x) \<and>
     list_all (\<lambda>s. value_ok rs (SecretArnOf s)) (dx_secrets x) \<and>
     subnets_exist rs (dx_vpc x) (dx_vpc_subnets x) \<and> list_all (group_declared rs) (dx_security_groups x))"
| "references_ok rs (LambdaFunction f) = (is_at rs is_LogGroup (fn_log_group f) \<and>
     environment_ok rs (fn_environment f) \<and>
     (case fn_vpc f of None \<Rightarrow> fn_vpc_subnets f = None \<and> fn_security_groups f = None
      | Some v \<Rightarrow> (case fn_vpc_subnets f of None \<Rightarrow> False | Some t \<Rightarrow> subnets_exist rs v t) \<and>
          (case fn_security_groups f of None \<Rightarrow> False | Some gs \<Rightarrow> list_all (group_declared rs) gs)))"
| "references_ok rs (RequestAuthorizer a) = is_at rs is_LambdaFunction (au_handler a)"
| "references_ok rs (RestApi a) = is_at rs is_LogGroup (ra_access_log a)"
| "references_ok rs (ApiMethod m) = (is_at rs is_RestApi (me_api m) \<and> is_at rs is_LambdaFunction (me_handler m) \<and>
     (case me_authorizer m of None \<Rightarrow> me_authorization_type m \<noteq> CUSTOM
      | Some a \<Rightarrow> me_authorization_type m = CUSTOM \<and> is_at rs is_RequestAuthorizer a))"
| "references_ok rs (Cluster vpc insights) = is_at rs is_Vpc vpc"
| "references_ok rs (Container c) = (is_at rs is_ImportedRepository (co_repository c) \<and>
     is_at rs is_LogGroup (co_log_group c) \<and> environment_ok rs (co_environment c))"
| "references_ok rs (FargateService s) = (is_at rs is_Cluster (fs_cluster s) \<and>
     is_at rs is_TaskDefinition (fs_task_definition s) \<and> list_all (group_declared rs) (fs_security_groups s))"
| "references_ok rs (LoadBalancer b) = (subnets_exist rs (lb_vpc b) (lb_vpc_subnets b) \<and>
     group_declared rs (lb_security_group b))"
| "references_ok rs (Listener l) = (is_at rs is_LoadBalancer (li_load_balancer l) \<and>
     list_all (is_at rs is_ImportedCertificate) (li_certificates l) \<and>
     list_all (is_at rs is_TargetGroup) (li_target_groups l))"
| "references_ok rs (TargetGroup t) = (is_at rs is_Vpc (tg_vpc t) \<and> list_all (is_at rs is_FargateService) (tg_targets t))"
| "references_ok rs (WebACLAssociation arn acl) = value_ok rs arn"
| "references_ok rs (ScalableTarget s low high) = is_at rs is_FargateService s"
| "references_ok rs (TargetTracking t cpu) = is_at rs is_ScalableTarget t"
| "references_ok rs r = True"

lemma stack_paths_distinct: "distinct (map fst (stack_resources props rt ra rp))"
  by (cases "oa_enabled (ts_authorizer (sp_token_service props))")
    (simp_all add: stack_resources_def part_defs Let_def network_security_groups_def network_endpoints_def)

lemma is_at_list_ex:
  assumes "distinct (map fst rs)"
  shows "is_at rs cls p \<longleftrightarrow> list_ex (\<lambda>(q, r). q = p \<and> cls r) rs"
  using assms by (auto simp: is_at_def list_ex_iff split: option.splits
      dest: map_of_SomeD eq_key_imp_eq_value simp: map_of_eq_None_iff image_iff)

lemmas stack_refs = is_at_list_ex [OF stack_paths_distinct]

lemma stack_at:
  "is_at (stack_resources props rt ra rp) is_Vpc [''Network'', ''Vpc'']"
  "subnets_exist (stack_resources props rt ra rp) [''Network'', ''Vpc''] t"
  "is_at (stack_resources props rt ra rp) is_DatabaseCluster [''DataPlane'', ''AuroraCluster'']"
  "is_at (stack_resources props rt ra rp) is_RdsProxy [''DataPlane'', ''AuroraProxy'']"
  "is_at (stack_resources props rt ra rp) is_Table [''DataPlane'', ''VirtualKeyCache'']"
  "is_at (stack_resources props rt ra rp) is_LogGroup [''TokenService'', ''AccessLogs'']"
  "is_at (stack_resources props rt ra rp) is_LogGroup [''TokenService'', ''HandlerLogGroup'']"
  "is_at (stack_resources props rt ra rp) is_LambdaFunction [''TokenService'', ''Handler'']"
  "is_at (stack_resources props rt ra rp) is_RestApi [''TokenService'', ''Api'']"
  "is_at (stack_resources props rt ra rp) is_LogGroup [''AdminApi'', ''AccessLogs'']"
  "is_at (stack_resources props rt ra rp) is_LogGroup [''AdminApi'', ''HandlerLogGroup'']"
  "is_at (stack_resources props rt ra rp) is_LambdaFunction [''AdminApi'', ''Handler'']"
  "is_at (stack_resources props rt ra rp) is_RestApi [''AdminApi'', ''Api'']"
  "is_at (stack_resources props rt ra rp) is_LogGroup [''ProxyRuntime'', ''RuntimeLogs'']"
  "is_at (stack_resources props rt ra rp) is_Cluster [''ProxyRuntime'', ''Cluster'']"
  "is_at (stack_resources props rt ra rp) is_TaskDefinition [''ProxyRuntime'', ''TaskDefinition'']"
  "is_at (stack_resources props rt ra rp) is_FargateService [''ProxyRuntime'', ''Service'']"
  "is_at (stack_resources props rt ra rp) is_LoadBalancer [''ProxyRuntime'', ''LoadBalancer'']"
  "is_at (stack_resources props rt ra rp) is_ImportedCertificate [''ProxyRuntime'', ''RuntimeCertificate'']"
  "is_at (stack_resources props rt ra rp) is_TargetGroup [''ProxyRuntime'', ''TargetGroup'']"
  "is_at (stack_resources props rt ra rp) is_ImportedRepository [''ProxyRuntime'', ''RuntimeImageRepository'']"
  "is_at (stack_resources props rt ra rp) is_ScalableTarget [''ProxyRuntime'', ''Service'', ''TaskCount'']"
  unfolding subnets_exist_def stack_refs
  by (simp_all add: stack_resources_def part_defs Let_def network_vpc_def make_rest_api_def) (cases t; simp)

lemma stack_authorizer_at:
  assumes "oa_enabled (ts_authorizer (sp_token_service props))"
  shows "is_at (stack_resources props rt ra rp) is_LogGroup [''TokenService'', ''AuthorizerLogGroup'']"
    and "is_at (stack_resources props rt ra rp) is_LambdaFunction [''TokenService'', ''RequestAuthorizerHandler'']"
    and "is_at (stack_resources props rt ra rp) is_RequestAuthorizer [''TokenService'', ''RequestAuthorizer'']"
  unfolding stack_refs using assms by (simp_all add: stack_resources_def part_defs Let_def)

lemma stack_groups: "group_declared (stack_resources props rt ra rp) g"
  by (cases g) (simp_all add: group_declared_def stack_resources_def network_security_groups_def)

lemmas resource_defs = network_vpc_def network_security_groups_def network_endpoints_def database_cluster_def
  database_proxy_def cache_table_def token_service_function_def authorizer_function_def admin_function_def
  token_service_authorizer_def token_service_method_def admin_method_def proxy_container_def proxy_service_def
  proxy_load_balancer_def proxy_listener_def proxy_target_group_def make_rest_api_def
  lambda_observability_defaults_def token_service_environment_def data_plane_env_vars_def

fun grant_ok :: "(path \<times> Resource) list \<Rightarrow> Grant \<Rightarrow> bool" where
  "grant_ok rs (ReadWriteData p) = is_at rs is_Table p"
| "grant_ok rs (ReadSecret p) = value_ok rs (SecretArnOf p)"
| "grant_ok rs (PullImage p) = is_at rs is_ImportedRepository p"
| "grant_ok rs g = True"

text \<open>A role belongs to a function, or to a task definition, which has one for the task and one to start it.\<close>

definition role_exists :: "(path \<times> Resource) list \<Rightarrow> path \<Rightarrow> bool" where
  "role_exists rs p \<longleftrightarrow> is_at rs is_LambdaFunction p \<or>
     p \<noteq> [] \<and> is_at rs is_TaskDefinition (butlast p) \<and> last p \<in> {''TaskRole'', ''ExecutionRole''}"

text \<open>
  The stack is well formed. No two constructs share a path, every reference from one
  resource to another, every value read from a resource and every grant names a construct of the
  stack that has the class wanted, and every placement in the network names a security group and a
  kind of subnet the network has.
\<close>

lemma stack_references_resolve:
  assumes "claude_code_proxy_stack aws_partition props = Inr st"
  shows "distinct (map fst (st_resources st)) \<and>
    (\<forall>(p, r) \<in> set (st_resources st). references_ok (st_resources st) r) \<and>
    (\<forall>(role, g) \<in> set (st_grants st). role_exists (st_resources st) role \<and> grant_ok (st_resources st) g)"
proof -
  obtain rt ra rp where st: "st_resources st = stack_resources props rt ra rp"
    "st_grants st = stack_grants aws_partition props" by (rule stack_cases [OF assms])
  let ?rs = "stack_resources props rt ra rp"
  let ?ok = "\<lambda>(p, r). references_ok ?rs r"
  have n: "list_all ?ok ([([''Network'', ''Vpc''], Vpc (network_vpc (sp_network props)))] @
      network_security_groups [''Network''] @ network_endpoints [''Network''])"
    by (simp add: resource_defs stack_at)
  have d: "list_all ?ok (data_plane_resources props)"
    by (simp add: data_plane_resources_def resource_defs stack_at stack_groups)
  have t: "list_all ?ok (token_service_resources props rt)"
    by (simp add: token_service_resources_def stack_authorizer_def resource_defs environment_ok_def stack_at
        stack_authorizer_at stack_groups)
  have a: "list_all ?ok (admin_api_resources props ra)"
    by (simp add: admin_api_resources_def resource_defs environment_ok_def stack_at)
  have r: "list_all ?ok (proxy_runtime_resources props rp)"
    by (simp add: proxy_runtime_resources_def Let_def resource_defs environment_ok_def stack_at stack_groups)
  have "list_all ?ok ?rs" unfolding stack_resources_def [of props rt ra rp]
    using n d t a r by (simp only: list_all_append stack_resources_def)
  moreover have "list_all (\<lambda>(role, g). role_exists ?rs role \<and> grant_ok ?rs g) (stack_grants aws_partition props)"
    by (simp add: stack_grants_def role_exists_def stack_at)
  ultimately show ?thesis using stack_paths_distinct unfolding st list_all_iff by blast
qed

subsection \<open>Who may call the APIs\<close>

text \<open>
  API Gateway's decision on a request to a method: for IAM whether it is signed by a principal that
  may invoke it, for a custom authorizer whether the policy its function returns for the event
  allows the method.
\<close>

definition policy_allows :: "json \<Rightarrow> json \<Rightarrow> bool" where
  "policy_allows policy method_arn = (case policy of
       JObj p \<Rightarrow> (case map_of p ''policyDocument'' of
           Some (JObj d) \<Rightarrow> (case map_of d ''Statement'' of
               Some (JList ss) \<Rightarrow> list_ex (\<lambda>s. case s of
                   JObj f \<Rightarrow> map_of f ''Effect'' = Some (JStr ''Allow'') \<and>
                     map_of f ''Action'' = Some (JStr ''execute-api:Invoke'') \<and> map_of f ''Resource'' = Some method_arn
                 | _ \<Rightarrow> False) ss
             | _ \<Rightarrow> False)
         | _ \<Rightarrow> False)
     | _ \<Rightarrow> False)"

definition authorizer_allows :: "(path \<times> Resource) list \<Rightarrow> path \<Rightarrow> (string \<times> json) list \<Rightarrow> bool" where
  "authorizer_allows rs authorizer event =
     (case map_of rs authorizer of
        Some (RequestAuthorizer a) \<Rightarrow> (case map_of rs (au_handler a) of
            Some (LambdaFunction f) \<Rightarrow> (case run_inline (fn_code f) (JObj event) of
                Inl e \<Rightarrow> False
              | Inr policy \<Rightarrow> (case map_of event ''methodArn'' of
                    None \<Rightarrow> False | Some arn \<Rightarrow> policy_allows policy arn))
          | _ \<Rightarrow> False)
      | _ \<Rightarrow> False)"

definition method_admits :: "(path \<times> Resource) list \<Rightarrow> MethodProps \<Rightarrow> bool \<Rightarrow> (string \<times> json) list \<Rightarrow> bool" where
  "method_admits rs m sig event = (case me_authorization_type m of
       NO_AUTHORIZATION \<Rightarrow> True
     | IAM \<Rightarrow> sig
     | CUSTOM \<Rightarrow> (case me_authorizer m of None \<Rightarrow> False | Some a \<Rightarrow> authorizer_allows rs a event))"

lemma stack_methods:
  "(p, ApiMethod m) \<in> set (stack_resources props rt ra rp) \<longleftrightarrow>
     p = [''TokenService'', ''Api'', ''Default'', ''token-service'', ''get-or-create-key'', ''POST''] \<and>
       m = token_service_method [''TokenService''] (stack_authorizer props) \<or>
     p = [''AdminApi'', ''Api'', ''Default'', ''admin'', ''users'', ''GET''] \<and> m = admin_method [''AdminApi'']"
  by (cases "oa_enabled (ts_authorizer (sp_token_service props))")
    (auto simp: stack_resources_def part_defs Let_def network_security_groups_def network_endpoints_def make_rest_api_def)

lemma stack_authorizer_lookup:
  assumes "oa_enabled (ts_authorizer (sp_token_service props))"
  shows "map_of (stack_resources props rt ra rp) [''TokenService'', ''RequestAuthorizer''] =
      Some (RequestAuthorizer (token_service_authorizer [''TokenService''] (ts_authorizer (sp_token_service props))))"
    and "map_of (stack_resources props rt ra rp) [''TokenService'', ''RequestAuthorizerHandler''] =
      Some (LambdaFunction (authorizer_function [''TokenService'', ''AuthorizerLogGroup'']))"
  using assms unfolding map_of_eq_Some_iff [OF stack_paths_distinct]
  by (simp_all add: stack_resources_def part_defs Let_def)

lemma authorizer_function_code [simp]: "fn_code (authorizer_function l) = AuthorizerCode"
  by (simp add: authorizer_function_def lambda_observability_defaults_def)

text \<open>
  Property C29: no method of the stack is open. An API takes signed requests only, save that the
  token service's takes the word of its authorizer when one is enabled; and that authorizer lets
  everybody in, signed or not. It is enabled in no environment.
\<close>

theorem stack_methods_authorised:
  assumes "claude_code_proxy_stack aws_partition props = Inr st"
    and "(p, ApiMethod m) \<in> set (st_resources st)" and "map_of event ''methodArn'' = Some arn"
  shows "(method_admits (st_resources st) m sig event \<longleftrightarrow> sig \<or>
      me_http_method m = ''POST'' \<and> oa_enabled (ts_authorizer (sp_token_service props))) \<and>
    \<not> oa_enabled (ts_authorizer (sp_token_service (build_stack_props env name)))"
proof -
  obtain rt ra rp where st: "st_resources st = stack_resources props rt ra rp" by (rule stack_cases [OF assms(1)])
  let ?on = "oa_enabled (ts_authorizer (sp_token_service props))"
  have "\<not> oa_enabled (ts_authorizer (sp_token_service (build_stack_props env name)))"
    by (simp add: build_stack_props_def Let_def default_authorizer_def)
  moreover consider "m = token_service_method [''TokenService''] (stack_authorizer props)" | "m = admin_method [''AdminApi'']"
    using assms(2) unfolding st stack_methods by blast
  then have "method_admits (st_resources st) m sig event \<longleftrightarrow> sig \<or> me_http_method m = ''POST'' \<and> ?on"
  proof cases
    case 1
    show ?thesis
    proof (cases ?on)
      case True
      have "authorizer_allows (st_resources st) [''TokenService'', ''RequestAuthorizer''] event"
        using assms(3) unfolding authorizer_allows_def st
        by (simp add: stack_authorizer_lookup [OF True] token_service_authorizer_def policy_allows_def)
      then show ?thesis using True by (simp add: 1 method_admits_def token_service_method_def stack_authorizer_def)
    next
      case False
      then show ?thesis by (simp add: 1 method_admits_def token_service_method_def stack_authorizer_def)
    qed
  next
    case 2
    then show ?thesis by (simp add: method_admits_def admin_method_def)
  qed
  ultimately show ?thesis by blast
qed

subsection \<open>The guards have nothing to report\<close>

fun retention_value :: "RetentionDays \<Rightarrow> int" where
  "retention_value ONE_WEEK = 7"
| "retention_value TWO_WEEKS = 14"
| "retention_value ONE_MONTH = 30"
| "retention_value TWO_MONTHS = 60"
| "retention_value THREE_MONTHS = 90"
| "retention_value FOUR_MONTHS = 120"
| "retention_value SIX_MONTHS = 180"
| "retention_value ONE_YEAR = 365"

lemma retention_days_value: "retention_days n = Inr r \<longleftrightarrow> n = retention_value r"
  by (cases r) (auto simp: retention_days_def retention_mapping_def split: if_splits)

text \<open>
  What the CDK documents of the CloudFormation resources a construct becomes, as far as the aspect
  looks at them: properties passed on, an instance outside public subnets not accessible, and no
  class that the guards read for the other constructs.
\<close>

definition unguarded :: "CfnResource list \<Rightarrow> bool" where
  "unguarded cs \<longleftrightarrow> list_all (\<lambda>c. c = OtherConstruct) cs"

definition instance_of :: "SubnetType \<Rightarrow> CfnResource \<Rightarrow> bool" where
  "instance_of subnets c \<longleftrightarrow> (\<exists>v. c = CfnDBInstance v \<and> (subnets = PRIVATE_ISOLATED \<longrightarrow> v = PyNone \<or> v = PyBool False))"

definition documented_synthesis :: "(Resource \<Rightarrow> CfnResource list) \<Rightarrow> bool" where
  "documented_synthesis synth \<longleftrightarrow>
     (\<forall>r. synth (LogGroup r) = [CfnLogGroup (PyInt (retention_value r))]) \<and>
     (\<forall>t. \<exists>sse. synth (Table t) = [CfnTable sse] \<and> (tb_encryption t = AWS_MANAGED \<longrightarrow>
        sse = PyDict [(''sseEnabled'', PyBool True)] \<or> sse = PyObject [(''sse_enabled'', PyBool True)])) \<and>
     (\<forall>s. \<exists>conf others. synth (FargateService s) = CfnService conf # others \<and> unguarded others \<and>
        says_public_ip conf (if fs_assign_public_ip s then ''ENABLED'' else ''DISABLED'')) \<and>
     (\<forall>c. \<exists>instances others. synth (DatabaseCluster c) =
        CfnDBCluster (PyBool (dc_storage_encrypted c)) # instances @ others \<and> unguarded others \<and>
        list_all (instance_of (dc_vpc_subnets c)) instances) \<and>
     (\<forall>r. \<not> is_LogGroup r \<and> \<not> is_Table r \<and> \<not> is_FargateService r \<and> \<not> is_DatabaseCluster r \<longrightarrow> unguarded (synth r))"

definition aspect_errors :: "(Resource \<Rightarrow> CfnResource list) \<Rightarrow> Stack \<Rightarrow> string list" where
  "aspect_errors synth st = (if st_guarded st
     then concat (map visit (concat (map (\<lambda>(p, r). synth r) (st_resources st)))) else [])"

lemma unguarded_visit: "unguarded cs \<Longrightarrow> c \<in> set cs \<Longrightarrow> visit c = []"
  by (auto simp: unguarded_def list_all_iff)

lemma synth_log_group: "documented_synthesis synth \<Longrightarrow> c \<in> set (synth (LogGroup r)) \<Longrightarrow> visit c = []"
  by (auto simp: documented_synthesis_def guard_log_group_retention_def)

lemma synth_table:
  assumes "documented_synthesis synth" and "tb_encryption t = AWS_MANAGED" and "c \<in> set (synth (Table t))"
  shows "visit c = []"
proof -
  obtain sse where sse: "synth (Table t) = [CfnTable sse]"
    "sse = PyDict [(''sseEnabled'', PyBool True)] \<or> sse = PyObject [(''sse_enabled'', PyBool True)]"
    using assms(1,2) unfolding documented_synthesis_def by blast
  then show ?thesis using assms(3) by (auto simp: guard_table_encryption_def key_of_def)
qed

lemma documented_service:
  "documented_synthesis synth \<Longrightarrow> \<exists>conf others. synth (FargateService s) = CfnService conf # others \<and>
     unguarded others \<and> says_public_ip conf (if fs_assign_public_ip s then ''ENABLED'' else ''DISABLED'')"
  by (simp add: documented_synthesis_def)

lemma documented_cluster:
  "documented_synthesis synth \<Longrightarrow> \<exists>instances others. synth (DatabaseCluster d) =
     CfnDBCluster (PyBool (dc_storage_encrypted d)) # instances @ others \<and> unguarded others \<and>
     list_all (instance_of (dc_vpc_subnets d)) instances"
  by (simp add: documented_synthesis_def)

lemma synth_service:
  assumes "documented_synthesis synth" and "\<not> fs_assign_public_ip s" and "c \<in> set (synth (FargateService s))"
  shows "visit c = []"
proof -
  obtain conf others where s: "synth (FargateService s) = CfnService conf # others" "unguarded others"
    "says_public_ip conf ''DISABLED''"
    using documented_service [OF assms(1), of s] assms(2) by (simp del: split_paired_Ex) blast
  have "visit (CfnService conf) = []" using public_service_reported [OF s(3)] by simp
  then show ?thesis using assms(3) s(1) unguarded_visit [OF s(2)] by (auto simp del: visit.simps)
qed

lemma synth_cluster:
  assumes "documented_synthesis synth" and "dc_storage_encrypted d" and "dc_vpc_subnets d = PRIVATE_ISOLATED"
    and "c \<in> set (synth (DatabaseCluster d))"
  shows "visit c = []"
proof -
  obtain instances others where d: "synth (DatabaseCluster d) = CfnDBCluster (PyBool True) # instances @ others"
    "unguarded others" "list_all (instance_of PRIVATE_ISOLATED) instances"
    using documented_cluster [OF assms(1), of d] assms(2,3) by (simp del: split_paired_Ex) blast
  have "visit c = []" if i: "c \<in> set instances"
  proof -
    have "instance_of PRIVATE_ISOLATED c" using d(3) i unfolding list_all_iff by blast
    then obtain v where "c = CfnDBInstance v" "v = PyNone \<or> v = PyBool False" unfolding instance_of_def by blast
    then show ?thesis by (auto simp: guard_instance_networking_def)
  qed
  then show ?thesis using assms(4) d(1) unguarded_visit [OF d(2)] by (auto simp: guard_cluster_encryption_def)
qed

text \<open>
  Property C32: the stack passes its own guards. Whatever its properties, the aspect that visits it
  reports no error: its log groups keep their logs for a stated time, its table and its database
  are encrypted, its tasks have no public address and its database instances are not public.
\<close>

theorem stack_passes_guards:
  assumes "claude_code_proxy_stack aws_partition props = Inr st" and "documented_synthesis synth"
  shows "st_guarded st \<and> aspect_errors synth st = []"
proof -
  obtain rt ra rp where st: "st_resources st = stack_resources props rt ra rp" by (rule stack_cases [OF assms(1)])
  have plain: "visit c = []" if "\<not> is_LogGroup r" "\<not> is_Table r" "\<not> is_FargateService r" "\<not> is_DatabaseCluster r"
    and "c \<in> set (synth r)" for r c
    using that assms(2) unguarded_visit unfolding documented_synthesis_def by blast
  have "visit c = []" if r: "(p, r) \<in> set (stack_resources props rt ra rp)" and c: "c \<in> set (synth r)" for p r c
  proof (cases r)
    case (Table t)
    have "tb_encryption t = AWS_MANAGED"
      using r unfolding Table by (auto simp: stack_resources_def part_defs Let_def resource_defs split: if_splits)
    then show ?thesis using synth_table [OF assms(2)] c Table by blast
  next
    case (FargateService s)
    have "\<not> fs_assign_public_ip s"
      using r unfolding FargateService by (auto simp: stack_resources_def part_defs Let_def resource_defs split: if_splits)
    then show ?thesis using synth_service [OF assms(2)] c FargateService by blast
  next
    case (DatabaseCluster d)
    have "dc_storage_encrypted d \<and> dc_vpc_subnets d = PRIVATE_ISOLATED"
      using r unfolding DatabaseCluster by (auto simp: stack_resources_def part_defs Let_def resource_defs split: if_splits)
    then show ?thesis using synth_cluster [OF assms(2)] c DatabaseCluster by blast
  next
    case (LogGroup n)
    then show ?thesis using synth_log_group [OF assms(2)] c by blast
  qed (use plain [OF _ _ _ _ c] in \<open>simp_all\<close>)
  then have "aspect_errors synth st = []" unfolding aspect_errors_def st by fastforce
  moreover have "st_guarded st" using stack_cases [OF assms(1)] by blast
  ultimately show ?thesis by blast
qed

subsection \<open>Permissions\<close>

text \<open>IAM patterns: a star is any text, a question mark any character. There is no other wildcard.\<close>

definition iam_pattern :: "string \<Rightarrow> glob list" where
  "iam_pattern = map (\<lambda>c. if c = CHR ''*'' then GStar else if c = CHR ''?'' then GAny else GChr c)"

definition iam_match :: "string \<Rightarrow> string \<Rightarrow> bool" where
  "iam_match pattern s \<longleftrightarrow> gmatch (iam_pattern pattern) s"

fun grant_permits :: "string \<Rightarrow> string \<Rightarrow> Grant \<Rightarrow> bool" where
  "grant_permits action resource (Allow actions resources) =
     (list_ex (\<lambda>a. iam_match a action) actions \<and> list_ex (\<lambda>r. iam_match r resource) resources)"
| "grant_permits action resource g = False"

text \<open>
  What the statements of a role allow. The other grants are of DynamoDB, Secrets Manager and ECR
  actions only.
\<close>

definition role_permits :: "Stack \<Rightarrow> path \<Rightarrow> string \<Rightarrow> string \<Rightarrow> bool" where
  "role_permits st role action resource \<longleftrightarrow>
     list_ex (\<lambda>(r, g). r = role \<and> grant_permits action resource g) (st_grants st)"

definition foundation_model_arn :: "string \<Rightarrow> string \<Rightarrow> string \<Rightarrow> string" where
  "foundation_model_arn aws_partition region model =
     ''arn:'' @ aws_partition @ '':bedrock:'' @ region @ ''::foundation-model/'' @ model"

definition inference_profile_arn :: "string \<Rightarrow> string \<Rightarrow> string \<Rightarrow> string \<Rightarrow> string" where
  "inference_profile_arn aws_partition region account model =
     ''arn:'' @ aws_partition @ '':bedrock:'' @ region @ '':'' @ account @ '':inference-profile/'' @ model"

definition is_anthropic :: "string \<Rightarrow> bool" where
  "is_anthropic model \<longleftrightarrow> (\<exists>r. model = ''anthropic.'' @ r) \<or> (\<exists>l r. model = l @ ''.anthropic.'' @ r)"

definition iam_plain :: "string \<Rightarrow> bool" where
  "iam_plain t \<longleftrightarrow> CHR ''*'' \<notin> set t \<and> CHR ''?'' \<notin> set t"

lemma iam_match_plain: "iam_plain t \<Longrightarrow> iam_match (t @ p) s \<longleftrightarrow> (\<exists>r. s = t @ r \<and> iam_match p r)"
proof -
  assume "iam_plain t"
  then have "iam_pattern (t @ p) = map GChr t @ iam_pattern p"
    by (auto simp: iam_pattern_def iam_plain_def)
  then show ?thesis by (simp add: iam_match_def gmatch_chars)
qed

lemma gmatch_star_split: "gmatch (GStar # g) s \<longleftrightarrow> (\<exists>x y. s = x @ y \<and> gmatch g y)"
proof (induction s)
  case (Cons c s)
  have "(\<exists>x y. c # s = x @ y \<and> gmatch g y) \<longleftrightarrow> gmatch g (c # s) \<or> (\<exists>x y. s = x @ y \<and> gmatch g y)"
    by (metis append_Cons append_Nil list.exhaust list.inject)
  then show ?case using Cons by simp
qed simp

lemma iam_match_star: "iam_match (CHR ''*'' # p) s \<longleftrightarrow> (\<exists>x y. s = x @ y \<and> iam_match p y)"
  using gmatch_star_split by (simp add: iam_match_def iam_pattern_def)

lemma iam_match_only: "iam_plain t \<Longrightarrow> iam_match t s \<longleftrightarrow> s = t"
  using iam_match_plain [of t "[]" s] by (simp add: iam_match_def iam_pattern_def)

lemma iam_match_prefix_star: "iam_plain t \<Longrightarrow> iam_match (t @ ''*'') s \<longleftrightarrow> (\<exists>r. s = t @ r)"
  using iam_match_plain [of t "''*''" s] iam_match_star [of "[]"] iam_match_only [of "[]"]
  by (simp add: iam_plain_def)

text \<open>The shape of the four patterns: a prefix, any region, a kind of resource, and the model.\<close>

lemma iam_match_model:
  assumes "iam_plain pre" and "iam_plain mid" and "iam_plain tag"
  shows "iam_match (pre @ ''*'' @ mid @ tag @ ''*'') s \<longleftrightarrow> (\<exists>x y. s = pre @ x @ mid @ tag @ y)"
    and "iam_match (pre @ ''*'' @ mid @ ''*'' @ tag @ ''*'') s \<longleftrightarrow> (\<exists>x z y. s = pre @ x @ mid @ z @ tag @ y)"
proof -
  have "iam_match (mid @ tag @ ''*'') t \<longleftrightarrow> (\<exists>y. t = mid @ tag @ y)" for t
    using iam_match_prefix_star [of "mid @ tag" t] assms by (simp add: iam_plain_def)
  then show "iam_match (pre @ ''*'' @ mid @ tag @ ''*'') s \<longleftrightarrow> (\<exists>x y. s = pre @ x @ mid @ tag @ y)"
    using iam_match_plain [OF assms(1), of "''*'' @ mid @ tag @ ''*''" s] iam_match_star by simp blast
  have "iam_match (mid @ ''*'' @ tag @ ''*'') t \<longleftrightarrow> (\<exists>z y. t = mid @ z @ tag @ y)" for t
    using iam_match_plain [OF assms(2), of "''*'' @ tag @ ''*''" t] iam_match_star
      iam_match_prefix_star [OF assms(3)] by simp blast
  then show "iam_match (pre @ ''*'' @ mid @ ''*'' @ tag @ ''*'') s \<longleftrightarrow> (\<exists>x z y. s = pre @ x @ mid @ z @ tag @ y)"
    using iam_match_plain [OF assms(1), of "''*'' @ mid @ ''*'' @ tag @ ''*''" s] iam_match_star by simp blast
qed

lemma iam_match_anthropic:
  assumes "iam_plain pre" and "iam_plain k" and "CHR ''/'' \<notin> set h" and "CHR ''/'' \<notin> set model"
  shows "iam_match (pre @ ''*'' @ k @ ''/anthropic.*'') (pre @ h @ ''/'' @ model) \<or>
      iam_match (pre @ ''*'' @ k @ ''/*.anthropic.*'') (pre @ h @ ''/'' @ model) \<longleftrightarrow>
    (\<exists>x. h = x @ k) \<and> is_anthropic model"
proof -
  have mid: "iam_plain (k @ ''/'')" "iam_plain ''anthropic.''" "iam_plain ''.anthropic.''"
    using assms(2) by (simp_all add: iam_plain_def)
  have slash: "h @ ''/'' @ model = x @ (k @ ''/'') @ n \<longleftrightarrow> h = x @ k \<and> model = n" for x n
    using append_Cons_eq_iff [OF assms(3,4), of "x @ k" n] by simp
  have "iam_match (pre @ ''*'' @ k @ ''/anthropic.*'') (pre @ h @ ''/'' @ model) \<longleftrightarrow>
      (\<exists>x y. h = x @ k \<and> model = ''anthropic.'' @ y)"
    using iam_match_model(1) [OF assms(1) mid(1,2), of "pre @ h @ ''/'' @ model"] slash by simp
  moreover have "iam_match (pre @ ''*'' @ k @ ''/*.anthropic.*'') (pre @ h @ ''/'' @ model) \<longleftrightarrow>
      (\<exists>x z y. h = x @ k \<and> model = z @ ''.anthropic.'' @ y)"
    using iam_match_model(2) [OF assms(1) mid(1,3), of "pre @ h @ ''/'' @ model"] slash by simp
  ultimately show ?thesis unfolding is_anthropic_def by blast
qed

text \<open>Names that are parts of an ARN.\<close>

definition arn_part :: "string \<Rightarrow> bool" where
  "arn_part t \<longleftrightarrow> iam_plain t \<and> CHR '':'' \<notin> set t \<and> CHR ''/'' \<notin> set t"

lemma bedrock_resources_match:
  assumes "arn_part aws_partition" and "arn_part account" and "arn_part region" and "arn_part owner"
    and "CHR ''/'' \<notin> set model"
  shows "list_ex (\<lambda>p. iam_match p (foundation_model_arn aws_partition region model))
      (anthropic_bedrock_resources aws_partition account) \<longleftrightarrow> is_anthropic model"
    and "list_ex (\<lambda>p. iam_match p (inference_profile_arn aws_partition region owner model))
      (anthropic_bedrock_resources aws_partition account) \<longleftrightarrow> owner = account \<and> is_anthropic model"
proof -
  let ?pre = "''arn:'' @ aws_partition @ '':bedrock:''"
  let ?fm = "''::foundation-model''" and ?ip = "'':'' @ account @ '':inference-profile''"
  have pre: "iam_plain ?pre" and k: "iam_plain ?fm" "iam_plain ?ip"
    using assms(1,2) by (simp_all add: iam_plain_def arn_part_def)
  have pats: "anthropic_bedrock_resources aws_partition account =
      [?pre @ ''*'' @ ?fm @ ''/anthropic.*'', ?pre @ ''*'' @ ?fm @ ''/*.anthropic.*'',
       ?pre @ ''*'' @ ?ip @ ''/anthropic.*'', ?pre @ ''*'' @ ?ip @ ''/*.anthropic.*'']"
    by (simp add: anthropic_bedrock_resources_def)
  have ex: "list_ex (\<lambda>p. iam_match p (?pre @ h @ ''/'' @ model)) (anthropic_bedrock_resources aws_partition account) \<longleftrightarrow>
      ((\<exists>x. h = x @ ?fm) \<or> (\<exists>x. h = x @ ?ip)) \<and> is_anthropic model" if h: "CHR ''/'' \<notin> set h" for h
    using iam_match_anthropic [OF pre k(1) h assms(5)] iam_match_anthropic [OF pre k(2) h assms(5)]
    unfolding pats list_ex_Cons_iff list_ex_Nil_iff by blast
  have "x @ ?ip \<noteq> region @ ?fm" for x
  proof
    assume "x @ ?ip = region @ ?fm"
    from arg_cong [OF this, of last] show False by simp
  qed
  then show "list_ex (\<lambda>p. iam_match p (foundation_model_arn aws_partition region model))
      (anthropic_bedrock_resources aws_partition account) \<longleftrightarrow> is_anthropic model"
    using ex [of "region @ ?fm"] assms(3) by (auto simp: foundation_model_arn_def arn_part_def)
  have "x @ ?fm \<noteq> region @ '':'' @ owner @ '':inference-profile''" for x
  proof
    assume "x @ ?fm = region @ '':'' @ owner @ '':inference-profile''"
    from arg_cong [OF this, of last] show False by simp
  qed
  moreover have "region @ '':'' @ owner @ '':inference-profile'' = x @ ?ip \<longleftrightarrow> region = x \<and> owner = account" for x
    using append_Cons_eq_iff [of "CHR '':''" region owner x account] assms(3,4) by (auto simp: arn_part_def)
  ultimately show "list_ex (\<lambda>p. iam_match p (inference_profile_arn aws_partition region owner model))
      (anthropic_bedrock_resources aws_partition account) \<longleftrightarrow> owner = account \<and> is_anthropic model"
    using ex [of "region @ '':'' @ owner @ '':inference-profile''"] assms(3,4)
    by (auto simp: inference_profile_arn_def arn_part_def)
qed

text \<open>
  Property C28: the only permission on Bedrock in the stack is the proxy task's, to call the two
  Converse operations on Anthropic models: on a foundation model of any region or an inference
  profile of the stack's own account, and only if its name starts with \<open>anthropic.\<close> or has
  \<open>.anthropic.\<close> in it. No role may perform any other action of Bedrock.
\<close>

theorem stack_bedrock_permissions:
  assumes "claude_code_proxy_stack aws_partition props = Inr st"
    and "arn_part aws_partition" and "arn_part (de_account (sp_deployment_environment props))"
    and "arn_part region" and "arn_part owner" and "CHR ''/'' \<notin> set model"
  shows "(role_permits st role action (foundation_model_arn aws_partition region model) \<longleftrightarrow>
      role = [''ProxyRuntime'', ''TaskDefinition'', ''TaskRole''] \<and>
      action \<in> {''bedrock:Converse'', ''bedrock:ConverseStream''} \<and> is_anthropic model) \<and>
    (role_permits st role action (inference_profile_arn aws_partition region owner model) \<longleftrightarrow>
      role = [''ProxyRuntime'', ''TaskDefinition'', ''TaskRole''] \<and>
      action \<in> {''bedrock:Converse'', ''bedrock:ConverseStream''} \<and>
      owner = de_account (sp_deployment_environment props) \<and> is_anthropic model)"
proof -
  obtain rt ra rp where st: "st_grants st = stack_grants aws_partition props" by (rule stack_cases [OF assms(1)])
  have plain: "iam_plain ''bedrock:Converse''" "iam_plain ''bedrock:ConverseStream''" by (simp_all add: iam_plain_def)
  show ?thesis
    using iam_match_only [OF plain(1), of action] iam_match_only [OF plain(2), of action]
      bedrock_resources_match [OF assms(2-6)]
    unfolding role_permits_def st stack_grants_def by auto
qed

subsection \<open>Reaching the data plane\<close>

text \<open>
  What runs code in the stack: functions, and the containers of services. Each has a role, an
  environment and, inside the network, subnets and security groups.
\<close>

record Client =
  cl_role :: path
  cl_environment :: "(string, CfnValue) pydict"
  cl_subnets :: "SubnetType option"
  cl_groups :: "SecurityGroup list option"

definition containers_of :: "(path \<times> Resource) list \<Rightarrow> path \<Rightarrow> ContainerProps list" where
  "containers_of rs task = concat (map (\<lambda>(p, r). case r of
     Container c \<Rightarrow> if butlast p = task then [c] else [] | _ \<Rightarrow> []) rs)"

fun clients_of :: "(path \<times> Resource) list \<Rightarrow> path \<Rightarrow> Resource \<Rightarrow> Client list" where
  "clients_of rs p (LambdaFunction f) =
     [\<lparr>cl_role = p, cl_environment = fn_environment f, cl_subnets = fn_vpc_subnets f, cl_groups = fn_security_groups f\<rparr>]"
| "clients_of rs p (FargateService s) = map (\<lambda>c. \<lparr>cl_role = fs_task_definition s @ [''TaskRole''],
     cl_environment = co_environment c, cl_subnets = Some (fs_vpc_subnets s), cl_groups = Some (fs_security_groups s)\<rparr>)
     (containers_of rs (fs_task_definition s))"
| "clients_of rs p r = []"

definition stack_clients :: "Stack \<Rightarrow> Client list" where
  "stack_clients st = concat (map (\<lambda>(p, r). clients_of (st_resources st) p r) (st_resources st))"

text \<open>The services a grant is for, by the actions it gives; pulling an image reads its layers from S3.\<close>

fun granted_services :: "Grant \<Rightarrow> AwsService list" where
  "granted_services (ReadWriteData p) = [DYNAMODB]"
| "granted_services (ReadSecret p) = [SECRETS_MANAGER]"
| "granted_services (PullImage r) = [ECR, ECR_DOCKER, S3]"
| "granted_services (Allow actions resources) =
     (if list_ex (\<lambda>a. py_startswith a ''bedrock:'') actions then [BEDROCK_RUNTIME] else [])"

text \<open>Without a NAT gateway an isolated subnet reaches a service only through an endpoint in it.\<close>

definition reachable_from_isolated :: "Stack \<Rightarrow> AwsService \<Rightarrow> bool" where
  "reachable_from_isolated st s \<longleftrightarrow> list_ex (\<lambda>(p, r). case r of
     GatewayEndpoint e subnets \<Rightarrow> e = s \<and> subnets = PRIVATE_ISOLATED
   | InterfaceEndpoint e subnets dns \<Rightarrow> e = s \<and> subnets = PRIVATE_ISOLATED \<and> dns
   | _ \<Rightarrow> False) (st_resources st)"

definition proxy_accepts :: "NetworkConfig \<Rightarrow> (path \<times> Resource) list \<Rightarrow> path \<Rightarrow> SecurityGroup list \<Rightarrow> bool" where
  "proxy_accepts cfg rs proxy gs \<longleftrightarrow> (case map_of rs proxy of
     Some (RdsProxy x) \<Rightarrow>
       list_ex (\<lambda>g. list_ex (\<lambda>h. can_connect cfg (Group g) h 5432) (dx_security_groups x)) gs \<and>
       (case map_of rs (dx_target x) of
          Some (DatabaseCluster c) \<Rightarrow>
            list_ex (\<lambda>g. list_ex (\<lambda>h. can_connect cfg (Group g) h 5432) (dc_security_groups c)) (dx_security_groups x)
        | _ \<Rightarrow> False)
   | _ \<Rightarrow> False)"

lemma stack_lookup:
  "map_of (stack_resources props rt ra rp) [''DataPlane'', ''AuroraProxy''] =
     Some (RdsProxy (database_proxy [''DataPlane'', ''AuroraCluster''] [''DataPlane'', ''AuroraCluster'', ''Secret'']
       [''Network'']))"
  "map_of (stack_resources props rt ra rp) [''DataPlane'', ''AuroraCluster''] =
     Some (DatabaseCluster (database_cluster (sp_data_plane props) (sp_naming props) [''Network'']))"
  unfolding map_of_eq_Some_iff [OF stack_paths_distinct]
  by (simp_all add: stack_resources_def part_defs Let_def)

lemma stack_proxy_accepts:
  "g \<in> {RuntimeService, TokenServiceLambda} \<Longrightarrow>
     proxy_accepts cfg (stack_resources props rt ra rp) [''DataPlane'', ''AuroraProxy''] [g]"
  by (auto simp: proxy_accepts_def stack_lookup database_proxy_def database_cluster_def can_connect_def
      ingress_rules_def egress_rules_def)

lemma stack_services_reachable: "reachable_from_isolated st s"
  if "st_resources st = stack_resources props rt ra rp"
  by (cases s) (simp_all add: that reachable_from_isolated_def stack_resources_def network_endpoints_def)

lemma stack_containers:
  "containers_of (stack_resources props rt ra rp) [''ProxyRuntime'', ''TaskDefinition''] =
     [proxy_container [''ProxyRuntime''] (sp_proxy_runtime props) [''DataPlane'']]"
  by (cases "oa_enabled (ts_authorizer (sp_token_service props))")
    (simp_all add: containers_of_def stack_resources_def part_defs Let_def network_security_groups_def
      network_endpoints_def make_rest_api_def)

text \<open>The clients of the stack: its two functions and its task, and the authorizer's if it is enabled.\<close>

definition token_service_client :: Client where
  "token_service_client = \<lparr>cl_role = [''TokenService'', ''Handler''],
     cl_environment = data_plane_env_vars [''DataPlane''], cl_subnets = Some PRIVATE_ISOLATED,
     cl_groups = Some [TokenServiceLambda]\<rparr>"

definition proxy_client :: "StackProps \<Rightarrow> Client" where
  "proxy_client props = \<lparr>cl_role = [''ProxyRuntime'', ''TaskDefinition'', ''TaskRole''],
     cl_environment = (''PORT'', Text (py_str_int (pr_container_port (sp_proxy_runtime props)))) #
       data_plane_env_vars [''DataPlane''],
     cl_subnets = Some PRIVATE_ISOLATED, cl_groups = Some [RuntimeService]\<rparr>"

definition outside_client :: "path \<Rightarrow> Client" where
  "outside_client role = \<lparr>cl_role = role, cl_environment = [], cl_subnets = None, cl_groups = None\<rparr>"

lemma stack_clients_eq:
  assumes "st_resources st = stack_resources props rt ra rp"
  shows "stack_clients st = [token_service_client] @
    (if oa_enabled (ts_authorizer (sp_token_service props))
     then [outside_client [''TokenService'', ''RequestAuthorizerHandler'']] else []) @
    [outside_client [''AdminApi'', ''Handler''], proxy_client props]"
proof -
  let ?c = "\<lambda>(p, r). clients_of (stack_resources props rt ra rp) p r"
  note function_defs = token_service_function_def authorizer_function_def admin_function_def
    lambda_observability_defaults_def token_service_environment_def make_rest_api_def
  have "concat (map ?c (token_service_resources props rt)) = [token_service_client] @
    (if oa_enabled (ts_authorizer (sp_token_service props))
     then [outside_client [''TokenService'', ''RequestAuthorizerHandler'']] else [])"
    by (simp add: token_service_resources_def function_defs token_service_client_def outside_client_def)
  moreover have "concat (map ?c (admin_api_resources props ra)) = [outside_client [''AdminApi'', ''Handler'']]"
    by (simp add: admin_api_resources_def function_defs outside_client_def)
  moreover have "concat (map ?c (proxy_runtime_resources props rp)) = [proxy_client props]"
    by (simp add: proxy_runtime_resources_def Let_def proxy_service_def stack_containers proxy_container_def
        proxy_client_def)
  moreover have "concat (map ?c (data_plane_resources props)) = []" by (simp add: data_plane_resources_def)
  moreover have "concat (map ?c (network_security_groups n)) = []" "concat (map ?c (network_endpoints n)) = []" for n
    by (simp_all add: network_security_groups_def network_endpoints_def)
  ultimately show ?thesis
    unfolding stack_clients_def assms by (subst (2) stack_resources_def) simp
qed

text \<open>
  Property C30: what is told of the data plane can use it. A function or task has the database
  proxy's endpoint in its environment exactly if its role may read the secret, and then it may
  also use the cache table; it runs in isolated subnets, in a security group the database proxy
  accepts, and the cluster accepts the proxy's; and every service that a grant of the stack is for
  has an endpoint in those subnets.
\<close>

theorem stack_data_plane_clients:
  assumes "claude_code_proxy_stack aws_partition props = Inr st" and "c \<in> set (stack_clients st)"
  shows "(map_of (cl_environment c) ''DB_PROXY_ENDPOINT'' = Some (ProxyEndpointOf [''DataPlane'', ''AuroraProxy'']) \<longleftrightarrow>
      (cl_role c, ReadSecret [''DataPlane'', ''AuroraCluster'', ''Secret'']) \<in> set (st_grants st)) \<and>
    ((cl_role c, ReadSecret [''DataPlane'', ''AuroraCluster'', ''Secret'']) \<in> set (st_grants st) \<longrightarrow>
      (cl_role c, ReadWriteData [''DataPlane'', ''VirtualKeyCache'']) \<in> set (st_grants st) \<and>
      cl_subnets c = Some PRIVATE_ISOLATED \<and>
      (\<exists>gs. cl_groups c = Some gs \<and>
        proxy_accepts (sp_network props) (st_resources st) [''DataPlane'', ''AuroraProxy''] gs)) \<and>
    (\<forall>(role, g) \<in> set (st_grants st). \<forall>s \<in> set (granted_services g). reachable_from_isolated st s)"
proof -
  obtain rt ra rp where st: "st_resources st = stack_resources props rt ra rp"
    "st_grants st = stack_grants aws_partition props" by (rule stack_cases [OF assms(1)])
  have "\<forall>(role, g) \<in> set (st_grants st). \<forall>s \<in> set (granted_services g). reachable_from_isolated st s"
    using stack_services_reachable [OF st(1)] by blast
  moreover consider "c = token_service_client" | "c = proxy_client props" |
    "c = outside_client [''TokenService'', ''RequestAuthorizerHandler'']" | "c = outside_client [''AdminApi'', ''Handler'']"
    using assms(2) unfolding stack_clients_eq [OF st(1)] by (auto split: if_splits)
  then have "(map_of (cl_environment c) ''DB_PROXY_ENDPOINT'' = Some (ProxyEndpointOf [''DataPlane'', ''AuroraProxy'']) \<longleftrightarrow>
      (cl_role c, ReadSecret [''DataPlane'', ''AuroraCluster'', ''Secret'']) \<in> set (st_grants st)) \<and>
    ((cl_role c, ReadSecret [''DataPlane'', ''AuroraCluster'', ''Secret'']) \<in> set (st_grants st) \<longrightarrow>
      (cl_role c, ReadWriteData [''DataPlane'', ''VirtualKeyCache'']) \<in> set (st_grants st) \<and>
      cl_subnets c = Some PRIVATE_ISOLATED \<and>
      (\<exists>gs. cl_groups c = Some gs \<and>
        proxy_accepts (sp_network props) (st_resources st) [''DataPlane'', ''AuroraProxy''] gs))"
    unfolding st
    by cases (simp_all add: token_service_client_def proxy_client_def outside_client_def data_plane_env_vars_def
      stack_grants_def stack_proxy_accepts)
  ultimately show ?thesis by blast
qed

subsection \<open>The properties at a concrete input\<close>

definition demo_props :: "bool \<Rightarrow> StackProps" where
  "demo_props authorizer = (let p = build_stack_props (\<lambda>_. None) ''prod'' in
     p\<lparr>sp_token_service := (sp_token_service p)\<lparr>ts_authorizer := default_authorizer\<lparr>oa_enabled := authorizer\<rparr>\<rparr>\<rparr>)"

lemma demo_stack:
  "\<exists>st. claude_code_proxy_stack ''aws'' (demo_props a) = Inr st \<and>
     st_resources st = stack_resources (demo_props a) TWO_WEEKS ONE_MONTH ONE_MONTH \<and>
     st_grants st = stack_grants ''aws'' (demo_props a) \<and> st_guarded st"
  by (rule stack_built) (simp_all add: demo_props_def build_stack_props_def Let_def retention_days_value)

lemma stack_methods_authorised_witness:
  "\<exists>st p m. claude_code_proxy_stack ''aws'' (demo_props True) = Inr st \<and> (p, ApiMethod m) \<in> set (st_resources st) \<and>
     method_admits (st_resources st) m False [(''methodArn'', JStr ''arn'')]"
proof -
  obtain st where st: "claude_code_proxy_stack ''aws'' (demo_props True) = Inr st"
    "st_resources st = stack_resources (demo_props True) TWO_WEEKS ONE_MONTH ONE_MONTH"
    using demo_stack by blast
  let ?m = "token_service_method [''TokenService''] (stack_authorizer (demo_props True))"
  let ?p = "[''TokenService'', ''Api'', ''Default'', ''token-service'', ''get-or-create-key'', ''POST'']"
  have m: "(?p, ApiMethod ?m) \<in> set (st_resources st)" unfolding st(2) stack_methods by simp
  have "oa_enabled (ts_authorizer (sp_token_service (demo_props True)))" by (simp add: demo_props_def Let_def)
  moreover have "me_http_method ?m = ''POST''" by (simp add: token_service_method_def)
  ultimately have "method_admits (st_resources st) ?m False [(''methodArn'', JStr ''arn'')]"
    using stack_methods_authorised [OF st(1) m, of "[(''methodArn'', JStr ''arn'')]" "JStr ''arn''"] by simp
  then show ?thesis using st(1) m by blast
qed

fun demo_synthesis :: "Resource \<Rightarrow> CfnResource list" where
  "demo_synthesis (LogGroup r) = [CfnLogGroup (PyInt (retention_value r))]"
| "demo_synthesis (Table t) = [CfnTable (if tb_encryption t = TABLE_DEFAULT then PyNone
     else PyObject [(''sse_enabled'', PyBool True)])]"
| "demo_synthesis (FargateService s) = [CfnService (PyObject [(''awsvpc_configuration'',
     PyObject [(''assign_public_ip'', PyStr (if fs_assign_public_ip s then ''ENABLED'' else ''DISABLED''))])])]"
| "demo_synthesis (DatabaseCluster c) = CfnDBCluster (PyBool (dc_storage_encrypted c)) #
     map (\<lambda>i. CfnDBInstance (PyBool (dc_vpc_subnets c = PUBLIC))) (dc_writer c # map fst (dc_readers c)) @
     [OtherConstruct]"
| "demo_synthesis r = [OtherConstruct]"

lemma demo_synthesis_documented: "documented_synthesis demo_synthesis"
  unfolding documented_synthesis_def
proof (intro conjI allI impI)
  show "demo_synthesis (LogGroup r) = [CfnLogGroup (PyInt (retention_value r))]" for r by simp
  show "\<exists>sse. demo_synthesis (Table t) = [CfnTable sse] \<and> (tb_encryption t = AWS_MANAGED \<longrightarrow>
      sse = PyDict [(''sseEnabled'', PyBool True)] \<or> sse = PyObject [(''sse_enabled'', PyBool True)])" for t
    by simp
  show "\<exists>conf others. demo_synthesis (FargateService s) = CfnService conf # others \<and> unguarded others \<and>
      says_public_ip conf (if fs_assign_public_ip s then ''ENABLED'' else ''DISABLED'')" for s
    by (auto simp: unguarded_def intro!: says_public_ip.attributes)
  show "\<exists>instances others. demo_synthesis (DatabaseCluster c) =
      CfnDBCluster (PyBool (dc_storage_encrypted c)) # instances @ others \<and> unguarded others \<and>
      list_all (instance_of (dc_vpc_subnets c)) instances" for c
    by (rule exI [of _ "map (\<lambda>i. CfnDBInstance (PyBool (dc_vpc_subnets c = PUBLIC))) (dc_writer c # map fst (dc_readers c))"],
        rule exI [of _ "[OtherConstruct]"])
      (auto simp: unguarded_def instance_of_def list_all_iff)
  show "unguarded (demo_synthesis r)"
    if "\<not> is_LogGroup r \<and> \<not> is_Table r \<and> \<not> is_FargateService r \<and> \<not> is_DatabaseCluster r" for r
    using that by (cases r) (simp_all add: unguarded_def)
qed

lemma stack_passes_guards_witness:
  "\<exists>st. claude_code_proxy_stack ''aws'' (demo_props False) = Inr st \<and> st_guarded st \<and>
     aspect_errors demo_synthesis st = []"
  using demo_stack [of False] stack_passes_guards [OF _ demo_synthesis_documented] by blast

lemma stack_bedrock_permissions_witness:
  "\<exists>st. claude_code_proxy_stack ''aws'' (demo_props False) = Inr st \<and>
     role_permits st [''ProxyRuntime'', ''TaskDefinition'', ''TaskRole''] ''bedrock:Converse''
       (foundation_model_arn ''aws'' ''eu-west-1'' ''anthropic.claude-3-haiku-20240307-v1:0'') \<and>
     \<not> role_permits st [''ProxyRuntime'', ''TaskDefinition'', ''TaskRole''] ''bedrock:InvokeModel''
       (foundation_model_arn ''aws'' ''eu-west-1'' ''anthropic.claude-3-haiku-20240307-v1:0'')"
proof -
  let ?m = "''anthropic.claude-3-haiku-20240307-v1:0''"
  obtain st where st: "claude_code_proxy_stack ''aws'' (demo_props False) = Inr st" using demo_stack by blast
  have acc: "de_account (sp_deployment_environment (demo_props False)) = ''000000000000''"
    by (simp add: demo_props_def build_stack_props_def Let_def environ_get_def)
  have "arn_part ''aws''" "arn_part (de_account (sp_deployment_environment (demo_props False)))"
    "arn_part ''eu-west-1''" "arn_part ''owner''" "CHR ''/'' \<notin> set ?m"
    unfolding acc by (simp_all add: arn_part_def iam_plain_def)
  moreover have "is_anthropic ?m" unfolding is_anthropic_def by simp
  ultimately show ?thesis using stack_bedrock_permissions [OF st] st by auto
qed

lemma stack_data_plane_clients_witness:
  "\<exists>st c. claude_code_proxy_stack ''aws'' (demo_props False) = Inr st \<and> c \<in> set (stack_clients st) \<and>
     cl_role c = [''TokenService'', ''Handler''] \<and>
     (cl_role c, ReadWriteData [''DataPlane'', ''VirtualKeyCache'']) \<in> set (st_grants st) \<and>
     cl_subnets c = Some PRIVATE_ISOLATED"
proof -
  obtain st where st: "claude_code_proxy_stack ''aws'' (demo_props False) = Inr st"
    "st_resources st = stack_resources (demo_props False) TWO_WEEKS ONE_MONTH ONE_MONTH"
    "st_grants st = stack_grants ''aws'' (demo_props False)" using demo_stack by blast
  have c: "token_service_client \<in> set (stack_clients st)" unfolding stack_clients_eq [OF st(2)] by simp
  have "(cl_role token_service_client, ReadSecret [''DataPlane'', ''AuroraCluster'', ''Secret'']) \<in> set (st_grants st)"
    by (simp add: st(3) stack_grants_def token_service_client_def)
  then show ?thesis using stack_data_plane_clients [OF st(1) c] st(1) c by (auto simp: token_service_client_def)
qed

end
