(* ===== verification/StreamAgreement.thy ===== *)
theory StreamAgreement
  imports StreamDecoder
begin

section \<open>What a client makes of a stream\<close>

text \<open>
  A client of the messages API may ask for the response at once or as a stream. Here a client that
  follows the streaming protocol puts a message together from the frames, and the message is
  compared with the one \<open>parse_converse_response\<close> gives for the same answer of the provider. The
  client reads the input of a tool, which arrives as pieces of JSON text, with a parser of its own.
  The provider's stream has two forms: every block announced, as in the repository's tests, and as the
  Converse API documents it, where only the blocks of tools are.
\<close>

type_synonym frame_data = "string \<times> (string, json) pydict"

definition written :: "frame_data list \<Rightarrow> string list" where
  "written = map (\<lambda>(n, p). sse_frame n p)"

record ClientMessage =
  cm_role :: json
  cm_blocks :: "(json \<times> (string, json) pydict \<times> string) list" \<comment> \<open>index, block as started, text so far\<close>
  cm_stop_reason :: json
  cm_usage :: json
  cm_complete :: bool

definition no_message :: ClientMessage where
  "no_message = \<lparr>cm_role = JNull, cm_blocks = [], cm_stop_reason = JNull, cm_usage = JNull, cm_complete = False\<rparr>"

fun json_text :: "json \<Rightarrow> string" where
  "json_text (JStr t) = t"
| "json_text v = []"

definition field :: "json \<Rightarrow> string \<Rightarrow> json" where
  "field v k = (case v of JObj d \<Rightarrow> dget d k JNull | _ \<Rightarrow> JNull)"

definition delta_text :: "json \<Rightarrow> string" where
  "delta_text delta =
     (if field delta ''type'' = JStr ''text_delta'' then json_text (field delta ''text'')
      else if field delta ''type'' = JStr ''input_json_delta'' then json_text (field delta ''partial_json'')
      else if field delta ''type'' = JStr ''thinking_delta'' then json_text (field delta ''thinking'')
      else [])"

definition block_object :: "json \<Rightarrow> (string, json) pydict" where
  "block_object v = (case v of JObj d \<Rightarrow> d | _ \<Rightarrow> [])"

text \<open>A delta of a block that was not started has no place to go.\<close>

definition client_step :: "ClientMessage \<Rightarrow> frame_data \<Rightarrow> ClientMessage" where
  "client_step m f = (case f of (name, data) \<Rightarrow>
     if name = ''message_start'' then m\<lparr>cm_role := field (dget data ''message'' JNull) ''role''\<rparr>
     else if name = ''content_block_start''
     then m\<lparr>cm_blocks := cm_blocks m @ [(dget data ''index'' JNull, block_object (dget data ''content_block'' JNull), [])]\<rparr>
     else if name = ''content_block_delta''
     then (let i = dget data ''index'' JNull; t = delta_text (dget data ''delta'' JNull)
       in m\<lparr>cm_blocks := map (\<lambda>(j, b, u). (j, b, if j = i then u @ t else u)) (cm_blocks m)\<rparr>)
     else if name = ''message_delta''
     then m\<lparr>cm_stop_reason := field (dget data ''delta'' JNull) ''stop_reason'', cm_usage := dget data ''usage'' JNull\<rparr>
     else if name = ''message_stop'' then m\<lparr>cm_complete := True\<rparr>
     else m)"

definition client_read :: "frame_data list \<Rightarrow> ClientMessage" where
  "client_read = foldl client_step no_message"

definition finished_block :: "(string \<Rightarrow> json) \<Rightarrow> json \<times> (string, json) pydict \<times> string \<Rightarrow> json" where
  "finished_block read_json b = (case b of (i, d, t) \<Rightarrow>
     JObj (if dget d ''type'' JNull = JStr ''tool_use'' then dset ''input'' (read_json t) d
       else if dget d ''type'' JNull = JStr ''thinking'' then dset ''thinking'' (JStr t) d
       else dset ''text'' (JStr t) d))"

definition client_blocks :: "(string \<Rightarrow> json) \<Rightarrow> ClientMessage \<Rightarrow> json list" where
  "client_blocks read_json m = map (finished_block read_json) (cm_blocks m)"

definition is_thinking :: "json \<Rightarrow> bool" where
  "is_thinking b \<longleftrightarrow> field b ''type'' = JStr ''thinking''"

subsection \<open>The frames of a message, as data\<close>

definition block_data :: "int \<Rightarrow> stream_block \<Rightarrow> frame_data list" where
  "block_data i b =
     (''content_block_start'', [(''type'', JStr ''content_block_start''), (''index'', JInt i),
        (''content_block'', JObj (client_start b))]) #
     map (\<lambda>t. (''content_block_delta'', [(''type'', JStr ''content_block_delta''), (''index'', JInt i),
        (''delta'', JObj (client_delta b t))])) (block_deltas b) @
     [(''content_block_stop'', [(''type'', JStr ''content_block_stop''), (''index'', JInt i)])]"

fun blocks_data :: "int \<Rightarrow> stream_block list \<Rightarrow> frame_data list" where
  "blocks_data i [] = []"
| "blocks_data i (b # bs) = block_data i b @ blocks_data (i + 1) bs"

definition message_data ::
    "json \<Rightarrow> string \<Rightarrow> stream_block list \<Rightarrow> string \<Rightarrow> (string, json) pydict \<Rightarrow> frame_data list" where
  "message_data model role bs stop usage =
     (''message_start'', [(''type'', JStr ''message_start''),
       (''message'', JObj [(''id'', JStr DEFAULT_STREAM_MESSAGE_ID), (''type'', JStr ''message''),
          (''role'', JStr role), (''model'', model), (''content'', JList [])])]) #
     blocks_data 0 bs @
     [(''message_delta'', [(''type'', JStr ''message_delta''),
        (''delta'', JObj [(''stop_reason'', JStr (if stop \<in> SUPPORTED_STOP_REASONS then stop else ''end_turn'')),
          (''stop_sequence'', JNull)]), (''usage'', JObj usage)]),
      (''message_stop'', [(''type'', JStr ''message_stop'')])]"

lemma written_blocks: "written (blocks_data i bs) = blocks_frames i bs"
  by (induction bs arbitrary: i) (simp_all add: written_def block_data_def block_frames_def delta_frame_def)

lemma written_message: "written (message_data model role bs stop usage) = message_frames model role bs stop usage"
  using written_blocks by (simp add: written_def message_data_def message_frames_def)

subsection \<open>Reading it\<close>

text \<open>The provider's block that is not streamed.\<close>

fun joined :: "(string \<Rightarrow> json) \<Rightarrow> stream_block \<Rightarrow> provider_block" where
  "joined read_json (SText ts) = PText (concat ts)"
| "joined read_json (STool i n ts) = PToolUse i n (read_json (concat ts))"
| "joined read_json (SThinking ts) = PReasoning (concat ts) None"

fun read_block :: "int \<Rightarrow> stream_block \<Rightarrow> json \<times> (string, json) pydict \<times> string" where
  "read_block i b = (JInt i, client_start b, concat (block_deltas b))"

lemma delta_text_client: "delta_text (JObj (client_delta b t)) = t"
  by (cases b) (simp_all add: delta_text_def field_def dget_def)

lemma read_deltas:
  assumes "\<forall>(j, d, t) \<in> set bs. j \<noteq> JInt i"
  shows "foldl client_step (m\<lparr>cm_blocks := bs @ [(JInt i, d, acc)]\<rparr>)
      (map (\<lambda>t. (''content_block_delta'', [(''type'', JStr ''content_block_delta''), (''index'', JInt i),
        (''delta'', JObj (client_delta b t))])) ts) =
    m\<lparr>cm_blocks := bs @ [(JInt i, d, acc @ concat ts)]\<rparr>"
proof (induction ts arbitrary: acc)
  case (Cons t ts)
  let ?f = "(''content_block_delta'', [(''type'', JStr ''content_block_delta''), (''index'', JInt i),
        (''delta'', JObj (client_delta b t))])"
  have "map (\<lambda>(j, d, u). (j, d, if j = JInt i then u @ t else u)) bs = bs"
    using assms by (intro map_idI) auto
  moreover have "dget (snd ?f) ''index'' JNull = JInt i" "delta_text (dget (snd ?f) ''delta'' JNull) = t"
    by (simp_all add: dget_def delta_text_client)
  ultimately have "client_step (m\<lparr>cm_blocks := bs @ [(JInt i, d, acc)]\<rparr>) ?f =
      m\<lparr>cm_blocks := bs @ [(JInt i, d, acc @ t)]\<rparr>"
    by (simp add: client_step_def)
  then show ?case using Cons [of "acc @ t"] by simp
qed simp

lemma read_block_data:
  assumes "\<forall>(j, d, t) \<in> set (cm_blocks m). j \<noteq> JInt i"
  shows "foldl client_step m (block_data i b) = m\<lparr>cm_blocks := cm_blocks m @ [read_block i b]\<rparr>"
proof -
  let ?start = "(''content_block_start'', [(''type'', JStr ''content_block_start''), (''index'', JInt i),
        (''content_block'', JObj (client_start b))])"
  let ?stop = "(''content_block_stop'', [(''type'', JStr ''content_block_stop''), (''index'', JInt i)])"
  have "client_step m ?start = m\<lparr>cm_blocks := cm_blocks m @ [(JInt i, client_start b, [])]\<rparr>"
    by (simp add: client_step_def dget_def block_object_def)
  moreover have "client_step n ?stop = n" for n by (simp add: client_step_def)
  ultimately show ?thesis using read_deltas [OF assms] by (simp add: block_data_def)
qed

fun read_blocks :: "int \<Rightarrow> stream_block list \<Rightarrow> (json \<times> (string, json) pydict \<times> string) list" where
  "read_blocks i [] = []"
| "read_blocks i (b # bs) = read_block i b # read_blocks (i + 1) bs"

lemma read_blocks_data:
  assumes "\<forall>(j, d, t) \<in> set (cm_blocks m). \<exists>n < i. j = JInt n"
  shows "foldl client_step m (blocks_data i bs) = m\<lparr>cm_blocks := cm_blocks m @ read_blocks i bs\<rparr>"
  using assms
proof (induction bs arbitrary: i m)
  case (Cons b bs)
  let ?m = "m\<lparr>cm_blocks := cm_blocks m @ [read_block i b]\<rparr>"
  have "foldl client_step m (block_data i b) = ?m"
    using Cons.prems by (intro read_block_data) auto
  moreover have m: "\<forall>(j, d, t) \<in> set (cm_blocks ?m). \<exists>n < i + 1. j = JInt n"
    using Cons.prems by fastforce
  ultimately show ?case using Cons.IH [OF m] by simp
qed simp

lemma finished_read_blocks:
  "filter (\<lambda>b. \<not> is_thinking b) (map (finished_block read_json) (read_blocks i bs)) =
     concat (map client_content (map (joined read_json) bs)) \<and>
   filter is_thinking (map (finished_block read_json) (read_blocks i bs)) =
     concat (map client_thinking (map (joined read_json) bs))"
proof (induction bs arbitrary: i)
  case (Cons b bs)
  then show ?case
    by (cases b) (simp_all add: finished_block_def is_thinking_def field_def dget_def)
qed simp

lemma read_message:
  "client_read (message_data model role bs stop usage) =
     \<lparr>cm_role = JStr role, cm_blocks = read_blocks 0 bs,
      cm_stop_reason = JStr (if stop \<in> SUPPORTED_STOP_REASONS then stop else ''end_turn''),
      cm_usage = JObj usage, cm_complete = True\<rparr>"
proof -
  let ?m = "no_message\<lparr>cm_role := JStr role\<rparr>"
  have "foldl client_step ?m (blocks_data 0 bs) = ?m\<lparr>cm_blocks := read_blocks 0 bs\<rparr>"
    using read_blocks_data [of ?m 0 bs] by (simp add: no_message_def)
  moreover have "client_step no_message (hd (message_data model role bs stop usage)) = ?m"
    by (simp add: message_data_def client_step_def dget_def field_def)
  ultimately show ?thesis
    by (simp add: client_read_def message_data_def client_step_def dget_def field_def no_message_def)
qed

subsection \<open>Properties\<close>

text \<open>The answer of a provider that does not stream.\<close>

definition whole_response :: "string \<Rightarrow> provider_block list \<Rightarrow> string \<Rightarrow> json \<Rightarrow> json" where
  "whole_response role blocks stop usage =
     JObj [(''output'', JObj [(''message'', JObj [(''role'', JStr role), (''content'', JList (map provider_json blocks))])]),
           (''stopReason'', JStr stop), (''usage'', usage)]"

lemma parse_whole_response:
  assumes "normalize_usage usage = Inr u"
  shows "\<exists>m. parse_converse_response (whole_response role blocks stop usage) model = Inr m \<and>
    dget m ''role'' JNull = JStr role \<and>
    dget m ''stop_reason'' JNull = JStr (if stop \<in> SUPPORTED_STOP_REASONS then stop else ''end_turn'') \<and>
    dget m ''usage'' JNull = JObj u \<and> dget m ''content'' JNull = JList (concat (map client_content blocks)) \<and>
    dget m ''thinking_blocks'' (JList []) = JList (concat (map client_thinking blocks))"
  using assms by (simp add: parse_converse_response_def whole_response_def dget_def parse_provider_blocks
      map_stop_reason_str Let_def comp_def)

text \<open>
  If the provider announced every block, a client would get the same message whether it asks for a
  stream or not: role, stop reason, usage, content and thinking blocks. The decoder keeps the joined
  reasoning texts and the usage, which is audited.
\<close>

lemma announced_stream_agrees:
  assumes "normalize_usage usage = Inr u"
  shows "\<exists>d m. iter_sse_events (message_events role bs stop usage) None (new_decoder model) =
      (written (message_data model role bs stop u), None, d) \<and>
    dc_thinking_blocks d = thinking_texts bs \<and> dc_usage d = u \<and>
    parse_converse_response (whole_response role (map (joined read_json) bs) stop usage) model = Inr m \<and>
    (let c = client_read (message_data model role bs stop u) in
       cm_complete c \<and> dget m ''role'' JNull = cm_role c \<and> dget m ''stop_reason'' JNull = cm_stop_reason c \<and>
       dget m ''usage'' JNull = cm_usage c \<and>
       dget m ''content'' JNull = JList (filter (\<lambda>b. \<not> is_thinking b) (client_blocks read_json c)) \<and>
       dget m ''thinking_blocks'' (JList []) = JList (filter is_thinking (client_blocks read_json c)))"
proof -
  obtain d where d: "iter_sse_events (message_events role bs stop usage) None (new_decoder model) =
      (message_frames model role bs stop u, None, d)" "dc_thinking_blocks d = thinking_texts bs" "dc_usage d = u"
    using stream_of_message [OF assms] by blast
  show ?thesis
    using d parse_whole_response [OF assms, of role "map (joined read_json) bs" stop model]
      finished_read_blocks [of read_json 0 bs]
    by (simp only: written_message read_message client_blocks_def Let_def ClientMessage.simps) simp
qed

text \<open>
  The Converse API starts a block with an event of its own only for a tool: the deltas of a text
  block come unannounced.
\<close>

definition unstarted_text :: "int \<Rightarrow> string list \<Rightarrow> json list" where
  "unstarted_text i ts = map (\<lambda>t. delta_event i (delta_json (SText ts) t)) ts @ [stop_event i]"

fun unstarted_texts :: "int \<Rightarrow> string list list \<Rightarrow> json list" where
  "unstarted_texts i [] = []"
| "unstarted_texts i (ts # tss) = unstarted_text i ts @ unstarted_texts (i + 1) tss"

definition unstarted_message :: "string \<Rightarrow> string list list \<Rightarrow> string \<Rightarrow> json \<Rightarrow> json list" where
  "unstarted_message role tss stop usage =
     JObj [(''messageStart'', JObj [(''role'', JStr role)])] # unstarted_texts 0 tss @
     [JObj [(''messageStop'', JObj [(''stopReason'', JStr stop)])],
      JObj [(''metadata'', JObj [(''usage'', usage)])]]"

definition no_start :: "frame_data \<Rightarrow> bool" where
  "no_start f \<longleftrightarrow> fst f \<noteq> ''content_block_start''"

lemma unstarted_decodes:
  "\<exists>ds. decodes (unstarted_texts i tss) d (written ds) d \<and> list_all no_start ds"
proof (induction tss arbitrary: i)
  case Nil
  show ?case by (rule exI [of _ "[]"]) (simp add: written_def decodes.none)
next
  case (Cons ts tss)
  let ?deltas = "\<lambda>us. map (\<lambda>t. (''content_block_delta'', [(''type'', JStr ''content_block_delta''), (''index'', JInt i),
        (''delta'', JObj (client_delta (SText ts) t))])) us"
  let ?stop = "(''content_block_stop'', [(''type'', JStr ''content_block_stop''), (''index'', JInt i)])"
  have one: "decode_event (delta_event i (delta_json (SText ts) t)) d =
      (Inr ([delta_frame i (client_delta (SText ts) t)], False), d)" for t
    by (rule decode_delta_event) (simp add: normalize_content_block_delta_def dget_def)
  have "decodes (map (\<lambda>t. delta_event i (delta_json (SText ts) t)) us) d (written (?deltas us)) d" for us
  proof (induction us)
    case (Cons u us)
    then show ?case using decodes.one [OF one Cons] by (simp add: written_def delta_frame_def)
  qed (simp add: written_def decodes.none)
  from decodes_append [OF this decodes_single [OF decode_stop_event]]
  have first: "decodes (unstarted_text i ts) d (written (?deltas ts @ [?stop])) d"
    by (simp add: unstarted_text_def written_def)
  obtain ds where ds: "decodes (unstarted_texts (i + 1) tss) d (written ds) d" "list_all no_start ds"
    using Cons by blast
  have w: "written (xs @ ys) = written xs @ written ys" for xs ys by (simp add: written_def)
  have "decodes (unstarted_texts i (ts # tss)) d (written ((?deltas ts @ [?stop]) @ ds)) d"
    using decodes_append [OF first ds(1)] by (simp only: w unstarted_texts.simps)
  moreover have "list_all no_start ((?deltas ts @ [?stop]) @ ds)"
    using ds(2) by (auto simp: no_start_def list_all_iff)
  ultimately show ?case by blast
qed

lemma client_step_no_start: "no_start f \<Longrightarrow> cm_blocks m = [] \<Longrightarrow> cm_blocks (client_step m f) = []"
  by (cases f) (simp add: client_step_def no_start_def Let_def)

lemma client_read_no_start: "list_all no_start ds \<Longrightarrow> cm_blocks m = [] \<Longrightarrow> cm_blocks (foldl client_step m ds) = []"
  by (induction ds arbitrary: m) (simp_all add: client_step_no_start)

text \<open>
  Property C40: for a message streamed the way the Converse API documents, with text blocks that no
  start event announces, the decoder emits deltas of blocks it never started: a client that
  follows the protocol ends with a complete message that has no content, where the response that
  is not streamed has all the text.
\<close>

theorem unstarted_text_lost:
  assumes "normalize_usage usage = Inr u"
  shows "\<exists>ds d m. iter_sse_events (unstarted_message role tss stop usage) None (new_decoder model) = (written ds, None, d) \<and>
    cm_complete (client_read ds) \<and> client_blocks read_json (client_read ds) = [] \<and>
    parse_converse_response (whole_response role (map (\<lambda>ts. PText (concat ts)) tss) stop usage) model = Inr m \<and>
    dget m ''content'' JNull = JList (map (\<lambda>ts. JObj [(''type'', JStr ''text''), (''text'', JStr (concat ts))]) tss)"
proof -
  let ?d = "new_decoder model"
  let ?start = "(''message_start'', [(''type'', JStr ''message_start''),
       (''message'', JObj [(''id'', JStr DEFAULT_STREAM_MESSAGE_ID), (''type'', JStr ''message''),
          (''role'', JStr role), (''model'', model), (''content'', JList [])])])"
  let ?fin = "[(''message_delta'', [(''type'', JStr ''message_delta''),
        (''delta'', JObj [(''stop_reason'', JStr (if stop \<in> SUPPORTED_STOP_REASONS then stop else ''end_turn'')),
          (''stop_sequence'', JNull)]), (''usage'', JObj u)]),
      (''message_stop'', [(''type'', JStr ''message_stop'')])]"
  let ?d1 = "?d\<lparr>dc_pending_stop_reason := JStr stop\<rparr>"
  obtain ds where ds: "decodes (unstarted_texts 0 tss) ?d (written ds) ?d" "list_all no_start ds"
    using unstarted_decodes by blast
  have s: "decode_event (JObj [(''messageStart'', JObj [(''role'', JStr role)])]) ?d = (Inr (written [?start], False), ?d)"
    by (simp add: decode_event_def new_decoder_def dget_def written_def)
  have m: "decode_event (JObj [(''messageStop'', JObj [(''stopReason'', JStr stop)])]) ?d = (Inr ([], False), ?d1)"
    by (simp add: decode_event_def dget_def)
  have e: "decode_event (JObj [(''metadata'', JObj [(''usage'', usage)])]) ?d1 =
      (Inr (written ?fin, False), ?d1\<lparr>dc_usage := u, dc_pending_stop_reason := JNull\<rparr>)"
    using assms by (simp add: decode_event_def update_from_metadata_def dget_def written_def
        bindM_value [OF flush_pending_run])
  have run: "decodes (unstarted_message role tss stop usage) ?d (written (?start # ds @ ?fin))
      (?d1\<lparr>dc_usage := u, dc_pending_stop_reason := JNull\<rparr>)"
    using decodes.one [OF s decodes_append [OF ds(1) decodes.one [OF m decodes_single [OF e]]]]
    by (simp add: unstarted_message_def written_def)
  have "iter_sse_events (unstarted_message role tss stop usage) None ?d =
      (written (?start # ds @ ?fin), None, ?d1\<lparr>dc_usage := u, dc_pending_stop_reason := JNull\<rparr>)"
    using iter_decodes [OF run, of "[]" None] by (simp add: flush_pending_stop_def)
  moreover have "cm_complete (client_read (?start # ds @ ?fin))"
    by (simp add: client_read_def client_step_def)
  moreover have "list_all no_start (?start # ds @ ?fin)" using ds(2) by (simp add: no_start_def)
  then have "client_blocks read_json (client_read (?start # ds @ ?fin)) = []"
    unfolding client_blocks_def client_read_def by (subst client_read_no_start) (simp_all add: no_message_def)
  moreover have "\<exists>m. parse_converse_response (whole_response role (map (\<lambda>ts. PText (concat ts)) tss) stop usage) model = Inr m \<and>
    dget m ''content'' JNull = JList (map (\<lambda>ts. JObj [(''type'', JStr ''text''), (''text'', JStr (concat ts))]) tss)"
    using parse_whole_response [OF assms, of role "map (\<lambda>ts. PText (concat ts)) tss" stop model]
    by (auto simp: comp_def)
  ultimately show ?thesis by blast
qed

lemma unstarted_text_lost_witness:
  "\<exists>ds d. iter_sse_events (unstarted_message ''assistant'' [[''Hel'', ''lo'']] ''end_turn'' JNull) None
       (new_decoder JNull) = (written ds, None, d) \<and> client_blocks JStr (client_read ds) = []"
proof -
  have "normalize_usage JNull = Inr (dc_usage (new_decoder JNull))"
    by (simp add: normalize_usage_def int_or_zero_def new_decoder_def py_or_def dget_def)
  from unstarted_text_lost [OF this] show ?thesis by blast
qed

text \<open>
  The signature of a reasoning block, which the client has to send back with it, arrives in a
  delta of its own, and the frame for that delta does not have it: it is the same for every
  signature. The parser of whole responses looks for it beside the text's object, not in it.
\<close>

lemma stream_signature_dropped:
  "normalize_content_block_delta i (JObj [(''reasoningContent'', JObj [(''signature'', s)])]) d =
   normalize_content_block_delta i (JObj [(''reasoningContent'', JObj [(''signature'', s')])]) d"
  by (simp add: normalize_content_block_delta_def dget_def)

lemma parsed_signature_dropped:
  "parse_block (JObj [(''reasoningContent'', JObj [(''reasoningText'', JObj [(''text'', t), (''signature'', s)])])]) =
     Inr ([], [JObj [(''type'', JStr ''thinking''), (''thinking'', t)]],
       [JObj [(''reasoningText'', JObj [(''text'', t), (''signature'', s)])]])"
  by (simp add: parse_block_def dget_def)

subsection \<open>Streams as the Converse API documents them\<close>

text \<open>
  Only a tool's block is announced. A reasoning block's deltas end with one that carries the signature.
\<close>

definition signature_event :: "int \<Rightarrow> string \<Rightarrow> json" where
  "signature_event i sig = delta_event i (JObj [(''reasoningContent'', JObj [(''signature'', JStr sig)])])"

fun documented_events :: "string \<Rightarrow> int \<Rightarrow> stream_block \<Rightarrow> json list" where
  "documented_events sig i (SText ts) = unstarted_text i ts"
| "documented_events sig i (STool tid n ts) = block_events i (STool tid n ts)"
| "documented_events sig i (SThinking ts) =
     map (\<lambda>t. delta_event i (delta_json (SThinking ts) t)) ts @ [signature_event i sig, stop_event i]"

fun documented_blocks :: "string \<Rightarrow> int \<Rightarrow> stream_block list \<Rightarrow> json list" where
  "documented_blocks sig i [] = []"
| "documented_blocks sig i (b # bs) = documented_events sig i b @ documented_blocks sig (i + 1) bs"

definition documented_message :: "string \<Rightarrow> string \<Rightarrow> stream_block list \<Rightarrow> string \<Rightarrow> json \<Rightarrow> json list" where
  "documented_message sig role bs stop usage =
     JObj [(''messageStart'', JObj [(''role'', JStr role)])] # documented_blocks sig 0 bs @
     [JObj [(''messageStop'', JObj [(''stopReason'', JStr stop)])],
      JObj [(''metadata'', JObj [(''usage'', usage)])]]"

fun is_reasoning :: "stream_block \<Rightarrow> bool" where
  "is_reasoning (SThinking ts) = True"
| "is_reasoning b = False"

text \<open>A block that is not announced arrives in at least one piece.\<close>

fun arrives :: "stream_block \<Rightarrow> bool" where
  "arrives (STool tid n ts) = True"
| "arrives b = (block_deltas b \<noteq> [])"

text \<open>The frames written for a block without reasoning.\<close>

fun documented_data :: "int \<Rightarrow> stream_block list \<Rightarrow> frame_data list" where
  "documented_data i [] = []"
| "documented_data i (b # bs) =
     (case b of STool tid n ts \<Rightarrow> block_data i b | _ \<Rightarrow> tl (block_data i b)) @ documented_data (i + 1) bs"

definition start_data :: "json \<Rightarrow> string \<Rightarrow> frame_data" where
  "start_data model role = (''message_start'', [(''type'', JStr ''message_start''),
       (''message'', JObj [(''id'', JStr DEFAULT_STREAM_MESSAGE_ID), (''type'', JStr ''message''),
          (''role'', JStr role), (''model'', model), (''content'', JList [])])])"

definition end_data :: "string \<Rightarrow> (string, json) pydict \<Rightarrow> frame_data list" where
  "end_data stop usage =
     [(''message_delta'', [(''type'', JStr ''message_delta''),
        (''delta'', JObj [(''stop_reason'', JStr (if stop \<in> SUPPORTED_STOP_REASONS then stop else ''end_turn'')),
          (''stop_sequence'', JNull)]), (''usage'', JObj usage)]),
      (''message_stop'', [(''type'', JStr ''message_stop'')])]"

lemma written_append [simp]: "written (xs @ ys) = written xs @ written ys"
  by (simp add: written_def)

lemma documented_decodes:
  assumes "list_all (\<lambda>b. \<not> is_reasoning b) bs"
  shows "\<exists>d1. decodes (documented_blocks sig i bs) d (written (documented_data i bs)) d1 \<and> same_head d d1 \<and>
    dc_thinking_block_positions d1 = dc_thinking_block_positions d"
  using assms
proof (induction bs arbitrary: i d)
  case Nil
  then show ?case by (auto simp: written_def intro: decodes.none)
next
  case (Cons b bs)
  have deltas: "decodes (map (\<lambda>t. delta_event i (delta_json b t)) us) e
      (map (\<lambda>t. delta_frame i (client_delta b t)) us) e" for us e
    using plain_deltas [of b i us e] Cons.prems by (cases b) auto
  have stop: "decodes (map (\<lambda>t. delta_event i (delta_json b t)) us @ [stop_event i]) e
      (map (\<lambda>t. delta_frame i (client_delta b t)) us @ [sse_frame ''content_block_stop''
        [(''type'', JStr ''content_block_stop''), (''index'', JInt i)]]) e" for us e
    by (rule decodes_append [OF deltas decodes_single [OF decode_stop_event]])
  have "\<exists>e. decodes (documented_events sig i b) d
      (written (case b of STool tid n ts \<Rightarrow> block_data i b | _ \<Rightarrow> tl (block_data i b))) e \<and>
    same_head d e \<and> dc_thinking_block_positions e = dc_thinking_block_positions d"
  proof (cases b)
    case (SText ts)
    then show ?thesis using stop [of ts d]
      by (intro exI [of _ d]) (simp add: unstarted_text_def written_def block_data_def delta_frame_def comp_def)
  next
    case (STool tid n ts)
    have "same_head d (after_start i b d)"
      "dc_thinking_block_positions (after_start i b d) = dc_thinking_block_positions d"
      by (simp_all add: STool after_start_def same_head_def)
    then show ?thesis
      using decodes.one [OF decode_start_event [OF block_start_run, of i b d] stop [of ts "after_start i b d"]]
      by (intro exI [of _ "after_start i b d"])
        (simp add: STool block_events_def written_def block_data_def delta_frame_def comp_def)
  qed (use Cons.prems in simp)
  then obtain e where e: "decodes (documented_events sig i b) d
      (written (case b of STool tid n ts \<Rightarrow> block_data i b | _ \<Rightarrow> tl (block_data i b))) e"
    "same_head d e" "dc_thinking_block_positions e = dc_thinking_block_positions d" by blast
  obtain d1 where d1: "decodes (documented_blocks sig (i + 1) bs) e (written (documented_data (i + 1) bs)) d1"
    "same_head e d1" "dc_thinking_block_positions d1 = dc_thinking_block_positions e"
    using Cons by auto
  from decodes_append [OF e(1) d1(1)] show ?case using e d1 same_head_trans by fastforce
qed

lemma start_decodes:
  "decode_event (JObj [(''messageStart'', JObj [(''role'', JStr role)])]) (new_decoder model) =
     (Inr (written [start_data model role], False), new_decoder model)"
  by (simp add: decode_event_def new_decoder_def dget_def written_def start_data_def)

lemma documented_run:
  assumes "normalize_usage usage = Inr u" and "list_all (\<lambda>b. \<not> is_reasoning b) bs"
  shows "\<exists>d. iter_sse_events (documented_message sig role bs stop usage) None (new_decoder model) =
    (written (start_data model role # documented_data 0 bs @ end_data stop u), None, d) \<and> dc_usage d = u"
proof -
  obtain d1 where d1: "decodes (documented_blocks sig 0 bs) (new_decoder model) (written (documented_data 0 bs)) d1"
    using documented_decodes [OF assms(2)] by blast
  let ?d2 = "d1\<lparr>dc_pending_stop_reason := JStr stop\<rparr>"
  let ?d3 = "?d2\<lparr>dc_usage := u, dc_pending_stop_reason := JNull\<rparr>"
  have m: "decode_event (JObj [(''messageStop'', JObj [(''stopReason'', JStr stop)])]) d1 = (Inr ([], False), ?d2)"
    by (simp add: decode_event_def dget_def)
  have e: "decode_event (JObj [(''metadata'', JObj [(''usage'', usage)])]) ?d2 = (Inr (written (end_data stop u), False), ?d3)"
    using assms(1) by (simp add: decode_event_def update_from_metadata_def dget_def written_def end_data_def
        bindM_value [OF flush_pending_run])
  have "decodes (documented_message sig role bs stop usage) (new_decoder model)
      (written (start_data model role # documented_data 0 bs @ end_data stop u)) ?d3"
    using decodes.one [OF start_decodes decodes_append [OF d1 decodes.one [OF m decodes_single [OF e]]]]
    by (simp add: documented_message_def written_def)
  from iter_decodes [OF this, of "[]" None] show ?thesis by (simp add: flush_pending_stop_def)
qed

lemma documented_blocks_append:
  "documented_blocks sig i (xs @ ys) = documented_blocks sig i xs @ documented_blocks sig (i + int (length xs)) ys"
  by (induction xs arbitrary: i) (simp_all add: algebra_simps)

lemma documented_breaks:
  assumes "list_all (\<lambda>b. \<not> is_reasoning b) xs"
  shows "\<exists>d. iter_sse_events (documented_message sig role (xs @ SThinking (t # ts) # ys) stop usage) raised
    (new_decoder model) = (written (start_data model role # documented_data 0 xs), Some key_error, d)"
proof -
  let ?i = "int (length xs)"
  obtain d1 where d1: "decodes (documented_blocks sig 0 xs) (new_decoder model) (written (documented_data 0 xs)) d1"
    "dc_thinking_block_positions d1 = []"
    using documented_decodes [OF assms, of sig 0 "new_decoder model"] by (auto simp: new_decoder_def)
  have run: "decodes (JObj [(''messageStart'', JObj [(''role'', JStr role)])] # documented_blocks sig 0 xs)
      (new_decoder model) (written (start_data model role # documented_data 0 xs)) d1"
    using decodes.one [OF start_decodes d1(1)] by (simp add: written_def)
  obtain rest where "documented_message sig role (xs @ SThinking (t # ts) # ys) stop usage =
      (JObj [(''messageStart'', JObj [(''role'', JStr role)])] # documented_blocks sig 0 xs) @
      delta_event ?i (delta_json (SThinking (t # ts)) t) # rest"
    by (simp add: documented_message_def documented_blocks_append)
  then show ?thesis using stream_reasoning_without_start [OF run, of ?i "t # ts" t rest raised] d1(2) by simp
qed

subsection \<open>A client that copes\<close>

text \<open>A client that opens a block at its first delta when no start frame has announced it.\<close>

definition opened_block :: "json \<Rightarrow> (string, json) pydict" where
  "opened_block delta =
     (if field delta ''type'' = JStr ''input_json_delta'' then [(''type'', JStr ''tool_use'')]
      else if field delta ''type'' = JStr ''thinking_delta'' then [(''type'', JStr ''thinking''), (''thinking'', JStr [])]
      else [(''type'', JStr ''text''), (''text'', JStr [])])"

definition coping_step :: "ClientMessage \<Rightarrow> frame_data \<Rightarrow> ClientMessage" where
  "coping_step m f =
     (let i = dget (snd f) ''index'' JNull in
      client_step
        (if fst f = ''content_block_delta'' \<and> i \<notin> set (map fst (cm_blocks m))
         then m\<lparr>cm_blocks := cm_blocks m @ [(i, opened_block (dget (snd f) ''delta'' JNull), [])]\<rparr> else m) f)"

definition coping_read :: "frame_data list \<Rightarrow> ClientMessage" where
  "coping_read = foldl coping_step no_message"

definition is_tool_block :: "json \<Rightarrow> bool" where
  "is_tool_block b \<longleftrightarrow> field b ''type'' = JStr ''tool_use''"

lemma client_step_keeps_indices: "set (map fst (cm_blocks m)) \<subseteq> set (map fst (cm_blocks (client_step m f)))"
proof -
  have "map fst (map (\<lambda>(j, b, u). (j, b, if j = i then u @ t else u)) bs) = map fst bs"
    for i t and bs :: "(json \<times> (string, json) pydict \<times> string) list"
    by (induction bs) auto
  then have "set (map fst (cm_blocks (m\<lparr>cm_blocks := map (\<lambda>(j, b, u). (j, b, if j = i then u @ t else u)) (cm_blocks m)\<rparr>))) =
      set (map fst (cm_blocks m))" for i t by simp
  then show ?thesis by (cases f) (simp add: client_step_def Let_def subset_insertI del: set_map)
qed

lemma coping_as_client:
  "list_all (\<lambda>(n, p). n = ''content_block_delta'' \<longrightarrow> dget p ''index'' JNull \<in> set (map fst (cm_blocks m))) fs \<Longrightarrow>
     foldl coping_step m fs = foldl client_step m fs"
proof (induction fs arbitrary: m)
  case (Cons f fs)
  have "coping_step m f = client_step m f" using Cons.prems by (cases f) (auto simp: coping_step_def Let_def)
  moreover have "list_all (\<lambda>(n, p). n = ''content_block_delta'' \<longrightarrow>
      dget p ''index'' JNull \<in> set (map fst (cm_blocks (client_step m f)))) fs"
    using Cons.prems client_step_keeps_indices [of m f] by (auto simp: list_all_iff)
  ultimately show ?case using Cons.IH by simp
qed simp

definition delta_data :: "int \<Rightarrow> stream_block \<Rightarrow> string \<Rightarrow> frame_data" where
  "delta_data i b t = (''content_block_delta'', [(''type'', JStr ''content_block_delta''), (''index'', JInt i),
     (''delta'', JObj (client_delta b t))])"

definition stop_data :: "int \<Rightarrow> frame_data" where
  "stop_data i = (''content_block_stop'', [(''type'', JStr ''content_block_stop''), (''index'', JInt i)])"

lemma block_data_eq:
  "block_data i b = (''content_block_start'', [(''type'', JStr ''content_block_start''), (''index'', JInt i),
     (''content_block'', JObj (client_start b))]) # map (delta_data i b) (block_deltas b) @ [stop_data i]"
  by (simp add: block_data_def delta_data_def stop_data_def)

lemma delta_data_fields:
  "fst (delta_data i b t) = ''content_block_delta''" "dget (snd (delta_data i b t)) ''index'' JNull = JInt i"
  "dget (snd (delta_data i b t)) ''delta'' JNull = JObj (client_delta b t)"
  by (simp_all add: delta_data_def dget_def)

lemma client_step_delta:
  "client_step m (delta_data i b t) =
     m\<lparr>cm_blocks := map (\<lambda>(j, d, u). (j, d, if j = JInt i then u @ t else u)) (cm_blocks m)\<rparr>"
proof -
  obtain n p where f: "delta_data i b t = (n, p)" by force
  show ?thesis using delta_data_fields [of i b t]
    by (simp add: f client_step_def Let_def delta_text_client cong: if_cong)
qed

text \<open>One block, announced or not, read by the two clients.\<close>

lemma started_block:
  "client_step m (hd (block_data i b)) = m\<lparr>cm_blocks := cm_blocks m @ [(JInt i, client_start b, [])]\<rparr>"
  by (simp add: block_data_def client_step_def dget_def block_object_def)

lemma coping_rest:
  "JInt i \<in> set (map fst (cm_blocks m)) \<Longrightarrow>
     foldl coping_step m (map (delta_data i b) ts @ [stop_data i]) =
     foldl client_step m (map (delta_data i b) ts @ [stop_data i])"
  by (rule coping_as_client) (auto simp: list_all_iff delta_data_def stop_data_def dget_def)

lemma coping_block:
  assumes new: "\<forall>(j, d, t) \<in> set (cm_blocks m). j \<noteq> JInt i" and "arrives b" and "\<not> is_reasoning b"
  shows "foldl coping_step m (case b of STool tid n ts \<Rightarrow> block_data i b | _ \<Rightarrow> tl (block_data i b)) =
    m\<lparr>cm_blocks := cm_blocks m @ [read_block i b]\<rparr>"
proof -
  let ?m = "client_step m (hd (block_data i b))"
  have i: "JInt i \<in> set (map fst (cm_blocks ?m))" by (simp add: started_block)
  have all: "foldl client_step m (block_data i b) = m\<lparr>cm_blocks := cm_blocks m @ [read_block i b]\<rparr>"
    by (rule read_block_data [OF new])
  show ?thesis
  proof (cases b)
    case (SText ts)
    then obtain t us where ts: "ts = t # us" using assms(2) by (cases ts) auto
    have "JInt i \<notin> set (map fst (cm_blocks m))" using new by auto
    then have "coping_step m (delta_data i b t) = client_step ?m (delta_data i b t)"
      unfolding started_block coping_step_def delta_data_fields Let_def
      by (simp add: SText opened_block_def field_def dget_def)
    moreover have "JInt i \<in> set (map fst (cm_blocks (client_step ?m (delta_data i b t))))"
      using i client_step_keeps_indices by blast
    ultimately have "foldl coping_step m (tl (block_data i b)) = foldl client_step m (block_data i b)"
      using coping_rest [of i "client_step ?m (delta_data i b t)" b us]
      by (simp add: block_data_eq SText ts)
    then show ?thesis using all SText by simp
  next
    case (STool tid n ts)
    have "coping_step m (hd (block_data i b)) = ?m" by (simp add: coping_step_def block_data_eq)
    then have "foldl coping_step m (block_data i b) = foldl client_step m (block_data i b)"
      using coping_rest [OF i, of b ts] by (simp add: block_data_eq STool)
    then show ?thesis using all STool by simp
  qed (use assms(3) in simp)
qed

lemma strict_block:
  assumes new: "\<forall>(j, d, t) \<in> set (cm_blocks m). j \<noteq> JInt i" and "\<not> is_reasoning b"
  shows "foldl client_step m (case b of STool tid n ts \<Rightarrow> block_data i b | _ \<Rightarrow> tl (block_data i b)) =
    m\<lparr>cm_blocks := cm_blocks m @ (case b of STool tid n ts \<Rightarrow> [read_block i b] | _ \<Rightarrow> [])\<rparr>"
proof (cases b)
  case (SText ts)
  have "client_step m (delta_data i b t) = m" for t
  proof -
    have "map (\<lambda>(j, d, u). (j, d, if j = JInt i then u @ t else u)) (cm_blocks m) = cm_blocks m"
      using new by (intro map_idI) auto
    then show ?thesis by (simp add: client_step_delta)
  qed
  then have "foldl client_step m (map (delta_data i b) ts) = m" by (induction ts) simp_all
  then show ?thesis by (simp add: SText block_data_eq stop_data_def client_step_def)
next
  case (STool tid n ts)
  then show ?thesis using read_block_data [OF new, of b] by simp
qed (use assms(2) in simp)

text \<open>All the blocks.\<close>

lemma coping_blocks:
  assumes "\<forall>(j, d, t) \<in> set (cm_blocks m). \<exists>n < i. j = JInt n"
    and "list_all arrives bs" and "list_all (\<lambda>b. \<not> is_reasoning b) bs"
  shows "foldl coping_step m (documented_data i bs) = m\<lparr>cm_blocks := cm_blocks m @ read_blocks i bs\<rparr>"
  using assms
proof (induction bs arbitrary: i m)
  case (Cons b bs)
  let ?m = "m\<lparr>cm_blocks := cm_blocks m @ [read_block i b]\<rparr>"
  have "foldl coping_step m (case b of STool tid n ts \<Rightarrow> block_data i b | _ \<Rightarrow> tl (block_data i b)) = ?m"
    using Cons.prems by (intro coping_block) auto
  moreover have m: "\<forall>(j, d, t) \<in> set (cm_blocks ?m). \<exists>n < i + 1. j = JInt n"
    using Cons.prems(1) by fastforce
  ultimately show ?case using Cons.IH [OF m] Cons.prems(2,3) by simp
qed simp

fun read_tools :: "int \<Rightarrow> stream_block list \<Rightarrow> (json \<times> (string, json) pydict \<times> string) list" where
  "read_tools i [] = []"
| "read_tools i (b # bs) = (case b of STool tid n ts \<Rightarrow> [read_block i b] | _ \<Rightarrow> []) @ read_tools (i + 1) bs"

lemma strict_blocks:
  assumes "\<forall>(j, d, t) \<in> set (cm_blocks m). \<exists>n < i. j = JInt n" and "list_all (\<lambda>b. \<not> is_reasoning b) bs"
  shows "foldl client_step m (documented_data i bs) = m\<lparr>cm_blocks := cm_blocks m @ read_tools i bs\<rparr>"
  using assms
proof (induction bs arbitrary: i m)
  case (Cons b bs)
  let ?m = "m\<lparr>cm_blocks := cm_blocks m @ (case b of STool tid n ts \<Rightarrow> [read_block i b] | _ \<Rightarrow> [])\<rparr>"
  have "foldl client_step m (case b of STool tid n ts \<Rightarrow> block_data i b | _ \<Rightarrow> tl (block_data i b)) = ?m"
    using Cons.prems by (intro strict_block) auto
  moreover have m: "\<forall>(j, d, t) \<in> set (cm_blocks ?m). \<exists>n < i + 1. j = JInt n"
    using Cons.prems(1) by (cases b) fastforce+
  ultimately show ?case using Cons.IH [OF m] Cons.prems(2) by simp
qed simp

lemma finished_coping:
  "list_all (\<lambda>b. \<not> is_reasoning b) bs \<Longrightarrow> map (finished_block read_json) (read_blocks i bs) =
     concat (map client_content (map (joined read_json) bs))"
proof (induction bs arbitrary: i)
  case (Cons b bs)
  then show ?case by (cases b) (simp_all add: finished_block_def dget_def)
qed simp

lemma finished_strict:
  "list_all (\<lambda>b. \<not> is_reasoning b) bs \<Longrightarrow> map (finished_block read_json) (read_tools i bs) =
     filter is_tool_block (concat (map client_content (map (joined read_json) bs)))"
proof (induction bs arbitrary: i)
  case (Cons b bs)
  then show ?case by (cases b) (simp_all add: finished_block_def is_tool_block_def field_def dget_def)
qed simp

lemma read_start: "client_step no_message (start_data model role) = no_message\<lparr>cm_role := JStr role\<rparr>"
  "coping_step no_message (start_data model role) = no_message\<lparr>cm_role := JStr role\<rparr>"
  by (simp_all add: coping_step_def client_step_def start_data_def dget_def field_def)

lemma read_end:
  "foldl client_step m (end_data stop u) = m\<lparr>cm_stop_reason :=
     JStr (if stop \<in> SUPPORTED_STOP_REASONS then stop else ''end_turn''), cm_usage := JObj u, cm_complete := True\<rparr>"
  "foldl coping_step m (end_data stop u) = foldl client_step m (end_data stop u)"
  by (simp_all add: coping_step_def client_step_def end_data_def dget_def field_def)

lemma coping_documented:
  assumes "list_all arrives bs" and "list_all (\<lambda>b. \<not> is_reasoning b) bs"
  shows "coping_read (start_data model role # documented_data 0 bs) =
    no_message\<lparr>cm_role := JStr role, cm_blocks := read_blocks 0 bs\<rparr>"
proof -
  have "foldl coping_step (no_message\<lparr>cm_role := JStr role\<rparr>) (documented_data 0 bs) =
      no_message\<lparr>cm_role := JStr role, cm_blocks := read_blocks 0 bs\<rparr>"
    using coping_blocks [of "no_message\<lparr>cm_role := JStr role\<rparr>" 0 bs] assms by (simp add: no_message_def)
  then show ?thesis by (simp add: coping_read_def read_start)
qed

lemma strict_documented:
  assumes "list_all (\<lambda>b. \<not> is_reasoning b) bs"
  shows "client_read (start_data model role # documented_data 0 bs) =
    no_message\<lparr>cm_role := JStr role, cm_blocks := read_tools 0 bs\<rparr>"
proof -
  have "foldl client_step (no_message\<lparr>cm_role := JStr role\<rparr>) (documented_data 0 bs) =
      no_message\<lparr>cm_role := JStr role, cm_blocks := read_tools 0 bs\<rparr>"
    using strict_blocks [of "no_message\<lparr>cm_role := JStr role\<rparr>" 0 bs] assms by (simp add: no_message_def)
  then show ?thesis by (simp add: client_read_def read_start)
qed

lemma read_ended:
  "client_read (fs @ end_data stop u) = (client_read fs)\<lparr>cm_stop_reason :=
     JStr (if stop \<in> SUPPORTED_STOP_REASONS then stop else ''end_turn''), cm_usage := JObj u, cm_complete := True\<rparr>"
  "coping_read (fs @ end_data stop u) = (coping_read fs)\<lparr>cm_stop_reason :=
     JStr (if stop \<in> SUPPORTED_STOP_REASONS then stop else ''end_turn''), cm_usage := JObj u, cm_complete := True\<rparr>"
  by (simp_all only: client_read_def coping_read_def foldl_append read_end)

subsection \<open>The documented stream and the response\<close>

text \<open>
  Property C25: what a client gets of an answer streamed as the Converse API documents it, in any
  pieces, compared with the same answer parsed at once. Without reasoning the stream is complete
  and carries everything: a client that opens a block at its first delta puts together the role,
  the stop reason, the usage and the content of the parsed response, while one that waits for start
  frames gets its tool-use blocks only. With reasoning the stream breaks off with \<open>KeyError\<close> at the
  first reasoning block, and what such a client has by then is the content of the blocks before it.
\<close>

theorem documented_stream_and_response:
  assumes "normalize_usage usage = Inr u" and "list_all arrives bs"
  shows "if list_all (\<lambda>b. \<not> is_reasoning b) bs
    then \<exists>ds d m. iter_sse_events (documented_message sig role bs stop usage) None (new_decoder model) =
        (written ds, None, d) \<and> dc_usage d = u \<and>
      parse_converse_response (whole_response role (map (joined read_json) bs) stop usage) model = Inr m \<and>
      (let c = coping_read ds in
         cm_complete c \<and> dget m ''role'' JNull = cm_role c \<and> dget m ''stop_reason'' JNull = cm_stop_reason c \<and>
         dget m ''usage'' JNull = cm_usage c \<and> dget m ''content'' JNull = JList (client_blocks read_json c)) \<and>
      (let c = client_read ds in
         cm_complete c \<and> dget m ''role'' JNull = cm_role c \<and> dget m ''stop_reason'' JNull = cm_stop_reason c \<and>
         dget m ''usage'' JNull = cm_usage c \<and>
         client_blocks read_json c = filter is_tool_block (client_blocks read_json (coping_read ds)))
    else \<exists>ds d. iter_sse_events (documented_message sig role bs stop usage) None (new_decoder model) =
        (written ds, Some key_error, d) \<and> \<not> cm_complete (coping_read ds) \<and>
      client_blocks read_json (coping_read ds) = concat (map client_content
        (map (joined read_json) (takeWhile (\<lambda>b. \<not> is_reasoning b) bs)))"
proof (cases "list_all (\<lambda>b. \<not> is_reasoning b) bs")
  case True
  let ?ds = "(start_data model role # documented_data 0 bs) @ end_data stop u"
  obtain d where d: "iter_sse_events (documented_message sig role bs stop usage) None (new_decoder model) =
      (written ?ds, None, d)" "dc_usage d = u"
    using documented_run [OF assms(1) True] by fastforce
  note read = read_ended coping_documented [OF assms(2) True] strict_documented [OF True]
  obtain m where m: "parse_converse_response (whole_response role (map (joined read_json) bs) stop usage) model = Inr m"
    "dget m ''role'' JNull = JStr role"
    "dget m ''stop_reason'' JNull = JStr (if stop \<in> SUPPORTED_STOP_REASONS then stop else ''end_turn'')"
    "dget m ''usage'' JNull = JObj u"
    "dget m ''content'' JNull = JList (concat (map client_content (map (joined read_json) bs)))"
    using parse_whole_response [OF assms(1), of role "map (joined read_json) bs" stop model] by blast
  show ?thesis using True
    by (simp only: if_True, intro exI [of _ ?ds] exI [of _ d] exI [of _ m])
      (simp only: d m read Let_def client_blocks_def finished_coping [OF True] finished_strict [OF True]
        no_message_def ClientMessage.simps simp_thms)
next
  case False
  let ?xs = "takeWhile (\<lambda>b. \<not> is_reasoning b) bs"
  obtain b ys where split: "bs = ?xs @ b # ys" "is_reasoning b"
  proof (cases "dropWhile (\<lambda>b. \<not> is_reasoning b) bs")
    case Nil
    then show ?thesis using False by (auto simp: list_all_iff)
  next
    case (Cons b ys)
    then have "is_reasoning b" using hd_dropWhile [of "\<lambda>b. \<not> is_reasoning b" bs] by simp
    then show ?thesis using takeWhile_dropWhile_id [of "\<lambda>b. \<not> is_reasoning b" bs] Cons that by metis
  qed
  have xs: "list_all (\<lambda>b. \<not> is_reasoning b) ?xs" "list_all arrives ?xs" "arrives b"
    using assms(2) by (auto simp: list_all_iff dest: set_takeWhileD) (metis split(1) in_set_conv_decomp)
  obtain t ts where "b = SThinking (t # ts)" using split(2) xs(3) by (cases b) (auto simp: neq_Nil_conv)
  then obtain d where "iter_sse_events (documented_message sig role bs stop usage) None (new_decoder model) =
      (written (start_data model role # documented_data 0 ?xs), Some key_error, d)"
    using documented_breaks [OF xs(1), of sig role t ts ys stop usage None model] split(1) by auto
  moreover have "\<not> cm_complete (coping_read (start_data model role # documented_data 0 ?xs))"
    by (simp add: coping_documented [OF xs(2,1)] no_message_def)
  moreover have "client_blocks read_json (coping_read (start_data model role # documented_data 0 ?xs)) =
      concat (map client_content (map (joined read_json) ?xs))"
    by (simp only: coping_documented [OF xs(2,1)] client_blocks_def no_message_def ClientMessage.simps finished_coping [OF xs(1)])
  ultimately show ?thesis using False by (simp only: if_False) blast
qed

lemma documented_stream_and_response_witness:
  "(\<exists>ds d. iter_sse_events (documented_message ''s'' ''assistant'' [SText [''a'', ''b''], STool ''t'' ''n'' [''{}'']]
       ''tool_use'' JNull) None (new_decoder JNull) = (written ds, None, d) \<and>
     cm_complete (coping_read ds) \<and>
     client_blocks JStr (client_read ds) = filter is_tool_block (client_blocks JStr (coping_read ds))) \<and>
   (\<exists>ds d. iter_sse_events (documented_message ''s'' ''assistant'' [SText [''a''], SThinking [''b''], SText [''c'']]
       ''end_turn'' JNull) None (new_decoder JNull) = (written ds, Some key_error, d))"
proof -
  have u: "normalize_usage JNull = Inr (dc_usage (new_decoder JNull))"
    by (simp add: normalize_usage_def int_or_zero_def new_decoder_def py_or_def dget_def)
  show ?thesis
    using documented_stream_and_response [OF u, of "[SText [''a'', ''b''], STool ''t'' ''n'' [''{}'']]" "''s''" "''assistant''"
        "''tool_use''" JNull JStr]
      documented_stream_and_response [OF u, of "[SText [''a''], SThinking [''b''], SText [''c'']]" "''s''" "''assistant''"
        "''end_turn''" JNull JStr]
    by (auto simp: Let_def)
qed

end
