(* ===== verification/EndToEnd.thy ===== *)
theory EndToEnd
  imports ProxyApp TokenHandler
begin

section \<open>From the token event to the answer\<close>

text \<open>
  The two halves of the program meet in the ledger: the token service writes the key there, the
  proxy looks it up by its hash. This theory follows one key along the whole way, from the event of
  the token service's gateway to the answer of the messages endpoint and the record of its usage.
\<close>

subsection \<open>The answer to an authenticated request\<close>

text \<open>
  A body is servable when its model resolves and has a price, the payload is built, and the provider
  answers at once with a message the parser reads.
\<close>

definition servable :: "ProxyConfig \<Rightarrow> request \<Rightarrow> ConverseRequest \<Rightarrow> (string, json) pydict \<Rightarrow> bool" where
  "servable cfg d q parsed \<longleftrightarrow> (\<exists>m rm p raw. request_model cfg (JObj d) = Inr (m, rm) \<and>
     active_pricing cfg rm = Inr p \<and> build_converse_request d rm = Inr q \<and>
     cr_operation q \<noteq> ''converse_stream'' \<and> pc_converse cfg q = Inr raw \<and>
     parse_converse_response raw m = Inr parsed)"

text \<open>For such a body the specification leaves one answer, by the caller's standing and the limit.\<close>

lemma answer_by_standing:
  assumes a: "authenticated_as header rid (px_world s) a" and ok: "world_ok (px_world s)"
    and sv: "servable cfg d q parsed"
  shows "\<exists>j s'. create_message (proxy_app cfg now) rid lat (JObj d) header s = (Inr (Json j), s') \<and>
    (if \<not> in_good_standing a
     then jr_status_code j = 403 \<and> (\<exists>ev. adds s [] [ev] [] s' \<and>
       is_denial ev rid (if ur_is_active (ac_user_record a) then DENIAL_PROXY_ACCESS_DISABLED
         else DENIAL_USER_INACTIVE) (Some (caller_id a)))
     else if \<not> rl_allowed (fst (rate_decision cfg now a s))
     then jr_status_code j = 429 \<and> (\<exists>ev. adds s [] [ev] [] s' \<and>
       is_denial ev rid DENIAL_REASON_RATE_LIMITED (Some (caller_id a)))
     else jr_status_code j = 200 \<and> jr_content j = parsed \<and> (\<exists>ue ae usage. adds s [ue] [ae] [q] s' \<and>
       map_of parsed ''usage'' = Some (JObj usage) \<and> is_success ue ae rid (caller_id a) usage))"
proof -
  obtain m rm p raw where m: "request_model cfg (JObj d) = Inr (m, rm)" "active_pricing cfg rm = Inr p"
    "build_converse_request d rm = Inr q" "cr_operation q \<noteq> ''converse_stream''"
    "pc_converse cfg q = Inr raw" "parse_converse_response raw m = Inr parsed"
    using sv unfolding servable_def by blast
  obtain resp s' where run: "create_message (proxy_app cfg now) rid lat (JObj d) header s = (Inr resp, s')"
    "message_outcome cfg now rid (JObj d) header s resp s'"
    using message_outcome_run [OF ok] by blast
  have same: "b = a" if "authenticated_as header rid (px_world s) b" for b
    using that a by (simp add: authenticated_as_def)
  note status = service_error_status access_denied_error_def rate_limit_exceeded_error_def
  have out: "outside (pc_converse cfg q) = Inr raw" using m(5) by (simp add: outside_def)
  show ?thesis using run(2)
  proof (cases rule: message_outcome.cases)
    case (unauthenticated err ev)
    then show ?thesis using a by (simp add: authenticated_as_def)
  next
    case (denied b m' rm' ev reason)
    then show ?thesis using run(1) same by (auto simp: status)
  next
    case (limited b m' rm' p' dec w ev)
    then show ?thesis using run(1) same by (auto simp: status)
  next
    case (upstream b m' rm' d' q' err)
    then show ?thesis using m out by (auto simp: admitted_def)
  next
    case (answered b m' rm' d' q' raw' parsed' ue ae usage)
    then have "b = a" using same by (simp add: admitted_def)
    then show ?thesis using run(1) answered m by (auto simp: admitted_def)
  qed (use m in \<open>auto simp: admitted_def\<close>)
qed

subsection \<open>The way of a key\<close>

text \<open>
  Property C3: the key of a token response opens the proxy, as long as the ledger is as the token
  service left it. Take a good state (\<open>TokenWorld\<close>'s invariant), an event the token service answers
  with a key, generated from bytes as the program does, and then a request to the messages endpoint
  with this key as bearer token and a body that is servable: its model resolves and has a price, its
  payload is built, it does not ask for a stream, and the provider answers with a message that
  parses. The request is answered in the name of the user whom the event's ARN maps to: with
  the provider's answer, one call to Bedrock and one usage event of this user if the user is active, has
  proxy access and is within the rate limit, and otherwise with the 403 or 429 answer and one denial
  of this user. (\<open>AdminWorld\<close> has the case of a ledger that changes while the token service runs.)
\<close>

theorem issued_key_opens_proxy:
  assumes "world_good (hs_inner h)" and "uuid_in (ie_uuid env) = Some (ie_uuid env)"
    and "handle_get_or_create_key (token_handler_deps ttl env generated) latency_ms event h =
      (Inr resp, h')"
    and "map_of (rp_payload resp) ''virtual_key'' = Some (JStr key)"
    and "key = generate_virtual_key bs" and "\<forall>b \<in> set bs. b < 256"
    and "px_world s = hs_inner h'" and "servable cfg d q parsed"
  shows "\<exists>name u x j s'. extract_username_from_event event = Inr name \<and>
    fst (get_user_id_for_username name (w_db (hs_inner h))) = Inr (Some u) \<and>
    world_find_user u (hs_inner h') = Some x \<and>
    create_message (proxy_app cfg now) rid lat (JObj d) (Some (''Bearer '' @ key)) s = (Inr (Json j), s') \<and>
    (if \<not> (ur_is_active x \<and> ur_proxy_access_enabled x)
     then jr_status_code j = 403 \<and> (\<exists>ev. adds s [] [ev] [] s' \<and>
       is_denial ev rid (if ur_is_active x then DENIAL_PROXY_ACCESS_DISABLED else DENIAL_USER_INACTIVE) (Some u))
     else if \<not> rl_allowed (fst (rate_check (pc_requests_per_minute cfg) now u (px_windows s)))
     then jr_status_code j = 429 \<and> (\<exists>ev. adds s [] [ev] [] s' \<and>
       is_denial ev rid DENIAL_REASON_RATE_LIMITED (Some u))
     else jr_status_code j = 200 \<and> jr_content j = parsed \<and> (\<exists>ue ae usage. adds s [ue] [ae] [q] s' \<and>
       map_of parsed ''usage'' = Some (JObj usage) \<and> is_success ue ae rid u usage))"
proof -
  obtain rid0 r where r: "issue_for_event (token_handler_deps ttl env generated) event rid0 (hs_inner h) =
      (r, hs_inner h')" "resp = response_for rid0 r"
    using handle_answer [OF assms(3)] by blast
  obtain res where res: "r = Inr res" "key = ti_virtual_key res"
    using response_for_key assms(4) r(2) by blast
  obtain name u where u: "extract_username_from_event event = Inr name"
    "get_user_id_for_username name (w_db (hs_inner h)) = (Inr (Some u), w_db (hs_inner h))"
    "get_or_create_key (token_service ttl) env u rid0 (hs_inner h) = (Inr res, hs_inner h')"
    using issue_for_event_Inr r(1) res(1) by blast
  obtain k where ok: "world_ok (px_world s)" and k: "k \<in> world_keys (px_world s)"
    "vk_key_hash k = hash_virtual_key key" "vk_status k = ACTIVE" "vk_user_id k = u"
    using issued_key_record [OF assms(1,2) u(3)] assms(7) res(2) by auto
  obtain a where a: "authenticate auth_service (Some (''Bearer '' @ key)) rid (px_world s) = (Inr a, px_world s)"
    "world_find_user u (hs_inner h') = Some (ac_user_record a)" "ur_id (ac_user_record a) = u"
    using active_key_context [OF ok k(1-3) assms(5,6), of rid] k(4) assms(7) by auto
  have "authenticated_as (Some (''Bearer '' @ key)) rid (px_world s) a"
    using a(1) by (simp add: authenticated_as_def)
  from answer_by_standing [OF this ok assms(8), of now lat] show ?thesis
    using u(1,2) a(2,3) by (fastforce simp: in_good_standing_def caller_id_def rate_decision_def)
qed

lemma demo_servable: "\<exists>q parsed. servable demo_config demo_request q parsed"
proof -
  have "map_of demo_request ''model'' = Some (JStr ''claude'')" by (simp add: demo_request_def)
  from demo_request_model [OF this] demo_build demo_empty_answer show ?thesis
    by (simp add: servable_def active_pricing_def get_active_pricing_def demo_config_def)
qed

lemma issued_key_opens_proxy_witness:
  "\<exists>resp h' key j s' ue ae q. handle_get_or_create_key demo_handler_deps 3
       (demo_event ''arn:aws:sts::1:assumed-role/r/ana@corp'') demo_call = (Inr resp, h') \<and>
     map_of (rp_payload resp) ''virtual_key'' = Some (JStr key) \<and>
     create_message (proxy_app demo_config 0) ''r2'' 5 (JObj demo_request) (Some (''Bearer '' @ key))
       (demo_proxy (hs_inner h')) = (Inr (Json j), s') \<and> jr_status_code j = 200 \<and>
     adds (demo_proxy (hs_inner h')) [ue] [ae] [q] s' \<and> ue_user_id ue = ''ana''"
proof -
  let ?ev = "demo_event ''arn:aws:sts::1:assumed-role/r/ana@corp''"
  obtain resp h' and r :: TokenIssueResult where run:
    "handle_get_or_create_key demo_handler_deps 3 ?ev demo_call = (Inr resp, h')"
    "hs_inner h' = demo_issued 0" "map_of (rp_payload resp) ''virtual_key'' = Some (JStr (ti_virtual_key r))"
    "get_or_create_key (token_service 0) (demo_env 0) ''ana'' ''req-1'' demo_world = (Inr r, demo_issued 0)"
    "ti_source r = ISSUED"
    using demo_handler_run by blast
  note key = demo_issued_key [OF run(4,5)]
  have good: "world_good (hs_inner demo_call)" using demo_good by (simp add: demo_call_def)
  have px: "px_world (demo_proxy (hs_inner h')) = hs_inner h'" by (simp add: demo_proxy_def)
  obtain q parsed where sv: "servable demo_config demo_request q parsed" using demo_servable by blast
  have users: "fst (get_user_id_for_username name (w_db (hs_inner demo_call))) = Inr (Some u) \<Longrightarrow> u = ''ana''" for name u
    by (auto simp: demo_call_def demo_world_def get_user_id_for_username_def get_identity_mapping_def
        fetchone_def split: if_splits)
  have ana: "world_find_user ''ana'' (hs_inner h') = Some x \<Longrightarrow> ur_is_active x \<and> ur_proxy_access_enabled x" for x
    unfolding run(2) by (auto simp: demo_issued_def demo_world_def world_find_user_def fetchone_def
        user_row_to_record_def demo_user_def)
  have lim: "rl_allowed (fst (rate_check (pc_requests_per_minute demo_config) 0 u (px_windows (demo_proxy w))))" for u w
    using demo_rate by (simp add: demo_config_def demo_proxy_def)
  from issued_key_opens_proxy [OF good demo_uuid run(1) [unfolded demo_handler_deps_def] run(3) key
      demo_bytes_small px sv, of 0 "''r2''" 5]
  show ?thesis using run(1,3) users ana lim unfolding is_success_def by metis
qed

subsection \<open>A user who is deactivated\<close>

text \<open>An administrator edits the rows of the users; nothing in the program does it.\<close>

definition edit_users :: "(UserRow \<Rightarrow> UserRow) \<Rightarrow> World \<Rightarrow> World" where
  "edit_users f w = w\<lparr>w_db := (w_db w)\<lparr>db_users := map f (db_users (w_db w))\<rparr>\<rparr>"

lemma edit_users_keeps:
  assumes "\<forall>r. us_id (f r) = us_id r"
  shows "world_ok (edit_users f w) = world_ok w" "world_keys (edit_users f w) = world_keys w"
    "w_cache (edit_users f w) = w_cache w"
  using assms by (simp_all add: edit_users_def world_ok_def db_ok_def world_keys_def db_keys_def
      image_image)

lemma edited_user:
  assumes "\<forall>r. us_id (f r) = us_id r" and "world_find_user u (edit_users f w) = Some x"
  shows "\<exists>row. us_id row = u \<and> x = user_row_to_record (f row)"
proof -
  let ?rows = "filter (\<lambda>r. us_id r = u) (db_users (w_db w))"
  have "filter (\<lambda>r. us_id r = u) (map f (db_users (w_db w))) = map f ?rows"
    by (simp add: filter_map comp_def assms(1))
  then have "map_option user_row_to_record (fetchone (map f ?rows)) = Some x"
    using assms(2) by (simp add: world_find_user_def edit_users_def)
  then obtain row rest where rows: "?rows = row # rest" and x: "x = user_row_to_record (f row)"
    by (cases ?rows) (simp_all add: fetchone_def)
  have "row \<in> set ?rows" by (simp only: rows list.set_intros)
  then show ?thesis using x by auto
qed

text \<open>A cache hit does not look at the database, so it is the same on any other one.\<close>

lemma cache_unchanged [simp]: "w\<lparr>w_cache := c\<rparr> = w \<longleftrightarrow> c = w_cache w"
  by (cases w) auto

lemma cache_hit_run:
  "world_cache_get u (ie_now env) w = (Inr (Some e), w) \<Longrightarrow>
     get_or_create_key (token_service ttl) env u rid w =
       (bindR (simple_decrypt (ce_encrypted_key_ref e)) (\<lambda>vk.
          Inr \<lparr>ti_virtual_key = vk, ti_user_id = u, ti_key_id = ce_virtual_key_id e,
               ti_key_prefix = ce_key_prefix e, ti_status = ce_status e, ti_source = CACHE,
               ti_expires_at = None\<rparr>), w)"
  by (simp add: get_or_create_key_def token_service_def TokenIssueService_def bindM_def liftR_def)

lemma cache_hit_without_database:
  assumes "get_or_create_key (token_service ttl) env u rid w = (Inr r, w)"
    and "world_ok w" and "ti_source r = CACHE" and "w_cache w' = w_cache w"
  shows "get_or_create_key (token_service ttl) env u rid w' = (Inr r, w')"
proof -
  have "\<exists>e. world_cache_get u (ie_now env) w = (Inr (Some e), w)"
    by (rule world_issue.get_or_create_cases [of w ttl env u rid r w]) (use assms in auto)
  then obtain e where e: "world_cache_get u (ie_now env) w = (Inr (Some e), w)" by blast
  then have "world_cache_get u (ie_now env) w' = (Inr (Some e), w')"
    using assms(4) by (auto simp: world_cache_get_def on_cache_def split: prod.splits)
  then show ?thesis using assms(1) cache_hit_run [OF e] cache_hit_run by simp
qed

lemma blocked_answer:
  assumes a: "authenticated_as header rid (px_world s) a" and ok: "world_ok (px_world s)"
    and m: "request_model cfg (JObj d) = Inr (m, rm)" and bad: "\<not> in_good_standing a"
  shows "\<exists>j s' ev. create_message (proxy_app cfg now) rid lat (JObj d) header s = (Inr (Json j), s') \<and>
    jr_status_code j = 403 \<and> adds s [] [ev] [] s' \<and>
    is_denial ev rid (if ur_is_active (ac_user_record a) then DENIAL_PROXY_ACCESS_DISABLED
      else DENIAL_USER_INACTIVE) (Some (caller_id a))"
proof -
  obtain resp s' where run: "create_message (proxy_app cfg now) rid lat (JObj d) header s = (Inr resp, s')"
    "message_outcome cfg now rid (JObj d) header s resp s'"
    using message_outcome_run [OF ok] by blast
  have same: "b = a" if "authenticated_as header rid (px_world s) b" for b
    using that a by (simp add: authenticated_as_def)
  show ?thesis using run(2)
  proof (cases rule: message_outcome.cases)
    case (unauthenticated err ev)
    then show ?thesis using a by (simp add: authenticated_as_def)
  next
    case (denied b m' rm' ev reason)
    then show ?thesis using run(1) same by (auto simp: service_error_status access_denied_error_def)
  qed (use m bad same in \<open>auto simp: admitted_def\<close>)
qed

text \<open>
  Property C18: a user who is deactivated, or loses proxy access, goes on to get the same key from the
  token service until the cache entry expires, because a cache hit is answered without a look at
  the user. The proxy does look: it recognises the key, and refuses the request with 403, a denial
  of this user and no call to Bedrock.
\<close>

theorem deactivated_user_keeps_key:
  assumes "world_good w" and "uuid_in (ie_uuid env) = Some (ie_uuid env)"
    and "get_or_create_key (token_service ttl) env u rid w = (Inr r, w1)" and "ti_source r \<noteq> CACHE"
    and "ti_virtual_key r = generate_virtual_key bs" and "\<forall>b \<in> set bs. b < 256"
    and "\<forall>row. us_id (f row) = us_id row"
    and "\<forall>row. us_id row = u \<longrightarrow> \<not> (us_is_active (f row) \<and> us_proxy_access_enabled (f row))"
    and "int_timestamp (ie_now env') < int_timestamp (ie_now env + normalize_cache_ttl ttl)"
    and "px_world s = edit_users f w1" and "request_model cfg (JObj d) = Inr (m, rm)"
  shows "\<exists>r'. get_or_create_key (token_service ttl) env' u rid' (px_world s) = (Inr r', px_world s) \<and>
    ti_source r' = CACHE \<and> ti_virtual_key r' = ti_virtual_key r \<and>
    (\<exists>x j s' ev. world_find_user u (px_world s) = Some x \<and>
      create_message (proxy_app cfg now) rid'' lat (JObj d)
        (Some (''Bearer '' @ ti_virtual_key r')) s = (Inr (Json j), s') \<and>
      jr_status_code j = 403 \<and> adds s [] [ev] [] s' \<and> is_denial ev rid'' (if ur_is_active x
        then DENIAL_PROXY_ACCESS_DISABLED else DENIAL_USER_INACTIVE) (Some u))"
proof -
  obtain k where ok: "world_ok w1" and k: "k \<in> world_keys w1"
    "vk_key_hash k = hash_virtual_key (ti_virtual_key r)" "vk_status k = ACTIVE" "vk_user_id k = u"
    using issued_key_record [OF assms(1-3)] by blast
  note kept = edit_users_keeps [of f, OF assms(7)]
  have ok2: "world_ok (px_world s)" using ok kept(1) assms(10) by simp
  obtain r' where r': "get_or_create_key (token_service ttl) env' u rid' w1 = (Inr r', w1)"
    "ti_source r' = CACHE" "ti_virtual_key r' = ti_virtual_key r"
    using world_issue.cached_again [of w ttl env u rid r w1 env' rid'] assms(1,3,4,9)
    by (auto simp: world_good_def)
  have again: "get_or_create_key (token_service ttl) env' u rid' (px_world s) = (Inr r', px_world s)"
    by (rule cache_hit_without_database [OF r'(1) ok r'(2)]) (simp add: assms(10) kept(3))
  have "k \<in> world_keys (px_world s)" using k(1) kept(2) assms(10) by simp
  from active_key_context [OF ok2 this k(2,3) assms(5,6), of rid'']
  obtain a where a: "authenticated_as (Some (''Bearer '' @ ti_virtual_key r)) rid'' (px_world s) a"
    "world_find_user u (px_world s) = Some (ac_user_record a)" "caller_id a = u"
    unfolding k(4) authenticated_as_def caller_id_def by blast
  have "\<not> in_good_standing a"
    using edited_user [OF assms(7) a(2) [unfolded assms(10)]] assms(8)
    by (auto simp: in_good_standing_def user_row_to_record_def)
  from blocked_answer [OF a(1) ok2 assms(11) this, of now lat] show ?thesis
    using again r'(2,3) a(2,3) by auto
qed

definition deactivate :: "UserRow \<Rightarrow> UserRow" where
  "deactivate row = row\<lparr>us_is_active := False\<rparr>"

lemma deactivated_user_keeps_key_witness:
  "\<exists>r r' j s' ev. get_or_create_key (token_service 0) (demo_env 0) ''ana'' ''r1'' demo_world =
      (Inr r, demo_issued 0) \<and>
    get_or_create_key (token_service 0) (demo_env 0) ''ana'' ''r2'' (edit_users deactivate (demo_issued 0)) =
      (Inr r', edit_users deactivate (demo_issued 0)) \<and>
    ti_virtual_key r' = ti_virtual_key r \<and>
    create_message (proxy_app demo_config 0) ''r3'' 5 (JObj demo_request)
      (Some (''Bearer '' @ ti_virtual_key r')) (demo_proxy (edit_users deactivate (demo_issued 0))) =
      (Inr (Json j), s') \<and>
    jr_status_code j = 403 \<and> is_denial ev ''r3'' DENIAL_USER_INACTIVE (Some ''ana'')"
proof -
  let ?w = "edit_users deactivate (demo_issued 0)"
  obtain r where r: "get_or_create_key (token_service 0) (demo_env 0) ''ana'' ''r1'' demo_world =
      (Inr r, demo_issued 0)" "ti_source r = ISSUED"
    using demo_issue_run by blast
  have src: "ti_source r \<noteq> CACHE" using r(2) by simp
  have ids: "\<forall>row. us_id (deactivate row) = us_id row" by (simp add: deactivate_def)
  have off: "\<forall>row. us_id row = ''ana'' \<longrightarrow>
      \<not> (us_is_active (deactivate row) \<and> us_proxy_access_enabled (deactivate row))"
    by (simp add: deactivate_def)
  have soon: "int_timestamp (ie_now (demo_env 0)) < int_timestamp (ie_now (demo_env 0) + normalize_cache_ttl 0)"
    by (simp add: demo_env_def normalize_cache_ttl_def DEFAULT_CACHE_TTL_def int_timestamp_def time_defs)
  have px: "px_world (demo_proxy ?w) = ?w" by (simp add: demo_proxy_def)
  have m: "request_model demo_config (JObj demo_request) = Inr (JStr ''claude'', demo_model)"
    by (rule demo_request_model) (simp add: demo_request_def)
  have inactive: "\<not> ur_is_active x" if "world_find_user ''ana'' ?w = Some x" for x
    using edited_user [OF ids that] by (auto simp: user_row_to_record_def deactivate_def)
  from deactivated_user_keeps_key [OF demo_good demo_uuid r(1) src demo_issued_key [OF r] demo_bytes_small
      ids off soon px m, of "''r2''" 0 "''r3''" 5]
  obtain r' x j s' ev where served: "get_or_create_key (token_service 0) (demo_env 0) ''ana'' ''r2'' ?w = (Inr r', ?w)"
      "ti_virtual_key r' = ti_virtual_key r"
    and refused: "create_message (proxy_app demo_config 0) ''r3'' 5 (JObj demo_request)
      (Some (''Bearer '' @ ti_virtual_key r')) (demo_proxy ?w) = (Inr (Json j), s')" "jr_status_code j = 403"
    and x: "world_find_user ''ana'' ?w = Some x"
    and ev: "is_denial ev ''r3'' (if ur_is_active x then DENIAL_PROXY_ACCESS_DISABLED
      else DENIAL_USER_INACTIVE) (Some ''ana'')"
    unfolding px by (elim exE conjE) (rule that)
  from ev inactive [OF x] have "is_denial ev ''r3'' DENIAL_USER_INACTIVE (Some ''ana'')" by simp
  then show ?thesis using r(1) served refused by blast
qed

end
