(* ===== verification/CountTokens.thy ===== *)
theory CountTokens
  imports EndToEnd
begin

section \<open>Counting tokens (\<open>POST /v1/messages/count_tokens\<close>)\<close>

text \<open>
  The second endpoint of the proxy on the services of this library. It shares authentication,
  resolution and the request builder with the messages endpoint, and none of its other checks.
\<close>

definition request_to_count :: "ProxyConfig \<Rightarrow> json \<Rightarrow> ConverseRequest res" where
  "request_to_count cfg body =
     bindR (request_model cfg body) (\<lambda>(m, rm).
     bindR (request_of body) (\<lambda>d. build_converse_request d rm))"

lemma count_request_refused:
  assumes "authenticate auth_service header rid (px_world s) = (Inl err, px_world s)"
  shows "count_request (proxy_app cfg now) rid body header s = (Inl err, s)"
  using app_authenticate_request [OF assms] by (simp add: count_request_def)

lemma count_request_run:
  assumes "authenticate auth_service header rid (px_world s) = (Inr a, px_world s)"
  shows "count_request (proxy_app cfg now) rid body header s =
    (case request_to_count cfg body of
       Inl err \<Rightarrow> (Inl err, s)
     | Inr q \<Rightarrow> (outside (pc_count_tokens cfg q), s\<lparr>px_count_calls := px_count_calls s @ [q]\<rparr>))"
proof -
  have ret: "bindM (returnM x) f = f x" for x :: "ProxyState BedrockClient" and f :: "ProxyState BedrockClient \<Rightarrow> (ProxyState, json) op"
    by (simp add: fun_eq_iff)
  have auth: "authenticate_request (proxy_app cfg now) header rid s = (Inr a, s)"
    by (rule app_authenticate_request [OF assms])
  have parts: "ad_model_resolver (proxy_app cfg now) = Some (\<lambda>m. liftR (resolve (pc_alias_rules cfg) (pc_routes cfg) m))"
    "ad_bedrock_client (proxy_app cfg now) = Some (app_bedrock cfg)"
    "bc_count_tokens (app_bedrock cfg) q = (\<lambda>s. (outside (pc_count_tokens cfg q),
       s\<lparr>px_count_calls := px_count_calls s @ [q]\<rparr>))" for q
    by (simp_all add: proxy_app_def app_bedrock_def)
  show ?thesis
    by (simp add: count_request_def auth parts dependency_def ret request_to_count_def request_model_def
        bindR_def split: sum.split)
qed

text \<open>What counting does, and how it is answered.\<close>

lemma counted_request:
  assumes "world_ok (px_world s)"
    and "count_tokens (proxy_app cfg now) rid body header s = (r, s')"
  shows "case fst (authenticate auth_service header rid (px_world s)) of
      Inl err \<Rightarrow> s' = s \<and> r = Inr (Json (error_response_for_exception err rid))
    | Inr a \<Rightarrow> (case request_to_count cfg body of
          Inl err \<Rightarrow> s' = s \<and> r = Inr (Json (error_response_for_exception err rid))
        | Inr q \<Rightarrow> s' = s\<lparr>px_count_calls := px_count_calls s @ [q]\<rparr> \<and>
            (\<forall>c. pc_count_tokens cfg q = Inl c \<longrightarrow>
               r = Inr (Json (error_response_for_exception (PyErr c) rid))) \<and>
            (\<forall>p n. pc_count_tokens cfg q = Inr (JObj p) \<and> map_of p ''inputTokens'' = Some (JInt n) \<longrightarrow>
               r = Inr (Json \<lparr>jr_status_code = 200, jr_content = [(''input_tokens'', JInt n)], jr_headers = []\<rparr>)))"
proof -
  obtain x where x: "authenticate auth_service header rid (px_world s) = (x, px_world s)"
    using world_auth.always_answers [OF assms(1)] by blast
  show ?thesis
  proof (cases x)
    case (Inl err)
    then show ?thesis using assms(2) x count_request_refused by (simp add: count_tokens_def)
  next
    case (Inr a)
    note run = count_request_run [OF x [unfolded Inr], of cfg now body]
    show ?thesis
    proof (cases "request_to_count cfg body")
      case (Inl err)
      then show ?thesis using assms(2) x Inr run by (simp add: count_tokens_def)
    next
      case q: (Inr q)
      show ?thesis
      proof (cases "pc_count_tokens cfg q")
        case (Inl c)
        then show ?thesis using assms(2) x Inr run q by (simp add: count_tokens_def outside_def)
      next
        case j: (Inr v)
        then show ?thesis using assms(2) x Inr run q
          by (auto simp: count_tokens_def outside_def dget_def py_or_def bindR_def)
      qed
    qed
  qed
qed

text \<open>
  Property C2: what reaches Bedrock, by either endpoint of the proxy. A request that calls Bedrock
  carries the bearer of an active key of a registered user and names a model that resolves to a Converse
  route; there is one call, and what is sent is the request built from the body for that model. A
  Converse call is made for a message only, and only when the user is active, has proxy access and
  is within the rate limit of this process; a request to count tokens makes a counting call only, and
  for that one neither the user's standing nor the limit is asked.
\<close>

theorem bedrock_only_when_admitted:
  assumes "world_ok (px_world s)"
    and "create_message (proxy_app cfg now) rid lat (JObj d) header s = (r, s') \<or>
      count_tokens (proxy_app cfg now) rid (JObj d) header s = (r, s')"
    and "px_bedrock_calls s' \<noteq> px_bedrock_calls s \<or> px_count_calls s' \<noteq> px_count_calls s"
  shows "\<exists>a m rm q. authenticate auth_service header rid (px_world s) = (Inr a, px_world s) \<and>
    map_of d ''model'' = Some m \<and> resolve (pc_alias_rules cfg) (pc_routes cfg) m = Inr rm \<and>
    build_converse_request d rm = Inr q \<and>
    (if px_bedrock_calls s' \<noteq> px_bedrock_calls s
     then px_bedrock_calls s' = px_bedrock_calls s @ [q] \<and> px_count_calls s' = px_count_calls s \<and>
       create_message (proxy_app cfg now) rid lat (JObj d) header s = (r, s') \<and>
       ur_is_active (ac_user_record a) \<and> ur_proxy_access_enabled (ac_user_record a) \<and>
       rl_allowed (fst (rate_check (pc_requests_per_minute cfg) now (ur_id (ac_user_record a)) (px_windows s)))
     else px_count_calls s' = px_count_calls s @ [q] \<and>
       count_tokens (proxy_app cfg now) rid (JObj d) header s = (r, s'))"
  using assms(2)
proof
  assume run: "create_message (proxy_app cfg now) rid lat (JObj d) header s = (r, s')"
  then obtain resp where "message_outcome cfg now rid (JObj d) header s resp s'"
    using message_outcome_run [OF assms(1), of cfg now rid lat d header] by auto
  then have c: "px_count_calls s' = px_count_calls s"
    by (cases rule: message_outcome.cases) (auto simp: adds_def)
  then show ?thesis using message_call_admitted [OF assms(1) run] assms(3) run by auto
next
  assume run: "count_tokens (proxy_app cfg now) rid (JObj d) header s = (r, s')"
  note counted = counted_request [OF assms(1) run]
  obtain a q where a: "fst (authenticate auth_service header rid (px_world s)) = Inr a"
    "request_to_count cfg (JObj d) = Inr q" "s' = s\<lparr>px_count_calls := px_count_calls s @ [q]\<rparr>"
    using counted assms(3) by (auto split: sum.splits)
  have "authenticate auth_service header rid (px_world s) = (Inr a, px_world s)"
    using world_auth.always_answers [OF assms(1), of header rid] a(1) by auto
  then show ?thesis using a(2,3) run
    by (auto simp: request_to_count_def request_model_def bindR_eq_Inr request_of_def split: option.splits)
qed

text \<open>
  Property C19: counting asks nothing but who calls. Without a valid key, or with a body from which no
  request can be built, Bedrock is not called; otherwise it is called once, whatever the caller's
  standing, policies, budget and rate limit are, and what it counts is the answer. Nothing but the
  call itself changes in the state: no limiter window, no usage event, no audit event.
\<close>

theorem count_tokens_checks_key_only:
  assumes "world_ok (px_world s)"
    and "count_tokens (proxy_app cfg now) rid body header s = (r, s')"
  shows "case fst (authenticate auth_service header rid (px_world s)) of
      Inl err \<Rightarrow> s' = s \<and> r = Inr (Json (error_response_for_exception err rid))
    | Inr a \<Rightarrow> (case request_to_count cfg body of
          Inl err \<Rightarrow> s' = s \<and> r = Inr (Json (error_response_for_exception err rid))
        | Inr q \<Rightarrow> s' = s\<lparr>px_count_calls := px_count_calls s @ [q]\<rparr> \<and>
            (\<forall>c. pc_count_tokens cfg q = Inl c \<longrightarrow>
               r = Inr (Json (error_response_for_exception (PyErr c) rid))) \<and>
            (\<forall>p n. pc_count_tokens cfg q = Inr (JObj p) \<and> map_of p ''inputTokens'' = Some (JInt n) \<longrightarrow>
               r = Inr (Json \<lparr>jr_status_code = 200, jr_content = [(''input_tokens'', JInt n)], jr_headers = []\<rparr>)))"
  using counted_request [OF assms] .

text \<open>The caller of the example, whose account is deactivated, and a provider that counts seven.\<close>

definition counting_config :: ProxyConfig where
  "counting_config = demo_config\<lparr>pc_count_tokens := (\<lambda>_. Inr (JObj [(''inputTokens'', JInt 7)]))\<rparr>"

lemma counting_request: "\<exists>q. request_to_count counting_config (JObj demo_request) = Inr q"
proof -
  have "map_of demo_request ''model'' = Some (JStr ''claude'')" by (simp add: demo_request_def)
  from demo_request_model [OF this]
  have "request_model counting_config (JObj demo_request) = Inr (JStr ''claude'', demo_model)"
    by (simp add: request_model_def counting_config_def)
  then show ?thesis using demo_build by (simp add: request_to_count_def request_of_def)
qed

lemma bedrock_only_when_admitted_witness:
  "(\<exists>r s' q. create_message (proxy_app demo_config 0) ''r2'' 5 (JObj demo_request) demo_header
       (demo_proxy (demo_issued 0)) = (r, s') \<and> px_bedrock_calls s' = [q] \<and> px_count_calls s' = []) \<and>
   (\<exists>r s' q. count_tokens (proxy_app counting_config 0) ''r9'' (JObj demo_request) demo_header
       (demo_proxy (demo_issued 0)) = (r, s') \<and> px_bedrock_calls s' = [] \<and> px_count_calls s' = [q])"
proof
  let ?s = "demo_proxy (demo_issued 0)"
  obtain j s' where run: "create_message (proxy_app demo_config 0) ''r2'' 5 (JObj demo_request) demo_header ?s =
      (Inr (Json j), s')" "px_bedrock_calls s' \<noteq> []"
    using demo_answer by blast
  have new: "px_bedrock_calls s' \<noteq> px_bedrock_calls ?s" using run(2) by (simp add: demo_proxy_def)
  from bedrock_only_when_admitted [OF demo_proxy_ok disjI1 [OF run(1)] disjI1 [OF new]] new
  have "\<exists>q. px_bedrock_calls s' = [q]" "px_count_calls s' = []" by (auto simp: demo_proxy_def)
  then show "\<exists>r s' q. create_message (proxy_app demo_config 0) ''r2'' 5 (JObj demo_request) demo_header ?s = (r, s') \<and>
      px_bedrock_calls s' = [q] \<and> px_count_calls s' = []"
    using run(1) by blast
  obtain q where q: "request_to_count counting_config (JObj demo_request) = Inr q" using counting_request by blast
  obtain a where a: "authenticate auth_service demo_header ''r9'' (px_world ?s) = (Inr a, px_world ?s)"
    using demo_authenticated by (auto simp: demo_proxy_def)
  obtain r s2 where run2: "count_tokens (proxy_app counting_config 0) ''r9'' (JObj demo_request) demo_header ?s = (r, s2)"
    by fastforce
  then have c: "px_count_calls s2 = px_count_calls ?s @ [q]" "px_bedrock_calls s2 = px_bedrock_calls ?s"
    using counted_request [OF demo_proxy_ok run2] a q by simp_all
  have new2: "px_count_calls s2 \<noteq> px_count_calls ?s" using c(1) by simp
  from bedrock_only_when_admitted [where lat = 0, OF demo_proxy_ok disjI2 [OF run2] disjI2 [OF new2]] c
  show "\<exists>r s' q. count_tokens (proxy_app counting_config 0) ''r9'' (JObj demo_request) demo_header ?s = (r, s') \<and>
      px_bedrock_calls s' = [] \<and> px_count_calls s' = [q]"
    using run2 by (auto simp: demo_proxy_def)
qed

lemma count_tokens_checks_key_only_witness:
  "\<exists>w a s'. w = edit_users deactivate (demo_issued 0) \<and>
     authenticate auth_service demo_header ''r9'' w = (Inr a, w) \<and> \<not> in_good_standing a \<and>
     count_tokens (proxy_app counting_config 0) ''r9'' (JObj demo_request) demo_header (demo_proxy w) =
       (Inr (Json \<lparr>jr_status_code = 200, jr_content = [(''input_tokens'', JInt 7)], jr_headers = []\<rparr>), s') \<and>
     px_count_calls s' \<noteq> []"
proof -
  let ?w = "edit_users deactivate (demo_issued 0)"
  have ids: "\<forall>row. us_id (deactivate row) = us_id row" by (simp add: deactivate_def)
  have ok: "world_ok ?w" using demo_issued_ok edit_users_keeps(1) [OF ids] by simp
  have k: "demo_key 0 \<in> world_keys ?w" using demo_key_in edit_users_keeps(2) [OF ids] by simp
  have hd: "demo_header = Some (''Bearer '' @ generate_virtual_key demo_bytes)"
    by (simp add: demo_header_def demo_bytes_key)
  have key: "vk_key_hash (demo_key 0) = hash_virtual_key (generate_virtual_key demo_bytes)"
    "vk_status (demo_key 0) = ACTIVE"
    using demo_active by (simp_all add: demo_bytes_key)
  from active_key_context [OF ok k key refl demo_bytes_small, of "''r9''"]
  obtain a where a: "authenticate auth_service demo_header ''r9'' ?w = (Inr a, ?w)"
    "world_find_user (vk_user_id (demo_key 0)) ?w = Some (ac_user_record a)"
    unfolding hd by blast
  have "\<not> in_good_standing a"
    using edited_user [OF ids a(2)] by (auto simp: in_good_standing_def user_row_to_record_def deactivate_def)
  moreover obtain r s' where run: "count_tokens (proxy_app counting_config 0) ''r9'' (JObj demo_request)
      demo_header (demo_proxy ?w) = (r, s')" by fastforce
  moreover obtain q where "request_to_count counting_config (JObj demo_request) = Inr q"
    using counting_request by blast
  moreover have "world_ok (px_world (demo_proxy ?w))" using ok by (simp add: demo_proxy_def)
  ultimately show ?thesis
    using count_tokens_checks_key_only [OF \<open>world_ok (px_world (demo_proxy ?w))\<close> run] a(1)
    by (auto simp: demo_proxy_def counting_config_def)
qed

end
