(* ===== verification/Lifetime.thy ===== *)
theory Lifetime
  imports TokenConcurrency CountTokens "HOL-Library.Multiset"
begin

section \<open>The service over time\<close>

text \<open>
  The program as one transition system. Its state is that of the proxy with the ledger and the
  cache in it, the token requests under way, the streaming answers still being written, and the
  history of the proxy's answers: for each request its identifier, the calls it made to Bedrock and
  what it was answered. Its steps are the accesses of the token
  requests, the two halves of a rotation, changes to the users, requests to the two endpoints of
  the proxy, and the ends of streams, in any order. What is proved here holds in every state
  that a good one leads to.
\<close>

datatype Exchange =
  Message string "ConverseRequest list" "ProxyResponse res"
| Count string "ConverseRequest list" "ProxyResponse res"

record Service =
  sv_proxy :: ProxyState
  sv_calls :: "Call list"
  sv_streams :: "StreamJob list"
  sv_log :: "Exchange list"

abbreviation sv_world :: "Service \<Rightarrow> World" where
  "sv_world s \<equiv> px_world (sv_proxy s)"

definition token_side :: "Service \<Rightarrow> System" where
  "token_side s = \<lparr>sy_world = sv_world s, sy_calls = sv_calls s\<rparr>"

text \<open>The stream an answer opens, and the elements a list has grown by.\<close>

fun stream_of :: "ProxyResponse res \<Rightarrow> StreamJob list" where
  "stream_of (Inr (Streaming job)) = [job]"
| "stream_of r = []"

definition since :: "'a list \<Rightarrow> 'a list \<Rightarrow> 'a list" where
  "since xs ys = drop (length xs) ys"

lemma since_append [simp]: "since xs (xs @ ys) = ys"
  by (simp add: since_def)

inductive service_step ::
    "ProxyConfig \<Rightarrow> datetime \<Rightarrow> (VirtualKeyRecord \<Rightarrow> (World, unit) op) \<Rightarrow> Service \<Rightarrow> Service \<Rightarrow> bool"
    for cfg ttl save where
  token: "system_step ttl save (token_side s) sys \<Longrightarrow>
    service_step cfg ttl save s
      (s\<lparr>sv_proxy := (sv_proxy s)\<lparr>px_world := sy_world sys\<rparr>, sv_calls := sy_calls sys\<rparr>)"
| replace: "k \<in> world_keys (sv_world s) \<Longrightarrow>
    replacement_key (key_admin get save now nk ni) k (sv_world s) = (Inr r, sv_world s) \<Longrightarrow>
    ni \<notin> vk_id ` world_keys (sv_world s) \<Longrightarrow>
    hash_virtual_key nk \<notin> vk_key_hash ` world_keys (sv_world s) \<Longrightarrow>
    save r (sv_world s) = (Inr (), w) \<Longrightarrow>
    service_step cfg ttl save s (s\<lparr>sv_proxy := (sv_proxy s)\<lparr>px_world := w\<rparr>\<rparr>)"
| users: "world_ok w \<Longrightarrow> world_keys w = world_keys (sv_world s) \<Longrightarrow> w_cache w = w_cache (sv_world s) \<Longrightarrow>
    service_step cfg ttl save s (s\<lparr>sv_proxy := (sv_proxy s)\<lparr>px_world := w\<rparr>\<rparr>)"
| message: "create_message (proxy_app cfg now) rid lat body header (sv_proxy s) = (r, p) \<Longrightarrow>
    service_step cfg ttl save s
      (s\<lparr>sv_proxy := p, sv_streams := sv_streams s @ stream_of r,
         sv_log := sv_log s @ [Message rid (since (px_bedrock_calls (sv_proxy s)) (px_bedrock_calls p)) r]\<rparr>)"
| stream_ends: "sv_streams s = js @ job # js' \<Longrightarrow>
    stream_with_audit (proxy_app cfg now) lat job (sv_proxy s) = (frames, raised, p) \<Longrightarrow>
    service_step cfg ttl save s (s\<lparr>sv_proxy := p, sv_streams := js @ js'\<rparr>)"
| count: "count_tokens (proxy_app cfg now) rid body header (sv_proxy s) = (r, p) \<Longrightarrow>
    service_step cfg ttl save s (s\<lparr>sv_proxy := p,
      sv_log := sv_log s @ [Count rid (since (px_count_calls (sv_proxy s)) (px_count_calls p)) r]\<rparr>)"

subsection \<open>Keys only lose their status\<close>

text \<open>
  From one state of the ledger to a later one, every key is still there, of the same user and with the
  same hash, and one that was out of use is still out of use.
\<close>

definition ledger_moves_on :: "World \<Rightarrow> World \<Rightarrow> bool" where
  "ledger_moves_on w w' \<longleftrightarrow> (\<forall>k \<in> world_keys w. \<exists>k' \<in> world_keys w'. vk_id k' = vk_id k \<and>
     vk_key_hash k' = vk_key_hash k \<and> vk_user_id k' = vk_user_id k \<and>
     (vk_status k \<noteq> ACTIVE \<longrightarrow> vk_status k' \<noteq> ACTIVE))"

lemma ledger_moves_on_subset: "world_keys w \<subseteq> world_keys w' \<Longrightarrow> ledger_moves_on w w'"
  unfolding ledger_moves_on_def by blast

lemma ledger_moves_on_refl [simp]: "ledger_moves_on w w"
  by (simp add: ledger_moves_on_subset)

lemma ledger_moves_on_trans:
  assumes "ledger_moves_on w w1" and "ledger_moves_on w1 w2"
  shows "ledger_moves_on w w2"
  unfolding ledger_moves_on_def
proof
  fix k assume "k \<in> world_keys w"
  then obtain k1 where k1: "k1 \<in> world_keys w1" "vk_id k1 = vk_id k" "vk_key_hash k1 = vk_key_hash k"
    "vk_user_id k1 = vk_user_id k" "vk_status k \<noteq> ACTIVE \<longrightarrow> vk_status k1 \<noteq> ACTIVE"
    using assms(1) unfolding ledger_moves_on_def by blast
  then obtain k2 where "k2 \<in> world_keys w2" "vk_id k2 = vk_id k1" "vk_key_hash k2 = vk_key_hash k1"
    "vk_user_id k2 = vk_user_id k1" "vk_status k1 \<noteq> ACTIVE \<longrightarrow> vk_status k2 \<noteq> ACTIVE"
    using assms(2) unfolding ledger_moves_on_def by blast
  then show "\<exists>k' \<in> world_keys w2. vk_id k' = vk_id k \<and> vk_key_hash k' = vk_key_hash k \<and>
      vk_user_id k' = vk_user_id k \<and> (vk_status k \<noteq> ACTIVE \<longrightarrow> vk_status k' \<noteq> ACTIVE)"
    using k1 by auto
qed

text \<open>An access of a token request adds at most a record.\<close>

lemma cache_put_world_keys:
  assumes "cache_key_record (token_service ttl) k now w = (r, w')"
  shows "world_keys w' = world_keys w"
  using assms by (cases r) (auto simp: cache_key_record_def dest: world_issue.put_keeps world_issue.put_fail)

lemma access_adds:
  assumes ok: "world_ok w" and uuid: "uuid_in (ie_uuid env) = Some (ie_uuid env)"
    and run: "advance_from (token_service ttl) u rid env p w = (p', w')"
  shows "world_keys w \<subseteq> world_keys w'"
proof (cases p)
  case AtCache
  then have "w' = w" using run world_issue.get_run [of u "ie_now env" w]
    by (auto split: sum.splits option.splits prod.splits)
  then show ?thesis by simp
next
  case AtUser
  then have "w' = w" using run world_issue.require_allowed_user_Inr world_issue.require_allowed_user_Inl
    by (auto split: sum.splits prod.splits)
  then show ?thesis by simp
next
  case (AtLedger user)
  then have "w' = w" using run world_ledger.get_active_total [OF ok, of "ur_id user"]
    by (auto split: sum.splits option.splits prod.splits)
  then show ?thesis by simp
next
  case (AtReuse user k)
  obtain r t where r: "cache_key_record (token_service ttl) k (ie_now env) w = (r, t)" by force
  then have "w' = t" using run AtReuse by (auto split: sum.splits)
  then show ?thesis using cache_put_world_keys [OF r] by simp
next
  case (AtSave user)
  let ?k = "new_key_record (token_service ttl) env (ur_id user)"
  obtain r t where r: "world_save_key ?k w = (r, t)" by force
  then have t: "w' = t" using run AtSave by (auto split: sum.splits)
  have "storable_id ?k" using uuid by (simp add: storable_new)
  then show ?thesis using r t world_ledger.save_ok [OF ok] by (cases r) (auto dest: world_ledger.save_fail)
next
  case (AtCachePut user)
  let ?k = "new_key_record (token_service ttl) env (ur_id user)"
  obtain r t where r: "cache_key_record (token_service ttl) ?k (ie_now env) w = (r, t)" by force
  then have "w' = t" using run AtCachePut by (auto split: sum.splits)
  then show ?thesis using cache_put_world_keys [OF r] by simp
next
  case (Finished r)
  then show ?thesis using run by simp
qed

lemma system_step_moves:
  assumes "system_step ttl save sys sys'" and "replaces_keys save" and "system_ok sys"
  shows "ledger_moves_on (sy_world sys) (sy_world sys')"
  using assms(1)
proof cases
  case (access i cs w p w')
  have c: "call_ok w (cs ! i)" "world_ok w" using assms(3) access by (auto simp: system_ok_def stores_ok_def)
  have "world_keys w \<subseteq> world_keys w'"
    by (rule access_adds [OF c(2), where env = "cl_env (cs ! i)" and p = "cl_phase (cs ! i)" and ttl = ttl
          and u = "cl_user (cs ! i)" and rid = "cl_request_id (cs ! i)" and p' = p])
      (use c(1) access(4) in \<open>simp_all add: call_ok_def advance_def\<close>)
  then show ?thesis using access by (simp add: ledger_moves_on_subset)
next
  case (deactivate k w st t w' cs)
  let ?r = "k\<lparr>vk_status := st, vk_revoked_at := t\<rparr>"
  have "world_ok w" using assms(3) deactivate by (simp add: system_ok_def stores_ok_def)
  then have "\<exists>w''. save ?r w = (Inr (), w'') \<and> world_ok w'' \<and> world_keys w'' = insert ?r (world_keys w - {k}) \<and>
      w_cache w'' = w_cache w \<and> db_users (w_db w'') = db_users (w_db w)"
    using assms(2) deactivate(3) unfolding replaces_keys_def by simp
  then have "world_keys w' = insert ?r (world_keys w - {k})" using deactivate(5) by auto
  then have "ledger_moves_on w w'"
    unfolding ledger_moves_on_def using deactivate(4) by auto
  then show ?thesis using deactivate by simp
next
  case (empty_cache u w w' cs)
  then have "world_keys w' = world_keys w" using world_invalidate_run [of u w] by (auto simp: world_keys_def)
  then show ?thesis using empty_cache by (simp add: ledger_moves_on_subset)
qed simp

text \<open>A state whose ledger has grown by sealed records only, with the same cache.\<close>

lemma stores_ok_grown:
  assumes "stores_ok w" and "world_ok w'" and "world_keys w \<subseteq> world_keys w'"
    and "\<forall>k \<in> world_keys w' - world_keys w. sealed_record k" and "w_cache w' = w_cache w"
  shows "stores_ok w' \<and> keeps_keys w w'"
proof -
  have kk: "keeps_keys w w'" by (rule keeps_keys_subset [OF assms(3)])
  have "fst (world_cache_get u now w') = fst (world_cache_get u now w)" for u now
    using assms(5) by (simp add: world_cache_get_def on_cache_def split: prod.split)
  then show ?thesis using assms kk by (auto simp: stores_ok_def keeps_keys_def)
qed

lemma replacement_grows:
  assumes ok: "world_ok w" and save: "adds_keys save" and k: "k \<in> world_keys w"
    and r: "replacement_key (key_admin get save now nk ni) k w = (Inr r, w)"
    and fresh: "ni \<notin> vk_id ` world_keys w" "hash_virtual_key nk \<notin> vk_key_hash ` world_keys w"
    and run: "save r w = (Inr (), w')"
  shows "world_ok w' \<and> world_keys w' = insert r (world_keys w) \<and> w_cache w' = w_cache w \<and> sealed_record r"
proof -
  have f: "vk_id r = ni" "vk_key_hash r = hash_virtual_key nk" "vk_user_id r = vk_user_id k" "sealed_record r"
    using r by (auto simp: replacement_key_def key_admin_def sealed_record_def)
  have "vk_id r \<notin> vk_id ` world_keys w" "vk_key_hash r \<notin> vk_key_hash ` world_keys w"
    "vk_user_id r \<in> us_id ` set (db_users (w_db w))"
    using fresh world_key_user [OF ok k] unfolding f by blast+
  from save [unfolded adds_keys_def, rule_format, OF ok this] obtain v where
    "save r w = (Inr (), v)" "world_ok v" "world_keys v = insert r (world_keys w)" "w_cache v = w_cache w"
    by blast
  then show ?thesis using run f(4) by simp
qed

subsection \<open>The books\<close>

text \<open>
  Usage and audit list the same successes. The calls made to Bedrock are those of the exchanges in the
  history; an exchange that delivers a message made one, and is booked or still streaming.
  And nobody is charged who never had a key.
\<close>

fun delivered :: "ProxyResponse res \<Rightarrow> bool" where
  "delivered (Inr (Streaming job)) = True"
| "delivered (Inr (Json j)) = (jr_status_code j = 200)"
| "delivered (Inl e) = False"

text \<open>Without a message, there was no call, or the one there was has failed.\<close>

definition failed_with :: "int set \<Rightarrow> ProxyResponse res \<Rightarrow> bool" where
  "failed_with codes r \<longleftrightarrow> (\<exists>j. r = Inr (Json j) \<and> jr_status_code j \<in> codes)"

fun exchange_ok :: "Exchange \<Rightarrow> bool" where
  "exchange_ok (Message rid cs r) \<longleftrightarrow>
     (if delivered r then length cs = 1 else cs = [] \<or> length cs = 1 \<and> failed_with {400, 502} r)"
| "exchange_ok (Count rid cs r) \<longleftrightarrow> length cs \<le> 1"

fun message_calls :: "Exchange \<Rightarrow> ConverseRequest list" where
  "message_calls (Message rid cs r) = cs"
| "message_calls (Count rid cs r) = []"

fun counting_calls :: "Exchange \<Rightarrow> ConverseRequest list" where
  "counting_calls (Message rid cs r) = []"
| "counting_calls (Count rid cs r) = cs"

fun deliveries :: "Exchange \<Rightarrow> string list" where
  "deliveries (Message rid cs r) = (if delivered r then [rid] else [])"
| "deliveries (Count rid cs r) = []"

definition key_owner :: "World \<Rightarrow> string \<Rightarrow> bool" where
  "key_owner w u \<longleftrightarrow> (\<exists>k \<in> world_keys w. vk_user_id k = u)"

definition booked :: "UsageEventRecord \<Rightarrow> string \<times> string option" where
  "booked = (\<lambda>ue. (ue_request_id ue, Some (ue_user_id ue)))"

definition successes :: "AuditEventRecord list \<Rightarrow> (string \<times> string option) list" where
  "successes as = map (\<lambda>ae. (ae_request_id ae, ae_actor_user_id ae))
     (filter (\<lambda>ae. ae_decision ae = AUDIT_DECISION_ALLOWED) as)"

definition books_balance :: "Service \<Rightarrow> bool" where
  "books_balance s \<longleftrightarrow> (let p = sv_proxy s in
     map booked (px_usage_events p) = successes (px_audit_events p) \<and>
     px_bedrock_calls p = concat (map message_calls (sv_log s)) \<and>
     px_count_calls p = concat (map counting_calls (sv_log s)) \<and>
     list_all exchange_ok (sv_log s) \<and>
     mset (map ue_request_id (px_usage_events p)) + mset (map sj_request_id (sv_streams s)) =
       mset (concat (map deliveries (sv_log s))) \<and>
     (\<forall>ue \<in> set (px_usage_events p). key_owner (px_world p) (ue_user_id ue)))"

definition job_ok :: "World \<Rightarrow> StreamJob \<Rightarrow> bool" where
  "job_ok w job \<longleftrightarrow> (\<exists>rid a m rm pd qd raw uc. job = stream_job rid a m rm pd qd raw \<and>
     ac_user a = Inr uc \<and> key_owner w (uc_user_id uc))"

lemma successes_append [simp]: "successes (as @ bs) = successes as @ successes bs"
  by (simp add: successes_def)

lemma successes_Nil [simp]: "successes [] = []"
  by (simp add: successes_def)

lemma successes_denial: "is_denial ev rid reason actor \<Longrightarrow> successes [ev] = []"
  by (simp add: successes_def is_denial_def AUDIT_DECISION_DENIED_def AUDIT_DECISION_ALLOWED_def)

lemma successes_success: "is_success ue ae rid uid usage \<Longrightarrow> successes [ae] = [booked ue]"
  by (simp add: successes_def is_success_def booked_def)

lemma key_owner_moves: "ledger_moves_on w w' \<Longrightarrow> key_owner w u \<Longrightarrow> key_owner w' u"
  unfolding ledger_moves_on_def key_owner_def by metis

lemma job_ok_moves: "ledger_moves_on w w' \<Longrightarrow> job_ok w job \<Longrightarrow> job_ok w' job"
  unfolding job_ok_def using key_owner_moves by blast

lemma authenticated_owner:
  assumes "world_ok w" and "authenticated_as header rid w a"
  shows "key_owner w (caller_id a)"
proof -
  obtain k x where k: "k \<in> world_keys w" "world_find_user (vk_user_id k) w = Some x" "ac_user_record a = x"
    using assms unfolding authenticated_as_def world_auth.authenticate_iff [OF assms(1)]
    by (auto simp: restore_trusted_request_context_def)
  then show ?thesis using world_auth.find_user_id [OF k(2)] by (auto simp: key_owner_def caller_id_def)
qed

text \<open>What a message writes in the books.\<close>

definition entries_ok ::
    "ProxyState \<Rightarrow> ProxyState \<Rightarrow> string \<Rightarrow> ProxyResponse res \<Rightarrow> bool" where
  "entries_ok p p' rid r \<longleftrightarrow> (\<exists>us as cs. adds p us as cs p' \<and> map booked us = successes as \<and>
     exchange_ok (Message rid cs r) \<and>
     map ue_request_id us @ map sj_request_id (stream_of r) = deliveries (Message rid cs r) \<and>
     (\<forall>ue \<in> set us. key_owner (px_world p) (ue_user_id ue)))"

lemma entries_okI:
  "adds p us as cs p' \<Longrightarrow> map booked us = successes as \<Longrightarrow> exchange_ok (Message rid cs r) \<Longrightarrow>
     map ue_request_id us @ map sj_request_id (stream_of r) = deliveries (Message rid cs r) \<Longrightarrow>
     (\<And>ue. ue \<in> set us \<Longrightarrow> key_owner (px_world p) (ue_user_id ue)) \<Longrightarrow> entries_ok p p' rid r"
  unfolding entries_ok_def by blast

lemma admitted_owner:
  "world_ok (px_world p) \<Longrightarrow> admitted cfg now rid body header p a m rm \<Longrightarrow> key_owner (px_world p) (caller_id a)"
  using authenticated_owner unfolding admitted_def by blast

text \<open>An error, with or without a denial on record, writes nothing in the books.\<close>

lemma error_entries:
  assumes "adds p [] as [] p'" and "successes as = []" and "\<not> delivered r"
  shows "entries_ok p p' rid r"
proof -
  have "stream_of r = []" using assms(3) by (cases r rule: delivered.cases) simp_all
  then show ?thesis using assms by (intro entries_okI [OF assms(1)]) simp_all
qed

lemma message_entries:
  assumes ok: "world_ok (px_world p)"
    and run: "create_message (proxy_app cfg now) rid lat body header p = (r, p')"
  shows "entries_ok p p' rid r \<and> (\<forall>job \<in> set (stream_of r). job_ok (px_world p) job)"
proof (cases "is_mapping body")
  case False
  have e: "jr_status_code (error_response_for_exception type_error rid) \<noteq> 200"
    by (simp add: type_error_def error_response_status)
  have "p' = p" "\<not> delivered r" "stream_of r = []"
    using message_not_an_object [OF ok False, of cfg now rid lat header] run e by (auto split: sum.splits)
  then show ?thesis using error_entries [of p "[]" p r rid] by simp
next
  case True
  then obtain d where d: "body = JObj d" by (cases body) simp_all
  obtain resp where resp: "r = Inr resp" "message_outcome cfg now rid (JObj d) header p resp p'"
    using message_outcome_run [OF ok, of cfg now rid lat d header] run d by auto
  have quiet: ?thesis if "adds p [] as [] p'" "successes as = []" "\<not> delivered r" for as
    using error_entries [OF that] that(3) by (cases r rule: delivered.cases) simp_all
  show ?thesis using resp(2)
  proof (cases rule: message_outcome.cases)
    case (unauthenticated err ev)
    have "jr_status_code (error_response_for_exception err rid) = 401"
      using world_auth.always_answers [OF ok, of header rid] unauthenticated(2) by (auto simp: error_response_status)
    then show ?thesis using quiet [of "[ev]"] unauthenticated resp(1) successes_denial by simp
  next
    case (unresolved a err)
    then show ?thesis using quiet [of "[]"] resp(1) request_model_err [of cfg "JObj d" err rid] by auto
  next
    case (denied a m rm ev reason)
    then show ?thesis using quiet [of "[ev]"] resp(1) successes_denial
      by (simp add: service_error_status access_denied_error_def)
  next
    case (unpriced a m rm err)
    then show ?thesis using quiet [of "[]"] resp(1) active_pricing_err [of cfg rm err rid] by auto
  next
    case (limited a m rm pr dec w ev)
    then show ?thesis using quiet [of "[ev]"] resp(1) successes_denial
      by (simp add: service_error_status rate_limit_exceeded_error_def)
  next
    case (unbuildable a m rm d' err)
    then show ?thesis using quiet [of "[]"] resp(1) build_err [of d' rm err rid] by auto
  next
    case (upstream a m rm d' q err)
    have "jr_status_code (error_response_for_exception err rid) \<in> {400, 502}"
      by (rule bedrock_err [OF upstream(5)])
    then show ?thesis using upstream(1,6) resp(1)
      by (auto simp: failed_with_def intro!: entries_okI [of p "[]" "[]" "[q]"])
  next
    case (answered a m rm d' q raw parsed ue ae usage)
    have "ue_user_id ue = caller_id a" "ue_request_id ue = rid" using answered(11) by (simp_all add: is_success_def)
    then have "entries_ok p p' rid r"
      using entries_okI [OF answered(8)] successes_success [OF answered(11)] admitted_owner [OF ok answered(2)]
        answered(1) resp(1) by simp
    then show ?thesis using answered(1) resp(1) by simp
  next
    case (streaming a m rm d' q raw pd qd)
    have au: "authenticated_as header rid (px_world p) a" using streaming(2) by (simp add: admitted_def)
    obtain uc where "ac_user a = Inr uc" "uc_user_id uc = caller_id a"
      using authenticate_context au unfolding authenticated_as_def by blast
    then have "job_ok (px_world p) (stream_job rid a m rm pd qd raw)"
      using authenticated_owner [OF ok au] unfolding job_ok_def by metis
    then show ?thesis using streaming(1,7) resp(1)
      by (auto simp: stream_job_def intro!: entries_okI [of p "[]" "[]" "[q]"])
  qed
qed

text \<open>What the end of a stream writes.\<close>

lemma stream_entries:
  assumes "job_ok (px_world p) job"
    and "stream_with_audit (proxy_app cfg now) lat job p = (frames, raised, p')"
  shows "\<exists>ue ae. adds p [ue] [ae] [] p' \<and> [booked ue] = successes [ae] \<and>
    ue_request_id ue = sj_request_id job \<and> key_owner (px_world p) (ue_user_id ue)"
proof -
  obtain rid a m rm pd qd raw uc where job: "job = stream_job rid a m rm pd qd raw"
    and u: "ac_user a = Inr uc" "key_owner (px_world p) (uc_user_id uc)"
    using assms(1) unfolding job_ok_def by blast
  obtain fs x dec where it: "iter_sse_events (fst raw) (snd raw) (new_decoder m) = (fs, x, dec)"
    using prod_cases3 by blast
  have "usage_ok (dc_usage dec)"
    using iter_sse_ok [OF it decoder_ok_new] by (simp add: decoder_ok_def)
  then obtain ue ae s' where run: "record_success (app_logger cfg now) a rid m (rm_bedrock_model_id rm) pd
      (dc_usage dec) (qd_usage_snapshot qd) (Some lat) p = (Inr (), s')"
    and s': "adds p [ue] [ae] [] s'" "is_success ue ae rid (uc_user_id uc) (dc_usage dec)"
    using app_record_success [OF _ u(1)] by metis
  have "p' = s'"
    using assms(2) it run by (auto simp: job stream_with_audit_def stream_job_def proxy_app_def)
  moreover have "ue_user_id ue = uc_user_id uc" "ue_request_id ue = sj_request_id job"
    using s'(2) by (simp_all add: is_success_def job stream_job_def)
  ultimately show ?thesis using s'(1) u(2) successes_success [OF s'(2)]
    by (intro exI [of _ ue] exI [of _ ae]) simp
qed

text \<open>Counting writes nothing.\<close>

lemma count_entries:
  assumes "world_ok (px_world p)" and "count_tokens (proxy_app cfg now) rid body header p = (r, p')"
  shows "\<exists>cs. p' = p\<lparr>px_count_calls := px_count_calls p @ cs\<rparr> \<and> length cs \<le> 1"
  using counted_request [OF assms] by (auto intro: exI [of _ "[]"] split: sum.splits)

subsection \<open>Every step keeps the service in order\<close>

definition service_ok :: "Service \<Rightarrow> bool" where
  "service_ok s \<longleftrightarrow> system_ok (token_side s) \<and> (\<forall>job \<in> set (sv_streams s). job_ok (sv_world s) job)"

lemma service_ok_world: "service_ok s \<Longrightarrow> world_ok (sv_world s)"
  by (simp add: service_ok_def system_ok_def stores_ok_def token_side_def)

definition in_order :: "Service \<Rightarrow> Service \<Rightarrow> bool" where
  "in_order s s' \<longleftrightarrow> service_ok s' \<and> ledger_moves_on (sv_world s) (sv_world s') \<and>
     (books_balance s \<longrightarrow> books_balance s')"

text \<open>A step on the stores, which leaves the lists alone.\<close>

lemma store_step:
  assumes "service_ok s" and "system_ok \<lparr>sy_world = w, sy_calls = cs\<rparr>" and "ledger_moves_on (sv_world s) w"
  shows "in_order s (s\<lparr>sv_proxy := (sv_proxy s)\<lparr>px_world := w\<rparr>, sv_calls := cs\<rparr>)"
  using assms job_ok_moves [OF assms(3)] key_owner_moves [OF assms(3)]
  by (simp add: in_order_def service_ok_def token_side_def books_balance_def Let_def)

lemma grown_step:
  assumes "service_ok s" and "world_ok w" and "world_keys (sv_world s) \<subseteq> world_keys w"
    and "\<forall>k \<in> world_keys w - world_keys (sv_world s). sealed_record k" and "w_cache w = w_cache (sv_world s)"
  shows "in_order s (s\<lparr>sv_proxy := (sv_proxy s)\<lparr>px_world := w\<rparr>\<rparr>)"
proof -
  have ok: "system_ok (token_side s)" using assms(1) by (simp add: service_ok_def)
  then have "stores_ok (sv_world s)" by (simp add: system_ok_def token_side_def)
  note grown = stores_ok_grown [OF this assms(2-5)]
  then have "call_ok w c" if "c \<in> set (sv_calls s)" for c
    using ok that call_ok_keeps by (auto simp: system_ok_def token_side_def)
  then have "system_ok \<lparr>sy_world = w, sy_calls = sv_calls s\<rparr>" using grown by (simp add: system_ok_def)
  from store_step [OF assms(1) this ledger_moves_on_subset [OF assms(3)]] show ?thesis by simp
qed

text \<open>A step of the proxy, which leaves the stores alone.\<close>

lemma entries_balance:
  assumes "books_balance s" and "entries_ok (sv_proxy s) p rid r"
  shows "books_balance (s\<lparr>sv_proxy := p, sv_streams := sv_streams s @ stream_of r,
    sv_log := sv_log s @ [Message rid (since (px_bedrock_calls (sv_proxy s)) (px_bedrock_calls p)) r]\<rparr>)"
proof -
  obtain us as cs where new: "adds (sv_proxy s) us as cs p" "map booked us = successes as"
    "exchange_ok (Message rid cs r)"
    "map ue_request_id us @ map sj_request_id (stream_of r) = deliveries (Message rid cs r)"
    "\<forall>ue \<in> set us. key_owner (px_world (sv_proxy s)) (ue_user_id ue)"
    using assms(2) unfolding entries_ok_def by blast
  let ?s = "s\<lparr>sv_proxy := p, sv_streams := sv_streams s @ stream_of r, sv_log := sv_log s @ [Message rid cs r]\<rparr>"
  have "mset (deliveries (Message rid cs r)) = mset (map ue_request_id us) + mset (map sj_request_id (stream_of r))"
    unfolding new(4) [symmetric] by simp
  moreover have "mset (concat (map deliveries (sv_log s))) =
      mset (map ue_request_id (px_usage_events (sv_proxy s))) + mset (map sj_request_id (sv_streams s))"
    using assms(1) by (simp add: books_balance_def Let_def del: mset_map)
  ultimately have "mset (map ue_request_id (px_usage_events p)) + mset (map sj_request_id (sv_streams ?s)) =
      mset (concat (map deliveries (sv_log ?s)))"
    using new(1) by (simp add: adds_def ac_simps del: mset_map deliveries.simps)
  then show ?thesis
    using assms(1) new(1-3,5) unfolding books_balance_def Let_def adds_def
    by (auto simp del: mset_map deliveries.simps exchange_ok.simps)
qed

lemma proxy_step:
  assumes "service_ok s" and "px_world p = sv_world s" and "\<forall>job \<in> set js. job_ok (sv_world s) job"
    and "books_balance s \<Longrightarrow> books_balance (s\<lparr>sv_proxy := p, sv_streams := js, sv_log := l\<rparr>)"
  shows "in_order s (s\<lparr>sv_proxy := p, sv_streams := js, sv_log := l\<rparr>)"
  using assms by (simp add: in_order_def service_ok_def token_side_def)

lemma service_step_in_order:
  assumes "service_step cfg ttl save s s'" and rep: "replaces_keys save" and new: "adds_keys save"
    and ok: "service_ok s"
  shows "in_order s s'"
  using assms(1)
proof cases
  case (token sys)
  have "system_ok (token_side s)" using ok by (simp add: service_ok_def)
  note sys = system_step_ok [OF token(2) rep this] system_step_moves [OF token(2) rep this]
  show ?thesis unfolding token(1) by (rule store_step [OF ok]) (use sys in \<open>cases sys; simp add: token_side_def\<close>)+
next
  case (replace k get now nk ni r w)
  note grows = replacement_grows [OF service_ok_world [OF ok] new replace(2-6)]
  show ?thesis unfolding replace(1) by (rule grown_step [OF ok]) (use grows in auto)
next
  case (users w)
  show ?thesis unfolding users(1) by (rule grown_step [OF ok]) (use users in simp_all)
next
  case (message now rid lat body header r p)
  note e = message_entries [OF service_ok_world [OF ok] message(2)]
  have w: "px_world p = sv_world s" using e by (auto simp: entries_ok_def adds_def)
  show ?thesis unfolding message(1)
  proof (rule proxy_step [OF ok w])
    show "\<forall>job \<in> set (sv_streams s @ stream_of r). job_ok (sv_world s) job"
      using ok e by (auto simp: service_ok_def)
  qed (rule entries_balance [OF _ conjunct1 [OF e]])
next
  case (stream_ends js job js' now lat frames raised p)
  have "job_ok (sv_world s) job" using ok stream_ends(2) by (simp add: service_ok_def)
  from stream_entries [OF this stream_ends(3)]
  obtain ue ae where new: "adds (sv_proxy s) [ue] [ae] [] p" "[booked ue] = successes [ae]"
    "ue_request_id ue = sj_request_id job" "key_owner (sv_world s) (ue_user_id ue)" by blast
  have w: "px_world p = sv_world s" using new(1) by (simp add: adds_def)
  have js: "\<forall>job \<in> set (js @ js'). job_ok (sv_world s) job" using ok stream_ends(2) by (simp add: service_ok_def)
  have "books_balance (s\<lparr>sv_proxy := p, sv_streams := js @ js'\<rparr>)" if "books_balance s"
    using that new stream_ends(2) unfolding books_balance_def Let_def adds_def by auto
  then show ?thesis unfolding stream_ends(1) using proxy_step [OF ok w js, of "sv_log s"] by simp
next
  case (count now rid body header r p)
  from count_entries [OF service_ok_world [OF ok] count(2)] obtain cs where
    "p = (sv_proxy s)\<lparr>px_count_calls := px_count_calls (sv_proxy s) @ cs\<rparr>" "length cs \<le> 1"
    by blast
  then show ?thesis unfolding count(1)
    using ok by (simp add: in_order_def service_ok_def token_side_def books_balance_def Let_def)
qed

lemma service_reaches:
  assumes "(service_step cfg ttl save)\<^sup>*\<^sup>* s s'" and "replaces_keys save" and "adds_keys save" and "service_ok s"
  shows "in_order s s'"
  using assms(1)
proof (induction rule: rtranclp_induct)
  case base
  then show ?case using assms(4) by (simp add: in_order_def)
next
  case (step t t')
  have "in_order t t'"
    by (rule service_step_in_order [OF step(2) assms(2,3)]) (use step.IH in \<open>simp add: in_order_def\<close>)
  then show ?case using step.IH ledger_moves_on_trans unfolding in_order_def by blast
qed

lemma good_service_ok:
  "world_good (sv_world s) \<Longrightarrow> sv_calls s = [] \<Longrightarrow> sv_streams s = [] \<Longrightarrow> service_ok s"
  by (simp add: service_ok_def system_ok_def token_side_def good_stores_ok)

subsection \<open>The administrator's operations as steps\<close>

lemma one_step: "service_step cfg ttl save s s' \<Longrightarrow> (service_step cfg ttl save)\<^sup>*\<^sup>* s s'"
  by (rule r_into_rtranclp)

lemma token_step:
  assumes "system_step ttl save \<lparr>sy_world = sv_world s, sy_calls = sv_calls s\<rparr> \<lparr>sy_world = w, sy_calls = cs\<rparr>"
  shows "service_step cfg ttl save s (s\<lparr>sv_proxy := (sv_proxy s)\<lparr>px_world := w\<rparr>, sv_calls := cs\<rparr>)"
  using service_step.token [of ttl save s "\<lparr>sy_world = w, sy_calls = cs\<rparr>" cfg] assms by (simp add: token_side_def)

text \<open>Saving a key with another status and emptying the cache of its user.\<close>

lemma status_change_steps:
  assumes ok: "world_ok (sv_world s)" and rep: "replaces_keys save" and k: "k \<in> world_keys (sv_world s)"
    and st: "st \<noteq> ACTIVE" and r: "r = k\<lparr>vk_status := st, vk_revoked_at := t\<rparr>"
    and run: "bindM (save r) (\<lambda>_. bindM (invalidate (key_admin get save now nk ni) r) (\<lambda>_. returnM r))
      (sv_world s) = (q, w)"
  shows "(service_step cfg ttl save)\<^sup>*\<^sup>* s (s\<lparr>sv_proxy := (sv_proxy s)\<lparr>px_world := w\<rparr>\<rparr>)"
proof -
  have "vk_id r = vk_id k" "vk_key_hash r = vk_key_hash k" "vk_user_id r = vk_user_id k" by (simp_all add: r)
  with rep [unfolded replaces_keys_def, rule_format, OF ok k] obtain w1 where w1: "save r (sv_world s) = (Inr (), w1)"
    by blast
  obtain c where c: "world_invalidate (vk_user_id r) w1 = (Inr (), w1\<lparr>w_cache := c\<rparr>)"
    using world_invalidate_run by blast
  have w: "w = w1\<lparr>w_cache := c\<rparr>" using run w1 c by (simp add: invalidate_def key_admin_def)
  let ?s1 = "s\<lparr>sv_proxy := (sv_proxy s)\<lparr>px_world := w1\<rparr>\<rparr>"
  have "service_step cfg ttl save s ?s1"
    using token_step [where s = s and w = w1 and cs = "sv_calls s" and ttl = ttl and save = save and cfg = cfg]
      system_step.deactivate [where k = k and w = "sv_world s" and st = st and t = t and save = save
        and w' = w1 and ttl = ttl and cs = "sv_calls s"] k st w1 by (simp add: r)
  moreover have "service_step cfg ttl save ?s1 (s\<lparr>sv_proxy := (sv_proxy s)\<lparr>px_world := w\<rparr>\<rparr>)"
    using token_step [where s = ?s1 and w = w and cs = "sv_calls s" and ttl = ttl and save = save and cfg = cfg]
      system_step.empty_cache [OF c, of ttl save "sv_calls s"] by (simp add: w)
  ultimately show ?thesis by simp
qed

lemma revoke_is_steps:
  assumes "world_ok (sv_world s)" and "finds_keys get" and "replaces_keys save" and "k \<in> world_keys (sv_world s)"
    and "revoke (key_admin get save now nk ni) (vk_id k) (sv_world s) = (r, w)"
  shows "(service_step cfg ttl save)\<^sup>*\<^sup>* s (s\<lparr>sv_proxy := (sv_proxy s)\<lparr>px_world := w\<rparr>\<rparr>)"
proof -
  have g: "get (vk_id k) (sv_world s) = (Inr (Some k), sv_world s)"
    using assms(1,2,4) unfolding finds_keys_def by blast
  show ?thesis
    by (rule status_change_steps [OF assms(1,3,4) _ refl, of REVOKED "Some now" get now nk ni r])
      (use assms(5) g in \<open>simp_all add: revoke_def require_key_def key_admin_def Let_def\<close>)
qed

lemma disable_is_steps:
  assumes "world_ok (sv_world s)" and "finds_keys get" and "replaces_keys save" and "k \<in> world_keys (sv_world s)"
    and "disable (key_admin get save now nk ni) (vk_id k) (sv_world s) = (r, w)"
  shows "(service_step cfg ttl save)\<^sup>*\<^sup>* s (s\<lparr>sv_proxy := (sv_proxy s)\<lparr>px_world := w\<rparr>\<rparr>)"
proof -
  have g: "get (vk_id k) (sv_world s) = (Inr (Some k), sv_world s)"
    using assms(1,2,4) unfolding finds_keys_def by blast
  have d: "k\<lparr>vk_status := DISABLED\<rparr> = k\<lparr>vk_status := DISABLED, vk_revoked_at := vk_revoked_at k\<rparr>" by simp
  show ?thesis
    by (rule status_change_steps [OF assms(1,3,4) _ d, of get now nk ni r])
      (use assms(5) g in \<open>simp_all add: disable_def require_key_def key_admin_def Let_def\<close>)
qed

lemma rotate_is_steps:
  assumes ok: "world_ok (sv_world s)" and get: "finds_keys get" and rep: "replaces_keys save" and new: "adds_keys save"
    and k: "k \<in> world_keys (sv_world s)"
    and fresh: "ni \<notin> vk_id ` world_keys (sv_world s)" "hash_virtual_key nk \<notin> vk_key_hash ` world_keys (sv_world s)"
    and run: "rotate (key_admin get save now nk ni) (vk_id k) (sv_world s) = (r, w)"
  shows "(service_step cfg ttl save)\<^sup>*\<^sup>* s (s\<lparr>sv_proxy := (sv_proxy s)\<lparr>px_world := w\<rparr>\<rparr>)"
proof -
  let ?svc = "key_admin get save now nk ni" and ?d = "k\<lparr>vk_status := DISABLED\<rparr>"
  obtain w1 where w1: "disable ?svc (vk_id k) (sv_world s) = (Inr ?d, w1)"
    "world_keys w1 = insert ?d (world_keys (sv_world s) - {k})"
    using key_admin_repository.disable_run [OF key_admin_repository.intro [OF get rep] ok k] by blast
  let ?s1 = "s\<lparr>sv_proxy := (sv_proxy s)\<lparr>px_world := w1\<rparr>\<rparr>"
  have steps: "(service_step cfg ttl save)\<^sup>*\<^sup>* s ?s1" by (rule disable_is_steps [OF ok get rep k w1(1)])
  obtain n where n: "replacement_key ?svc ?d w1 = (Inr n, w1)" by (simp add: replacement_key_def key_admin_def)
  obtain w2 n' where "rotate ?svc (vk_id k) (sv_world s) = (Inr (?d, n'), w2)"
    using key_admin_repository.rotate_run [OF key_admin_repository.intro [OF get rep] ok k new fresh] by blast
  then have "save n w1 = (Inr (), w)"
    using run w1(1) n by (auto simp: rotate_def bindM_Inr key_admin_def)
  moreover have "ni \<notin> vk_id ` world_keys w1" "hash_virtual_key nk \<notin> vk_key_hash ` world_keys w1"
    using fresh k by (auto simp: w1(2))
  moreover have "?d \<in> world_keys w1" by (simp add: w1(2))
  ultimately have "service_step cfg ttl save ?s1 (?s1\<lparr>sv_proxy := (sv_proxy ?s1)\<lparr>px_world := w\<rparr>\<rparr>)"
    using n by (intro service_step.replace [where k = ?d and get = get and now = now and nk = nk and ni = ni and r = n]) simp_all
  with steps show ?thesis by simp
qed

subsection \<open>Properties\<close>

text \<open>
  Property C4: a key that is out of use stays out. From the moment the ledger has it revoked or
  disabled, whatever token requests, revocations, rotations, user changes, messages and streams
  follow, and in whatever order, a message that carries it is answered with 401 and one denial, and Bedrock is
  not called for it; not even a stale cache entry or a rotation brings it back.
\<close>

theorem deactivated_key_stays_out:
  assumes "world_good (sv_world s0)" and "sv_calls s0 = []" and "sv_streams s0 = []"
    and "replaces_keys save" and "adds_keys save"
    and "(service_step cfg ttl save)\<^sup>*\<^sup>* s0 s" and "(service_step cfg ttl save)\<^sup>*\<^sup>* s s'"
    and "k \<in> world_keys (sv_world s)" and "vk_status k \<noteq> ACTIVE"
    and "extract_virtual_key header rid = Inr vk" and "vk_key_hash k = hash_virtual_key vk"
  shows "\<exists>j p ev. create_message (proxy_app cfg now) rid lat (JObj d) header (sv_proxy s') = (Inr (Json j), p) \<and>
    jr_status_code j = 401 \<and> adds (sv_proxy s') [] [ev] [] p \<and>
    is_denial ev rid DENIAL_REASON_AUTHENTICATION_FAILED None"
proof -
  have s: "service_ok s"
    using service_reaches [OF assms(6,4,5) good_service_ok [OF assms(1-3)]] by (simp add: in_order_def)
  have s': "in_order s s'" by (rule service_reaches [OF assms(7,4,5) s])
  then obtain k' where k': "k' \<in> world_keys (sv_world s')" "vk_key_hash k' = hash_virtual_key vk" "vk_status k' \<noteq> ACTIVE"
    using assms(8,9,11) unfolding in_order_def ledger_moves_on_def by metis
  have "world_ok (sv_world s')" using s' service_ok_world by (simp add: in_order_def)
  from revoked_key_is_cut_off [OF this assms(10) k', of cfg now lat d] show ?thesis by blast
qed

text \<open>
  Property C5: the books balance at all times. The usage list and the successes of the audit list
  are the same requests of the same users in the same order. The requests booked and the streams still
  being written are together exactly the messages that were delivered, each as often as it was; each
  of these made one call to Bedrock, and a message that was not delivered made none, or one that failed and was
  answered with status 400 or 502. There are no other calls but those that count tokens, at
  most one for a request to count, which are booked nowhere. Every user who is charged has a key
  in the ledger.
\<close>

theorem books_always_balance:
  assumes "world_good (sv_world s0)" and "sv_calls s0 = []" and "sv_streams s0 = []" and "sv_log s0 = []"
    and "px_usage_events (sv_proxy s0) = []" and "px_audit_events (sv_proxy s0) = []"
    and "px_bedrock_calls (sv_proxy s0) = []" and "px_count_calls (sv_proxy s0) = []"
    and "replaces_keys save" and "adds_keys save"
    and "(service_step cfg ttl save)\<^sup>*\<^sup>* s0 s"
  shows "map (\<lambda>ue. (ue_request_id ue, Some (ue_user_id ue))) (px_usage_events (sv_proxy s)) =
      map (\<lambda>ae. (ae_request_id ae, ae_actor_user_id ae))
        (filter (\<lambda>ae. ae_decision ae = AUDIT_DECISION_ALLOWED) (px_audit_events (sv_proxy s))) \<and>
    mset (map ue_request_id (px_usage_events (sv_proxy s))) + mset (map sj_request_id (sv_streams s)) =
      mset (concat (map deliveries (sv_log s))) \<and>
    px_bedrock_calls (sv_proxy s) = concat (map message_calls (sv_log s)) \<and>
    px_count_calls (sv_proxy s) = concat (map counting_calls (sv_log s)) \<and>
    list_all exchange_ok (sv_log s) \<and>
    (\<forall>ue \<in> set (px_usage_events (sv_proxy s)). \<exists>k \<in> world_keys (sv_world s). vk_user_id k = ue_user_id ue)"
proof -
  have "books_balance s0" using assms(3-8) by (simp add: books_balance_def)
  then have "books_balance s"
    using service_reaches [OF assms(11,9,10) good_service_ok [OF assms(1-3)]] by (simp add: in_order_def)
  then show ?thesis
    by (simp add: books_balance_def Let_def successes_def key_owner_def booked_def)
qed

subsection \<open>A run of the service\<close>

definition demo_service :: Service where
  "demo_service = \<lparr>sv_proxy = demo_proxy (demo_issued 0), sv_calls = [], sv_streams = [], sv_log = []\<rparr>"

lemma demo_service_fields [simp]:
  "px_world (demo_proxy w) = w" "sv_calls demo_service = []" "sv_streams demo_service = []"
  "sv_log demo_service = []" "sv_proxy demo_service = demo_proxy (demo_issued 0)"
  by (simp_all add: demo_service_def demo_proxy_def)

text \<open>The key is revoked, then its user sends a message, and then another.\<close>

lemma deactivated_key_stays_out_witness:
  "\<exists>s s' j p. (service_step demo_config 0 upsert_key)\<^sup>*\<^sup>* demo_service s \<and>
     (service_step demo_config 0 upsert_key)\<^sup>+\<^sup>+ s s' \<and>
     create_message (proxy_app demo_config 1) ''r3'' 5 (JObj demo_request) demo_header (sv_proxy s') = (Inr (Json j), p) \<and>
     jr_status_code j = 401"
proof -
  let ?k = "(demo_key 0)\<lparr>vk_status := REVOKED, vk_revoked_at := Some 5\<rparr>"
  obtain w where w: "revoke (key_admin key_by_id upsert_key 5 ''n'' ''i'') (vk_id (demo_key 0)) (demo_issued 0) = (Inr ?k, w)"
    "?k \<in> world_keys w"
    using updating.revoke_run [OF demo_issued_ok demo_stored(2), of 5 "''n''" "''i''"] by auto
  let ?s = "demo_service\<lparr>sv_proxy := (sv_proxy demo_service)\<lparr>px_world := w\<rparr>\<rparr>"
  have s: "(service_step demo_config 0 upsert_key)\<^sup>*\<^sup>* demo_service ?s"
    by (rule revoke_is_steps [OF _ key_by_id_finds upsert_key_replaces, where k = "demo_key 0"])
      (use w(1) demo_issued_ok demo_stored(2) in simp_all)
  obtain r p where "create_message (proxy_app demo_config 0) ''r2'' 5 (JObj demo_request) demo_header (sv_proxy ?s) = (r, p)"
    by fastforce
  from service_step.message [OF this]
  obtain s' where s': "service_step demo_config 0 upsert_key ?s s'" by blast
  have good: "world_good (sv_world demo_service)" using demo_stored(1) by simp
  have k: "?k \<in> world_keys (sv_world ?s)" "vk_status ?k \<noteq> ACTIVE"
    "vk_key_hash ?k = hash_virtual_key (ie_generated_key (demo_env 0))"
    using w(2) demo_stored(4) by simp_all
  from deactivated_key_stays_out [OF good _ _ upsert_key_replaces upsert_key_adds s r_into_rtranclp [of "service_step demo_config 0 upsert_key", OF s']
      k(1,2) demo_stored(3) k(3), of 1 "''r3''" 5 demo_request]
  show ?thesis using s s' by (auto intro: tranclp.r_into_trancl)
qed

lemma books_always_balance_witness:
  "\<exists>s q r. (service_step demo_config 0 upsert_key)\<^sup>*\<^sup>* demo_service s \<and>
     sv_log s = [Message ''r2'' [q] r] \<and> delivered r \<and>
     map ue_request_id (px_usage_events (sv_proxy s)) = [''r2''] \<and> px_bedrock_calls (sv_proxy s) = [q] \<and>
     length (filter (\<lambda>ae. ae_decision ae = AUDIT_DECISION_ALLOWED) (px_audit_events (sv_proxy s))) = 1"
proof -
  obtain q where "build_converse_request demo_request demo_model = Inr q" "cr_operation q \<noteq> ''converse_stream''"
    using demo_build by auto
  with demo_outcome [of demo_request q] obtain j p where run: "create_message (proxy_app demo_config 0) ''r2'' 5
      (JObj demo_request) demo_header (sv_proxy demo_service) = (Inr (Json j), p)" "jr_status_code j = 200"
    "px_bedrock_calls p = [q]"
    by (auto simp: demo_request_def)
  let ?s = "demo_service\<lparr>sv_proxy := p, sv_streams := [], sv_log := [Message ''r2'' [q] (Inr (Json j))]\<rparr>"
  have s: "(service_step demo_config 0 upsert_key)\<^sup>*\<^sup>* demo_service ?s"
    using service_step.message [OF run(1), of 0 upsert_key] run(3) by (auto simp: since_def demo_proxy_def)
  have good: "world_good (sv_world demo_service)" using demo_stored(1) by simp
  from books_always_balance [OF good _ _ _ _ _ _ _ upsert_key_replaces upsert_key_adds s]
  have b: "map (\<lambda>ue. (ue_request_id ue, Some (ue_user_id ue))) (px_usage_events p) =
      map (\<lambda>ae. (ae_request_id ae, ae_actor_user_id ae))
        (filter (\<lambda>ae. ae_decision ae = AUDIT_DECISION_ALLOWED) (px_audit_events p))"
    "mset (map ue_request_id (px_usage_events p)) = {#''r2''#}"
    using run(2) by (simp_all add: demo_proxy_def)
  have u: "map ue_request_id (px_usage_events p) = [''r2'']" using b(2) by (metis mset_single_iff_right)
  have "length (px_usage_events p) = length (filter (\<lambda>ae. ae_decision ae = AUDIT_DECISION_ALLOWED) (px_audit_events p))"
    using arg_cong [OF b(1), of length] by (simp only: length_map)
  then have "length (filter (\<lambda>ae. ae_decision ae = AUDIT_DECISION_ALLOWED) (px_audit_events p)) = 1"
    using arg_cong [OF u, of length] by simp
  then show ?thesis using s run(2,3) u by (intro exI [of _ ?s] exI [of _ q] exI [of _ "Inr (Json j)"]) simp
qed

end
