(* ===== verification/ClientHelper.thy ===== *)
theory ClientHelper
  imports EndToEnd
begin

section \<open>The key helper on the user's machine (\<open>scripts/api_key_helper.sh\<close>)\<close>

text \<open>
  The shell script Claude Code runs to get its key. It keeps the last key in a file, with a time
  after which it asks the token service again. Here the script is a function on the file and the
  state of the token service, with what Bash does to numbers written out: they are 64 bits wide, and one that
  begins with 0 is octal, an error if it has a digit 8 or 9. \<open>jq\<close>, \<open>curl\<close> and \<open>aws\<close> are outside: a file is what \<open>jq\<close>
  reads in it, \<open>render\<close> is what \<open>jq -r\<close> prints of a value that is not a string, and the token service
  is a function that may fail. Creating and moving files succeeds.
\<close>

subsection \<open>Bash\<close>

definition all_digits :: "string \<Rightarrow> bool" where
  "all_digits s \<longleftrightarrow> s \<noteq> [] \<and> list_all (\<lambda>c. digit_value c \<noteq> None) s"

definition digits_in_base :: "int \<Rightarrow> string \<Rightarrow> int" where
  "digits_in_base b s = foldl (\<lambda>a c. b * a + the (digit_value c)) 0 s"

definition is_octal_digit :: "char \<Rightarrow> bool" where
  "is_octal_digit c = (case digit_value c of None \<Rightarrow> False | Some d \<Rightarrow> d < 8)"

text \<open>The value of a variable that holds digits, in arithmetic.\<close>

definition bash_int :: "string \<Rightarrow> int option" where
  "bash_int s =
     (if take 1 s = ''0''
      then (if list_all is_octal_digit s then Some (signed_take_bit 63 (digits_in_base 8 s)) else None)
      else Some (signed_take_bit 63 (digits_in_base 10 s)))"

text \<open>\<open>(( a < n ))\<close> and the like: false, with a message, when there is no value.\<close>

definition bash_test :: "(int \<Rightarrow> bool) \<Rightarrow> string \<Rightarrow> bool" where
  "bash_test P s = (case bash_int s of None \<Rightarrow> False | Some n \<Rightarrow> P n)"

text \<open>\<open>$(...)\<close> drops the newlines at the end; \<open>${V:-d}\<close> is the default also for an empty variable.\<close>

definition substituted :: "string \<Rightarrow> string" where
  "substituted s = rev (dropWhile (\<lambda>c. c = CHR 0x0A) (rev s))"

definition var_or :: "(string \<Rightarrow> string option) \<Rightarrow> string \<Rightarrow> string \<Rightarrow> string" where
  "var_or vars v d = (case vars v of None \<Rightarrow> d | Some x \<Rightarrow> if x = [] then d else x)"

subsection \<open>\<open>jq\<close>\<close>

text \<open>
  \<open>jq -r '.a // .b // empty' || true\<close> of a document: the first field that is there and neither \<open>null\<close> nor
  \<open>false\<close>; nothing when there is none, when it is not an object or not JSON at all.
\<close>

fun jq_text :: "(json \<Rightarrow> string) \<Rightarrow> json \<Rightarrow> string" where
  "jq_text render (JStr t) = substituted t"
| "jq_text render v = substituted (render v)"

definition jq_first :: "(json \<Rightarrow> string) \<Rightarrow> string list \<Rightarrow> json option \<Rightarrow> string" where
  "jq_first render names doc = (case doc of
       Some (JObj d) \<Rightarrow>
         (case filter (\<lambda>v. v \<noteq> JNull \<and> v \<noteq> JBool False) (List.map_filter (map_of d) names) of
            [] \<Rightarrow> [] | v # _ \<Rightarrow> jq_text render v)
     | _ \<Rightarrow> [])"

subsection \<open>The functions of the script\<close>

definition MIN_CACHE_TTL_SECONDS :: string where "MIN_CACHE_TTL_SECONDS = ''300''"

definition MAX_CACHE_TTL_SECONDS :: string where "MAX_CACHE_TTL_SECONDS = ''900''"

definition shell_normalize_cache_ttl :: "(string \<Rightarrow> string option) \<Rightarrow> string" where
  "shell_normalize_cache_ttl vars =
     (let ttl = var_or vars ''CLAUDE_CODE_PROXY_CACHE_TTL_SECONDS'' MIN_CACHE_TTL_SECONDS;
          ttl = (if \<not> all_digits ttl then MIN_CACHE_TTL_SECONDS else ttl);
          ttl = (if bash_test (\<lambda>n. n < 300) ttl then MIN_CACHE_TTL_SECONDS else ttl)
      in if bash_test (\<lambda>n. 900 < n) ttl then MAX_CACHE_TTL_SECONDS else ttl)"

text \<open>The file is absent, or what \<open>jq\<close> makes of its contents.\<close>

type_synonym cache_file = "json option option"

definition load_cached_key :: "(json \<Rightarrow> string) \<Rightarrow> cache_file \<Rightarrow> int \<Rightarrow> string option" where
  "load_cached_key render file now_epoch = (case file of
       None \<Rightarrow> None
     | Some doc \<Rightarrow>
         (let virtual_key = jq_first render [''virtual_key''] doc;
              expires_at_epoch = jq_first render [''expires_at_epoch''] doc
          in if virtual_key = [] \<or> expires_at_epoch = [] then None
             else if \<not> py_startswith virtual_key ''vk_'' then None
             else if \<not> all_digits expires_at_epoch then None
             else if bash_test (\<lambda>n. n \<le> now_epoch) expires_at_epoch then None
             else Some (substituted virtual_key)))"

text \<open>Without a value for the sum the function is given up before it writes anything; the script goes on.\<close>

definition store_cached_key :: "cache_file \<Rightarrow> string \<Rightarrow> int \<Rightarrow> string \<Rightarrow> cache_file" where
  "store_cached_key file virtual_key now_epoch ttl_seconds = (case bash_int ttl_seconds of
       None \<Rightarrow> file
     | Some n \<Rightarrow> Some (Some (JObj [(''virtual_key'', JStr virtual_key),
         (''expires_at_epoch'', JInt (signed_take_bit 63 (now_epoch + n)))])))"

text \<open>The reasons to exit with 1; the messages themselves are partly in Korean and left out.\<close>

datatype HelperError = NotConfigured | NoCredentials | ConnectionFailed | NoValidKey

text \<open>The response: none when \<open>curl\<close> fails, otherwise what \<open>jq\<close> makes of it.\<close>

definition fetch_virtual_key :: "(json \<Rightarrow> string) \<Rightarrow> json option option \<Rightarrow> HelperError + string" where
  "fetch_virtual_key render response = (case response of
       None \<Rightarrow> Inl ConnectionFailed
     | Some doc \<Rightarrow>
         (let token = jq_first render [''virtual_key'', ''token''] doc
          in if token = [] \<or> \<not> py_startswith token ''vk_'' then Inl NoValidKey
             else Inr (substituted token)))"

record HelperEnv =
  he_vars :: "string \<Rightarrow> string option"
  he_now :: int
  he_credentials :: bool

definition token_service_url :: "(string \<Rightarrow> string option) \<Rightarrow> string" where
  "token_service_url vars =
     var_or vars ''CLAUDE_CODE_PROXY_TOKEN_SERVICE_URL'' (var_or vars ''TOKEN_SERVICE_URL'' [])"

definition aws_region :: "(string \<Rightarrow> string option) \<Rightarrow> string" where
  "aws_region vars = var_or vars ''AWS_REGION'' (var_or vars ''AWS_DEFAULT_REGION'' [])"

text \<open>The script: what it prints, or the reason it exits with 1, and the file and the service after it.\<close>

definition run_helper ::
    "(json \<Rightarrow> string) \<Rightarrow> ('s \<Rightarrow> json option option \<times> 's) \<Rightarrow> HelperEnv \<Rightarrow> cache_file \<times> 's \<Rightarrow>
     (HelperError + string) \<times> cache_file \<times> 's" where
  "run_helper render service e fs =
     (case fs of (file, s) \<Rightarrow>
        if token_service_url (he_vars e) = [] \<or> aws_region (he_vars e) = []
        then (Inl NotConfigured, file, s)
        else (case load_cached_key render file (he_now e) of
            Some cached \<Rightarrow> (Inr cached, file, s)
          | None \<Rightarrow>
              if \<not> he_credentials e then (Inl NoCredentials, file, s)
              else (case service s of (response, s') \<Rightarrow>
                (case fetch_virtual_key render response of
                   Inl m \<Rightarrow> (Inl m, file, s')
                 | Inr vk \<Rightarrow>
                     (Inr vk, store_cached_key file vk (he_now e) (shell_normalize_cache_ttl (he_vars e)), s')))))"

subsection \<open>Numbers\<close>

lemma digit_value_digit:
  "0 \<le> d \<Longrightarrow> d < 10 \<Longrightarrow> digit_value (digit_char d) = Some d"
  by (rule digit_value_digit_char)

lemma digits_in_base_ten:
  assumes "\<forall>d \<in> set ds. 0 \<le> d \<and> d < 10"
  shows "foldl (\<lambda>a c. 10 * a + the (digit_value c)) acc (map digit_char ds) = foldl (\<lambda>a d. 10 * a + d) acc ds"
  using assms by (induction ds arbitrary: acc) (auto simp: digit_value_digit)

lemma int_digits_head: "0 < n \<Longrightarrow> hd (int_digits n) \<noteq> 0"
proof (induction n rule: int_digits.induct)
  case (1 n)
  show ?case
  proof (cases "n < 10")
    case True
    then show ?thesis using 1 by (simp add: int_digits.simps [of n])
  next
    case False
    then have "hd (int_digits (n div 10)) \<noteq> 0" using 1 by simp
    then show ?thesis using False int_digits_nonempty by (simp add: int_digits.simps [of n])
  qed
qed

text \<open>A decimal numeral that fits is read reread by Bash.\<close>

lemma bash_int_py_str_int:
  assumes "0 < n" and "n < 2 ^ 63"
  shows "bash_int (py_str_int n) = Some n \<and> all_digits (py_str_int n)"
proof -
  let ?ds = "int_digits n"
  have b: "\<forall>d \<in> set ?ds. 0 \<le> d \<and> d < 10" using int_digits_bound [of n] assms(1) by auto
  have s: "py_str_int n = map digit_char ?ds" using assms(1) by (simp add: py_str_int_def)
  obtain d ds where ds: "?ds = d # ds" using int_digits_nonempty by (cases ?ds) auto
  then have d: "d \<noteq> 0" "0 \<le> d" "d < 10" using int_digits_head [OF assms(1)] b by auto
  have "digit_value (CHR ''0'') = Some 0" by (simp add: digit_value_def)
  then have "digit_char d \<noteq> CHR ''0''" using digit_value_digit [OF d(2,3)] d(1) by auto
  then have t: "take 1 (py_str_int n) \<noteq> ''0''" by (simp add: s ds)
  have "digits_in_base 10 (py_str_int n) = n"
    using digits_in_base_ten [OF b, of 0] digits_value_int_digits [of n]
    by (simp add: digits_in_base_def s digits_value_def)
  moreover have "signed_take_bit 63 n = n"
    using assms by (intro signed_take_bit_int_eq_self) simp_all
  moreover have "all_digits (py_str_int n)"
    using b ds by (auto simp: all_digits_def s list_all_iff digit_value_digit)
  ultimately show ?thesis using t by (simp add: bash_int_def)
qed

lemma bash_int_limits [simp]: "bash_int ''300'' = Some 300" "bash_int ''900'' = Some 900"
  by code_simp+

text \<open>The time to live is within the limits, or has no value.\<close>

lemma shell_ttl_bounds:
  "bash_int (shell_normalize_cache_ttl vars) = Some n \<Longrightarrow> 300 \<le> n \<and> n \<le> 900"
  by (auto simp: shell_normalize_cache_ttl_def Let_def bash_test_def MIN_CACHE_TTL_SECONDS_def
      MAX_CACHE_TTL_SECONDS_def split: if_splits option.splits)

text \<open>A leading zero is read as octal: 600 seconds become 384, and 900 have no value.\<close>

lemma shell_ttl_octal:
  "bash_int (shell_normalize_cache_ttl [''CLAUDE_CODE_PROXY_CACHE_TTL_SECONDS'' \<mapsto> ''0600'']) = Some 384"
  "bash_int (shell_normalize_cache_ttl [''CLAUDE_CODE_PROXY_CACHE_TTL_SECONDS'' \<mapsto> ''0900'']) = None"
  by code_simp+

text \<open>Then nothing is cached, and each run asks the token service.\<close>

lemma store_without_value:
  "bash_int ttl = None \<Longrightarrow> store_cached_key file vk now ttl = file"
  by (simp add: store_cached_key_def)

subsection \<open>A key on its way to the client\<close>

definition configured_client :: "(string \<Rightarrow> string option) \<Rightarrow> bool" where
  "configured_client vars \<longleftrightarrow> token_service_url vars \<noteq> [] \<and> aws_region vars \<noteq> []"

text \<open>
  The token service behind its gateway: the body of the handler's response, or, when the handler
  raises, the answer the gateway gives.
\<close>

definition behind_gateway ::
    "World HandlerDependencies \<Rightarrow> int \<Rightarrow> (string, json) pydict \<Rightarrow> json \<Rightarrow> World HandlerState \<Rightarrow>
     json option option \<times> World HandlerState" where
  "behind_gateway deps latency_ms event fault h =
     (case handle_get_or_create_key deps latency_ms event h of
        (Inr resp, h') \<Rightarrow> (Some (Some (JObj (rp_payload resp))), h')
      | (Inl err, h') \<Rightarrow> (Some (Some fault), h'))"

lemma substituted_no_newline: "(\<forall>c \<in> set s. c \<noteq> CHR 0x0A) \<Longrightarrow> substituted s = s"
proof -
  assume "\<forall>c \<in> set s. c \<noteq> CHR 0x0A"
  then have "dropWhile (\<lambda>c. c = CHR 0x0A) (rev s) = rev s" by (cases "rev s") (auto simp: rev_eq_Cons_iff)
  then show ?thesis by (simp add: substituted_def)
qed

lemma generated_key_text:
  assumes "\<forall>b \<in> set bs. b < 256"
  shows "substituted (generate_virtual_key bs) = generate_virtual_key bs"
    "py_startswith (generate_virtual_key bs) ''vk_''" "generate_virtual_key bs \<noteq> []"
proof -
  have "\<forall>c \<in> set (generate_virtual_key bs). c \<noteq> CHR 0x0A"
    using generate_virtual_key_no_space [OF assms] by (auto simp: py_isspace_def)
  then show "substituted (generate_virtual_key bs) = generate_virtual_key bs" by (rule substituted_no_newline)
  show "py_startswith (generate_virtual_key bs) ''vk_''" "generate_virtual_key bs \<noteq> []"
    by (simp_all add: generate_virtual_key_def VIRTUAL_KEY_PREFIX_def py_startswith_def)
qed

text \<open>What is read from a file the script has written.\<close>

lemma load_stored:
  assumes "substituted vk = vk" and "py_startswith vk ''vk_''" and "vk \<noteq> []"
    and "bash_int ttl = Some n" and "0 < now + n" and "now + n < 2 ^ 63"
    and "\<forall>i. render (JInt i) = py_str_int i"
  shows "load_cached_key render (store_cached_key file vk now ttl) t = (if t < now + n then Some vk else None)"
proof -
  have sum: "signed_take_bit 63 (now + n) = now + n"
    using assms(5,6) by (intro signed_take_bit_int_eq_self) simp_all
  note reread = bash_int_py_str_int [OF assms(5,6)]
  have "\<forall>c \<in> set (py_str_int (now + n)). c \<noteq> CHR 0x0A"
    using reread by (auto simp: all_digits_def list_all_iff digit_value_def)
  then have "substituted (py_str_int (now + n)) = py_str_int (now + n)" by (rule substituted_no_newline)
  moreover have "py_str_int (now + n) \<noteq> []" using reread by (auto simp: all_digits_def)
  ultimately show ?thesis
    using assms(1-4,7) reread sum
    by (simp add: load_cached_key_def store_cached_key_def jq_first_def List.map_filter_def bash_test_def)
qed

text \<open>
  Property C20: the key the token service issues reaches the client, and stays there. With nothing
  usable in its file, the helper prints the key in the handler's response. It prints this key
  again, without asking the token service, for as long as the time to live it was configured with, at least 300 seconds and
  at most 900, and whatever becomes of the key or of the service meanwhile; after that it never
  takes the key from the file.
\<close>

theorem issued_key_kept_by_client:
  assumes "configured_client (he_vars e)" and "he_credentials e" and "load_cached_key render file (he_now e) = None"
    and "handle_get_or_create_key deps latency_ms event h = (Inr resp, h')"
    and "map_of (rp_payload resp) ''virtual_key'' = Some (JStr key)"
    and "key = generate_virtual_key bs" and "\<forall>b \<in> set bs. b < 256"
    and "bash_int (shell_normalize_cache_ttl (he_vars e)) = Some n"
    and "0 \<le> he_now e" and "he_now e + 900 < 2 ^ 63" and "\<forall>i. render (JInt i) = py_str_int i"
  shows "300 \<le> n \<and> n \<le> 900 \<and> (\<exists>file'.
    run_helper render (behind_gateway deps latency_ms event fault) e (file, h) = (Inr key, file', h') \<and>
    (\<forall>e' service (s :: 's). configured_client (he_vars e') \<longrightarrow> he_now e' < he_now e + n \<longrightarrow>
       run_helper render service e' (file', s) = (Inr key, file', s)) \<and>
    (\<forall>t. he_now e + n \<le> t \<longrightarrow> load_cached_key render file' t = None))"
proof -
  note n = shell_ttl_bounds [OF assms(8)]
  note key = generated_key_text [OF assms(7), folded assms(6)]
  let ?ttl = "shell_normalize_cache_ttl (he_vars e)"
  let ?file = "store_cached_key file key (he_now e) ?ttl"
  have load: "load_cached_key render ?file t = (if t < he_now e + n then Some key else None)" for t
    by (rule load_stored [OF key assms(8)]) (use assms(9-11) n in simp_all)
  have "jq_first render [''virtual_key'', ''token''] (Some (JObj (rp_payload resp))) = key"
    using assms(5) key(1) by (simp add: jq_first_def List.map_filter_def)
  then have "run_helper render (behind_gateway deps latency_ms event fault) e (file, h) = (Inr key, ?file, h')"
    using assms(1-4) key by (simp add: run_helper_def behind_gateway_def configured_client_def fetch_virtual_key_def)
  moreover have "run_helper render service e' (?file, s) = (Inr key, ?file, s)"
    if "configured_client (he_vars e')" "he_now e' < he_now e + n" for e' service s
    using that load by (simp add: run_helper_def configured_client_def)
  moreover have "load_cached_key render ?file t = None" if "he_now e + n \<le> t" for t
    using that load by simp
  ultimately show ?thesis using n by (intro conjI exI [of _ ?file]) blast+
qed

subsection \<open>A client of the example\<close>

definition demo_client :: "int \<Rightarrow> HelperEnv" where
  "demo_client now =
     \<lparr>he_vars = [''CLAUDE_CODE_PROXY_TOKEN_SERVICE_URL'' \<mapsto> ''https://token'', ''AWS_DEFAULT_REGION'' \<mapsto> ''eu-1'',
        ''CLAUDE_CODE_PROXY_CACHE_TTL_SECONDS'' \<mapsto> ''600''],
      he_now = now, he_credentials = True\<rparr>"

lemma demo_client_configured: "configured_client (he_vars (demo_client now))"
  by (simp add: configured_client_def demo_client_def token_service_url_def aws_region_def var_or_def)

lemma demo_client_ttl: "bash_int (shell_normalize_cache_ttl (he_vars (demo_client now))) = Some 600"
proof -
  have "bash_int ''600'' = Some 600" "all_digits ''600''" by code_simp+
  then show ?thesis
    by (simp add: demo_client_def shell_normalize_cache_ttl_def var_or_def bash_test_def)
qed

lemma issued_key_kept_by_client_witness:
  "\<exists>resp h' key file'. handle_get_or_create_key demo_handler_deps 3
       (demo_event ''arn:aws:sts::1:assumed-role/r/ana@corp'') demo_call = (Inr resp, h') \<and>
     map_of (rp_payload resp) ''virtual_key'' = Some (JStr key) \<and>
     run_helper json_dumps (behind_gateway demo_handler_deps 3
       (demo_event ''arn:aws:sts::1:assumed-role/r/ana@corp'') JNull) (demo_client 1000) (None, demo_call) =
       (Inr key, file', h') \<and>
     run_helper json_dumps (\<lambda>s. (None, s)) (demo_client 1599) (file', ()) = (Inr key, file', ()) \<and>
     load_cached_key json_dumps file' 1600 = None"
proof -
  obtain resp h' and r :: TokenIssueResult where run:
    "handle_get_or_create_key demo_handler_deps 3
       (demo_event ''arn:aws:sts::1:assumed-role/r/ana@corp'') demo_call = (Inr resp, h')"
    "map_of (rp_payload resp) ''virtual_key'' = Some (JStr (ti_virtual_key r))"
    "get_or_create_key (token_service 0) (demo_env 0) ''ana'' ''req-1'' demo_world = (Inr r, demo_issued 0)"
    "ti_source r = ISSUED"
    using demo_handler_run by blast
  have empty: "load_cached_key json_dumps None (he_now (demo_client 1000)) = None"
    by (simp add: load_cached_key_def)
  have now: "0 \<le> he_now (demo_client 1000)" "he_now (demo_client 1000) + 900 < 2 ^ 63"
    by (simp_all add: demo_client_def)
  have "he_credentials (demo_client 1000)" by (simp add: demo_client_def)
  from issued_key_kept_by_client [OF demo_client_configured this empty run(1,2)
      demo_issued_key [OF run(3,4)] demo_bytes_small demo_client_ttl now, where 's = unit and fault = JNull]
  obtain file' where f: "run_helper json_dumps (behind_gateway demo_handler_deps 3
       (demo_event ''arn:aws:sts::1:assumed-role/r/ana@corp'') JNull) (demo_client 1000) (None, demo_call) =
       (Inr (ti_virtual_key r), file', h')"
    and later: "\<And>e' service s. configured_client (he_vars e') \<Longrightarrow> he_now e' < he_now (demo_client 1000) + 600 \<Longrightarrow>
       run_helper json_dumps service e' (file', s :: unit) = (Inr (ti_virtual_key r), file', s)"
    and expired: "\<And>t. he_now (demo_client 1000) + 600 \<le> t \<Longrightarrow> load_cached_key json_dumps file' t = None"
    by auto
  have "he_now (demo_client 1599) < he_now (demo_client 1000) + 600" "he_now (demo_client 1000) + 600 \<le> 1600"
    by (simp_all add: demo_client_def)
  then show ?thesis
    using run(1,2) f later [OF demo_client_configured] expired by blast
qed

end
