(* ===== verification/Replicas.thy ===== *)
theory Replicas
  imports RateLimiter Deployment
begin

section \<open>Several tasks, several limiters (\<open>proxy/rate_limiter.py\<close>, \<open>infra/config.py\<close>)\<close>

text \<open>
  \<open>InMemoryRateLimiter\<close> keeps its times in the process, and the stack runs the proxy as a service
  of several tasks. \<open>fleet_reaches\<close> is the product of that many limiters under one clock that does
  not go back: the balancer may give a request to any of them. Tasks the service starts or stops
  are tasks without requests before or after; a task that is restarted counts as a new one.
\<close>

type_synonym fleet_log = "(nat \<times> datetime \<times> string \<times> bool) list"

inductive fleet_reaches :: "int \<Rightarrow> nat \<Rightarrow> fleet_log \<Rightarrow> windows list \<Rightarrow> bool" for n tasks where
  start: "fleet_reaches n tasks [] (replicate tasks [])"
| request: "fleet_reaches n tasks h ws \<Longrightarrow> list_all (\<lambda>(_, t, _). t \<le> now) h \<Longrightarrow> i < tasks \<Longrightarrow>
    rate_check n now u (ws ! i) = (d, w') \<Longrightarrow>
    fleet_reaches n tasks (h @ [(i, now, u, rl_allowed d)]) (ws[i := w'])"

text \<open>The requests a task has seen, and a user's allowed requests in the clock minute of a moment.\<close>

definition seen_by :: "nat \<Rightarrow> fleet_log \<Rightarrow> history" where
  "seen_by i h = map snd (filter (\<lambda>e. fst e = i) h)"

definition allowed_in_minute :: "string \<Rightarrow> datetime \<Rightarrow> fleet_log \<Rightarrow> int" where
  "allowed_in_minute u m h =
     int (length (filter (\<lambda>(_, t, v, a). v = u \<and> a \<and> window_start t = window_start m) h))"

subsection \<open>The tasks are limiters of their own\<close>

lemma seen_by_simps [simp]:
  "seen_by i [] = []"
  "seen_by i (h @ [(j, e)]) = seen_by i h @ (if j = i then [e] else [])"
  by (simp_all add: seen_by_def)

lemma seen_by_past: "list_all (\<lambda>(_, t, _). t \<le> now) h \<Longrightarrow> list_all (\<lambda>(t, _). t \<le> now) (seen_by i h)"
  by (auto simp: seen_by_def list_all_iff)

lemma fleet_length: "fleet_reaches n tasks h ws \<Longrightarrow> length ws = tasks"
  by (induction rule: fleet_reaches.induct) simp_all

lemma fleet_tasks: "fleet_reaches n tasks h ws \<Longrightarrow> list_all (\<lambda>(i, _). i < tasks) h"
  by (induction rule: fleet_reaches.induct) simp_all

lemma fleet_task_reaches:
  "fleet_reaches n tasks h ws \<Longrightarrow> i < tasks \<Longrightarrow> limiter_reaches n (seen_by i h) (ws ! i)"
proof (induction rule: fleet_reaches.induct)
  case start
  then show ?case by (simp add: limiter_reaches.start)
next
  case (request h ws now j u d w')
  show ?case
  proof (cases "j = i")
    case True
    then show ?thesis
      using limiter_reaches.step [OF request.IH [OF request.prems] seen_by_past [OF request.hyps(2)]]
        request.hyps(3,4) fleet_length [OF request.hyps(1)] by simp
  next
    case False
    then show ?thesis using request.IH [OF request.prems] by simp
  qed
qed

text \<open>What the fleet lets through is the sum of what its tasks let through.\<close>

lemma length_filter_sum:
  "list_all (\<lambda>e. fst e < (k :: nat)) h \<Longrightarrow>
    length (filter P h) = (\<Sum>i<k. length (filter P (filter (\<lambda>e. fst e = i) h)))"
proof (induction h)
  case (Cons e h)
  let ?x = "length (filter P [e])" and ?f = "\<lambda>i. length (filter P (filter (\<lambda>x. fst x = i) h))"
  have e: "fst e < k" and h: "length (filter P h) = (\<Sum>i<k. ?f i)" using Cons by simp_all
  have "(\<Sum>i<k. length (filter P (filter (\<lambda>x. fst x = i) (e # h)))) = (\<Sum>i<k. (if i = fst e then ?x else 0) + ?f i)"
    by (intro sum.cong) auto
  also have "\<dots> = ?x + (\<Sum>i<k. ?f i)" using e by (simp only: sum.distrib sum.delta finite_lessThan lessThan_iff if_True)
  finally show ?case by (simp add: h)
qed simp

lemma fleet_minute_sum:
  assumes "fleet_reaches n tasks h ws"
  shows "allowed_in_minute u m h = (\<Sum>i<tasks. int (length
    (filter (\<lambda>(t, v, a). v = u \<and> a \<and> window_start t = window_start m) (seen_by i h))))"
proof -
  let ?P = "\<lambda>(t, v, a). v = u \<and> a \<and> window_start t = window_start m"
  have "list_all (\<lambda>e. fst e < tasks) h" using fleet_tasks [OF assms] by (simp add: case_prod_unfold)
  then have "allowed_in_minute u m h = int (\<Sum>i<tasks. length (filter (?P \<circ> snd) (filter (\<lambda>e. fst e = i) h)))"
    by (simp only: length_filter_sum [symmetric]) (simp add: allowed_in_minute_def case_prod_unfold comp_def)
  then show ?thesis by (simp add: seen_by_def filter_map)
qed

lemma fleet_per_minute:
  assumes "fleet_reaches n tasks h ws"
  shows "allowed_in_minute u m h \<le> int tasks * max 1 n"
proof -
  have "allowed_in_minute u m h \<le> (\<Sum>i<tasks. max 1 n)"
    unfolding fleet_minute_sum [OF assms]
    using fleet_task_reaches [OF assms] limiter_per_minute by (intro sum_mono) blast
  then show ?thesis by simp
qed

subsection \<open>Requests dealt out in turn\<close>

text \<open>
  A user's requests of one moment, each given to the task named in the list, are all let through
  as long as no task gets more of them than the limit.
\<close>

definition burst :: "datetime \<Rightarrow> string \<Rightarrow> nat list \<Rightarrow> fleet_log" where
  "burst now u turns = map (\<lambda>i. (i, now, u, True)) turns"

lemma seen_by_burst: "seen_by i (burst now u turns) = replicate (count_list turns i) (now, u, True)"
  by (induction turns) (auto simp: seen_by_def burst_def)

lemma fleet_burst:
  assumes "\<forall>i\<in>set turns. i < tasks" and "\<forall>i. int (count_list turns i) \<le> max 1 n"
  shows "\<exists>ws. fleet_reaches n tasks (burst now u turns) ws"
  using assms
proof (induction turns rule: rev_induct)
  case Nil
  then show ?case using fleet_reaches.start [of n tasks] by (auto simp: burst_def)
next
  case (snoc i turns)
  have room: "int (count_list turns i) < max 1 n" using snoc.prems(2) by (auto dest: spec [of _ i])
  have "int (count_list turns j) \<le> max 1 n" for j
    using spec [OF snoc.prems(2), of j] by (simp split: if_splits)
  then obtain ws where ws: "fleet_reaches n tasks (burst now u turns) ws"
    using snoc.IH snoc.prems(1) by auto
  obtain d w' where c: "rate_check n now u (ws ! i) = (d, w')" by force
  have "rl_allowed d"
    using rate_limit_exact [OF fleet_task_reaches [OF ws, of i], of now u] snoc.prems(1) c room
      window_start_bounds [of now]
    by (simp add: seen_by_burst list_all_iff)
  moreover have "list_all (\<lambda>(_, t, _). t \<le> now) (burst now u turns)" by (simp add: burst_def list_all_iff)
  ultimately show ?case
    using fleet_reaches.request [OF ws _ _ c] snoc.prems(1) by (auto simp: burst_def)
qed

definition in_turn :: "nat \<Rightarrow> nat \<Rightarrow> nat list" where
  "in_turn rounds tasks = concat (replicate rounds [0..<tasks])"

lemma in_turn_facts:
  "length (in_turn rounds tasks) = rounds * tasks"
  "i \<in> set (in_turn rounds tasks) \<Longrightarrow> i < tasks"
  "count_list (in_turn rounds tasks) i \<le> rounds"
proof -
  have "count_list [0..<tasks] i \<le> 1" by (induction tasks) auto
  then show "count_list (in_turn rounds tasks) i \<le> rounds"
    by (induction rounds) (auto simp: in_turn_def)
qed (induction rounds, auto simp: in_turn_def)+

lemma fleet_full:
  "\<exists>h ws. fleet_reaches n tasks h ws \<and> allowed_in_minute u m h = int tasks * max 1 n"
proof -
  let ?turns = "in_turn (nat (max 1 n)) tasks"
  have "\<forall>i\<in>set ?turns. i < tasks" using in_turn_facts(2) by blast
  moreover have "\<forall>i. int (count_list ?turns i) \<le> max 1 n"
    using in_turn_facts(3) [of "nat (max 1 n)" tasks] by (simp add: nat_le_iff le_nat_iff)
  ultimately obtain ws where "fleet_reaches n tasks (burst m u ?turns) ws" using fleet_burst by blast
  moreover have "allowed_in_minute u m (burst m u ?turns) = int tasks * max 1 n"
    by (simp add: allowed_in_minute_def burst_def filter_map comp_def in_turn_facts(1) le_max_iff_disj)
  ultimately show ?thesis by blast
qed

subsection \<open>Properties\<close>

text \<open>
  Property C12: the limit on requests counts per task. Over the tasks that run in a clock minute a
  user may get the configured number (at least one) from each and never more; with the size the
  stack is deployed at, two tasks, a user whose requests are dealt out in turn gets exactly twice
  the number configured.
\<close>

theorem limit_counts_per_task:
  assumes "fleet_reaches n tasks h ws"
  shows "allowed_in_minute u m h \<le> int tasks * max 1 n \<and>
    (\<exists>h ws. fleet_reaches n (nat (pr_desired_count (sp_proxy_runtime (build_stack_props env name)))) h ws \<and>
      allowed_in_minute u m h = 2 * max 1 n)"
proof -
  have "nat (pr_desired_count (sp_proxy_runtime (build_stack_props env name))) = 2"
    by (simp add: build_stack_props_def Let_def)
  then show ?thesis using fleet_per_minute [OF assms] fleet_full [of n 2 u m] by simp
qed

lemma limit_counts_per_task_witness:
  "\<exists>h ws. fleet_reaches 60 2 h ws \<and> allowed_in_minute ''u'' 0 h = 120 \<and> allowed_in_minute ''u'' 0 h \<le> int 2 * max 1 60"
proof -
  have "nat (pr_desired_count (sp_proxy_runtime (build_stack_props (\<lambda>_. None) ''dev''))) = 2"
    by (simp add: build_stack_props_def Let_def)
  then obtain h ws where h: "fleet_reaches 60 2 h ws" "allowed_in_minute ''u'' 0 h = 120"
    using limit_counts_per_task [OF fleet_reaches.start [of 60 2], of "''u''" 0 "\<lambda>_. None" "''dev''"] by auto
  then show ?thesis using limit_counts_per_task [OF h(1), of "''u''" 0] by blast
qed

end
