(* ===== verification/Faults.thy ===== *)
theory Faults
  imports ProxyApp
begin

section \<open>The messages endpoint when a store fails\<close>

text \<open>
  The key ledger, the users, the model routes and the usage repository are databases behind protocols
  of the repository; any of their methods can raise. Here each of the methods the handler calls
  is given a fault: the class of the exception it raises during the request, or none. The
  handler calls each of them at most once in a request, so the five faults say all there is to
  say. A method that raises leaves its table as it was.
\<close>

record Faults =
  ft_get_key :: "string option"
  ft_get_user :: "string option"
  ft_resolve :: "string option"
  ft_record_usage :: "string option"
  ft_record_audit :: "string option"

definition may_fail :: "string option \<Rightarrow> ('s, 'a) op \<Rightarrow> ('s, 'a) op" where
  "may_fail fault m = (case fault of None \<Rightarrow> m | Some c \<Rightarrow> raiseM (PyErr c))"

definition faulty_auth :: "Faults \<Rightarrow> 's ProxyAuthService \<Rightarrow> 's ProxyAuthService" where
  "faulty_auth f svc =
     \<lparr>pa_get_key_by_hash = (\<lambda>h. may_fail (ft_get_key f) (pa_get_key_by_hash svc h)),
      pa_get_user = (\<lambda>u. may_fail (ft_get_user f) (pa_get_user svc u))\<rparr>"

definition faulty_logger :: "Faults \<Rightarrow> 's AuditLogger \<Rightarrow> 's AuditLogger" where
  "faulty_logger f l =
     \<lparr>al_record_usage = (\<lambda>e. may_fail (ft_record_usage f) (al_record_usage l e)),
      al_record_audit = (\<lambda>e. may_fail (ft_record_audit f) (al_record_audit l e)),
      al_clock = al_clock l, al_event_id = al_event_id l\<rparr>"

definition with_faults :: "Faults \<Rightarrow> 's AppDependencies \<Rightarrow> 's AppDependencies" where
  "with_faults f deps =
     \<lparr>ad_auth_service = map_option (faulty_auth f) (ad_auth_service deps),
      ad_model_resolver = map_option (\<lambda>r m. may_fail (ft_resolve f) (r m)) (ad_model_resolver deps),
      ad_policy_engine = ad_policy_engine deps, ad_quota_engine = ad_quota_engine deps,
      ad_rate_limiter = ad_rate_limiter deps, ad_bedrock_client = ad_bedrock_client deps,
      ad_audit_logger = map_option (faulty_logger f) (ad_audit_logger deps)\<rparr>"

definition no_faults :: Faults where
  "no_faults = \<lparr>ft_get_key = None, ft_get_user = None, ft_resolve = None, ft_record_usage = None,
     ft_record_audit = None\<rparr>"

definition audit_outage :: "string \<Rightarrow> Faults" where
  "audit_outage c = no_faults\<lparr>ft_record_audit := Some c\<rparr>"

lemma may_fail_simps [simp]:
  "may_fail None m = m" "may_fail (Some c) m = raiseM (PyErr c)"
  by (simp_all add: may_fail_def)

lemma no_faults_proxy_app: "with_faults no_faults (proxy_app cfg now) = proxy_app cfg now"
  by (simp add: with_faults_def no_faults_def proxy_app_def faulty_auth_def faulty_logger_def app_auth_def
      app_logger_def)

subsection \<open>Operations as sequences\<close>

lemma bind_value: "bindM (returnM x) k = k x"
  by (simp add: bindM_def returnM_def)

lemma bind_assoc: "bindM (bindM m f) g = bindM m (\<lambda>x. bindM (f x) g)"
  by (auto simp: bindM_def fun_eq_iff split: prod.splits sum.splits)

lemma bind_raise: "bindM (raiseM e) k = raiseM e"
  by (simp add: bindM_def raiseM_def)

text \<open>An operation that records nothing.\<close>

definition unrecorded :: "(ProxyState, 'a) op \<Rightarrow> bool" where
  "unrecorded m \<longleftrightarrow> (\<forall>s. px_audit_events (snd (m s)) = px_audit_events s \<and>
     px_usage_events (snd (m s)) = px_usage_events s)"

lemma unrecorded_ops [intro!, simp]:
  "unrecorded (liftR r)" "unrecorded (raiseM e)" "unrecorded (app_rate_check cfg now u)"
  "unrecorded (al_clock (app_logger cfg now))" "unrecorded (al_event_id (app_logger cfg now))"
  "unrecorded (bc_converse (app_bedrock cfg) q)" "unrecorded (bc_converse_stream (app_bedrock cfg) q)"
  by (auto simp: unrecorded_def app_rate_check_def app_logger_def app_bedrock_def split: prod.split)

subsection \<open>How a run degrades\<close>

text \<open>
  A run of an authenticated request with faults against the one without: they are the same and, when
  something was recorded, the records could be written; or the run with faults raises the fault of a
  write. Then no audit event is added, and the usage event only when its own write worked.
\<close>

type_synonym run = "ProxyResponse res \<times> ProxyState"

definition degraded :: "Faults \<Rightarrow> ProxyState \<Rightarrow> run \<Rightarrow> run \<Rightarrow> bool" where
  "degraded f s a b \<longleftrightarrow>
     b = a \<and> (px_audit_events (snd a) \<noteq> px_audit_events s \<longrightarrow> ft_record_audit f = None) \<or>
     (\<exists>c j t u. a = (Inr (Json j), t) \<and> b = (Inl (PyErr c), u) \<and> px_audit_events u = px_audit_events s \<and>
        px_world u = px_world t \<and> px_windows u = px_windows t \<and>
        px_bedrock_calls u = px_bedrock_calls t \<and> px_count_calls u = px_count_calls t \<and>
        (ft_record_audit f = Some c \<and> jr_status_code j \<in> {200, 403, 429} \<and>
           px_usage_events u = px_usage_events t \<and> (jr_status_code j = 200 \<longrightarrow> ft_record_usage f = None) \<or>
         ft_record_usage f = Some c \<and> jr_status_code j = 200 \<and> px_usage_events u = px_usage_events s))"

lemma degraded_same:
  "px_audit_events (snd a) = px_audit_events s \<Longrightarrow> degraded f s a a"
  by (simp add: degraded_def)

lemma degraded_bind:
  assumes "unrecorded p" and "\<And>x t. degraded f t (k x t) (k' x t)"
  shows "degraded f s (bindM p k s) (bindM p k' s)"
proof -
  obtain r t where r: "p s = (r, t)" by force
  have t: "px_audit_events t = px_audit_events s" "px_usage_events t = px_usage_events s"
    using assms(1) r unfolding unrecorded_def by (metis snd_conv)+
  show ?thesis
  proof (cases r)
    case (Inl e)
    then show ?thesis using r t by (simp add: degraded_same)
  next
    case (Inr x)
    then show ?thesis using r assms(2) [of t x] t unfolding degraded_def by simp
  qed
qed

text \<open>The writes at the end of a run.\<close>

lemma degraded_denial:
  assumes "jr_status_code j \<in> {403, 429}"
  shows "degraded f s (bindM (al_record_audit (app_logger cfg now) e) (\<lambda>_. returnM (Json j)) s)
    (bindM (may_fail (ft_record_audit f) (al_record_audit (app_logger cfg now) e)) (\<lambda>_. returnM (Json j)) s)"
  using assms by (cases "ft_record_audit f") (auto simp: degraded_def app_logger_def bind_raise)

lemma degraded_success:
  assumes "jr_status_code j = 200"
  shows "degraded f s
    (bindM (al_record_usage (app_logger cfg now) ue)
       (\<lambda>_. bindM (al_record_audit (app_logger cfg now) ae) (\<lambda>_. returnM (Json j))) s)
    (bindM (may_fail (ft_record_usage f) (al_record_usage (app_logger cfg now) ue))
       (\<lambda>_. bindM (may_fail (ft_record_audit f) (al_record_audit (app_logger cfg now) ae))
         (\<lambda>_. returnM (Json j))) s)"
  using assms by (cases "ft_record_usage f"; cases "ft_record_audit f")
    (auto simp: degraded_def app_logger_def bind_raise)


subsection \<open>The handler under faults\<close>

lemma proxy_app_parts:
  "ad_auth_service (proxy_app cfg now) = Some app_auth"
  "ad_model_resolver (proxy_app cfg now) = Some (\<lambda>m. liftR (resolve (pc_alias_rules cfg) (pc_routes cfg) m))"
  "ad_policy_engine (proxy_app cfg now) = Some (\<lambda>u m ps. liftR (evaluate_policies u (model_text m) ps))"
  "ad_quota_engine (proxy_app cfg now) = Some (\<lambda>bs cur req mid tok. liftR (quota_evaluate
     (map_option (\<lambda>f m. outside (f m)) (pc_pricing cfg)) bs cur req mid tok))"
  "ad_rate_limiter (proxy_app cfg now) = Some (app_rate_check cfg now)"
  "ad_bedrock_client (proxy_app cfg now) = Some (app_bedrock cfg)"
  "ad_audit_logger (proxy_app cfg now) = Some (app_logger cfg now)"
  by (simp_all add: proxy_app_def)

lemma with_faults_parts:
  "ad_auth_service (with_faults f deps) = map_option (faulty_auth f) (ad_auth_service deps)"
  "ad_model_resolver (with_faults f deps) = map_option (\<lambda>r m. may_fail (ft_resolve f) (r m)) (ad_model_resolver deps)"
  "ad_policy_engine (with_faults f deps) = ad_policy_engine deps"
  "ad_quota_engine (with_faults f deps) = ad_quota_engine deps"
  "ad_rate_limiter (with_faults f deps) = ad_rate_limiter deps"
  "ad_bedrock_client (with_faults f deps) = ad_bedrock_client deps"
  "ad_audit_logger (with_faults f deps) = map_option (faulty_logger f) (ad_audit_logger deps)"
  by (simp_all add: with_faults_def)

lemma faulty_logger_parts:
  "al_record_usage (faulty_logger f l) e = may_fail (ft_record_usage f) (al_record_usage l e)"
  "al_record_audit (faulty_logger f l) e' = may_fail (ft_record_audit f) (al_record_audit l e')"
  "al_clock (faulty_logger f l) = al_clock l" "al_event_id (faulty_logger f l) = al_event_id l"
  by (simp_all add: faulty_logger_def)

lemmas faulty_parts = proxy_app_parts with_faults_parts faulty_logger_parts

abbreviation faulty_app :: "Faults \<Rightarrow> ProxyConfig \<Rightarrow> datetime \<Rightarrow> ProxyState AppDependencies" where
  "faulty_app f cfg now \<equiv> with_faults f (proxy_app cfg now)"

lemma degraded_deny:
  assumes "se_status_code err \<in> {403, 429}"
  shows "degraded f s (deny (proxy_app cfg now) rid reason a m rm pd err s)
    (deny (faulty_app f cfg now) rid reason a m rm pd err s)"
proof -
  have st: "jr_status_code (error_response_for_exception (ServiceErr err) rid) \<in> {403, 429}"
    using assms by (simp add: error_response_status)
  show ?thesis
    unfolding deny_def record_denial_def faulty_parts option.map option.case bind_assoc case_prod_beta'
    by (intro degraded_bind unrecorded_ops degraded_denial [OF st])
qed

lemma degraded_call:
  "degraded f s (call_bedrock (proxy_app cfg now) rid lat a m rm pd qd q s)
     (call_bedrock (faulty_app f cfg now) rid lat a m rm pd qd q s)"
proof (cases "cr_operation q = ''converse_stream''")
  case True
  have "call_bedrock (faulty_app f cfg now) rid lat a m rm pd qd q = call_bedrock (proxy_app cfg now) rid lat a m rm pd qd q"
    using True by (simp add: call_bedrock_def faulty_parts)
  moreover have "px_audit_events (snd (call_bedrock (proxy_app cfg now) rid lat a m rm pd qd q s)) = px_audit_events s"
    using call_bedrock_stream [OF True, of cfg now rid lat a m rm pd qd s] by simp
  ultimately show ?thesis by (simp add: degraded_same)
next
  case False
  show ?thesis
    unfolding call_bedrock_def if_not_P [OF False] record_success_def faulty_parts dependency_def
      option.map option.case bind_assoc bind_value
    by (intro degraded_bind unrecorded_ops degraded_success) simp
qed

lemma degraded_admit:
  "degraded f s (admit (proxy_app cfg now) rid lat body a m rm pd qd s)
     (admit (faulty_app f cfg now) rid lat body a m rm pd qd s)"
proof -
  have e: "se_status_code (rate_limit_exceeded_error rid h) \<in> {403, 429}" for h
    by (simp add: rate_limit_exceeded_error_def)
  have branch: "degraded f t ((if b then deny (proxy_app cfg now) rid r a m rm pd (rate_limit_exceeded_error rid h) else k) t)
      ((if b then deny (faulty_app f cfg now) rid r a m rm pd (rate_limit_exceeded_error rid h) else k') t)"
    if "degraded f t (k t) (k' t)" for b r h k k' t
    using that degraded_deny [OF e] by simp
  show ?thesis
    unfolding admit_def faulty_parts dependency_def option.map option.case bind_value
    by (intro degraded_bind unrecorded_ops branch degraded_call)
qed

lemma degraded_serve:
  assumes "ft_resolve f = None"
  shows "degraded f s (serve (proxy_app cfg now) rid lat body a s) (serve (faulty_app f cfg now) rid lat body a s)"
proof -
  have e: "se_status_code (access_denied_error rid h) \<in> {403, 429}" for h
    by (simp add: access_denied_error_def)
  have branch: "degraded f t ((if b then deny (proxy_app cfg now) rid r a m rm pd (access_denied_error rid h) else k) t)
      ((if b then deny (faulty_app f cfg now) rid r a m rm pd (access_denied_error rid h) else k') t)"
    if "degraded f t (k t) (k' t)" for b r h m rm pd k k' t
    using that degraded_deny [OF e] by simp
  show ?thesis
    unfolding serve_def faulty_parts dependency_def option.map option.case bind_value assms may_fail_simps
    by (intro degraded_bind unrecorded_ops branch degraded_admit)
qed

text \<open>Without the routes, a request fails before anything else is asked.\<close>

lemma serve_unreadable:
  assumes "ft_resolve f = Some c"
  shows "\<exists>e. serve (faulty_app f cfg now) rid lat body a s = (Inl e, s) \<and> is_py_err e"
proof (cases "py_getitem body ''model''")
  case (Inl e)
  then have "is_py_err e" by (cases body) (auto split: option.splits)
  then show ?thesis using Inl by (simp add: serve_def faulty_parts dependency_def bind_value)
next
  case (Inr m)
  then show ?thesis using assms by (simp add: serve_def faulty_parts dependency_def bind_value)
qed

text \<open>Authentication meets a fault, or answers as without any.\<close>

lemma faulty_authenticate:
  assumes "world_ok (px_world s)"
  shows "\<exists>r. authenticate_request (faulty_app f cfg now) header rid s = (r, s) \<and>
    (authenticate auth_service header rid (px_world s) = (r, px_world s) \<or>
     (\<exists>c. r = Inl (PyErr c) \<and> (ft_get_key f = Some c \<or> ft_get_user f = Some c)))"
proof -
  obtain x where x: "authenticate app_auth header rid s = (x, s)"
    "authenticate auth_service header rid (px_world s) = (x, px_world s)"
    using world_auth.always_answers [OF assms, of header rid] app_authenticate [of header rid s] by force
  have key: "\<exists>k. pa_get_key_by_hash app_auth h s = (Inr k, s)" for h
  proof -
    obtain k where "world_get_by_hash h (px_world s) = (Inr k, px_world s)"
      using world_ledger.get_by_hash [OF assms, of h] by blast
    then show ?thesis by (simp add: app_auth_def on_world_def auth_service_def)
  qed
  have "authenticate (faulty_auth f app_auth) header rid s = (x, s) \<or>
    (\<exists>c. authenticate (faulty_auth f app_auth) header rid s = (Inl (PyErr c), s) \<and>
      (ft_get_key f = Some c \<or> ft_get_user f = Some c))"
  proof (cases "extract_virtual_key header rid")
    case (Inl e)
    then show ?thesis using x by (simp add: authenticate_def)
  next
    case (Inr vk)
    obtain k where k: "pa_get_key_by_hash app_auth (hash_virtual_key vk) s = (Inr k, s)" using key by blast
    show ?thesis
      using x(1) Inr k by (cases "ft_get_key f"; cases "ft_get_user f"; cases k)
        (auto simp: authenticate_def faulty_auth_def bind_raise)
  qed
  then show ?thesis
    using x(2) by (auto simp: authenticate_request_def faulty_parts dependency_def bind_value)
qed

subsection \<open>Whole requests\<close>

text \<open>A request that authenticates is served; its exceptions become answers.\<close>

lemma faulty_served:
  assumes "authenticate_request (faulty_app f cfg now) header rid s = (Inr a, s)"
  shows "create_message (faulty_app f cfg now) rid lat body header s =
    answering rid (serve (faulty_app f cfg now) rid lat body a) s"
  using assms by (simp add: create_message_def answering_def)

text \<open>A request that does not is refused, with a denial when that can be written.\<close>

lemma faulty_refused:
  assumes "authenticate_request (faulty_app f cfg now) header rid s = (Inl err, s)"
  shows "case ft_record_audit f of
      Some c \<Rightarrow> \<exists>t. create_message (faulty_app f cfg now) rid lat (JObj d) header s = (Inl (PyErr c), t) \<and>
        adds s [] [] [] t
    | None \<Rightarrow> \<exists>ev t. create_message (faulty_app f cfg now) rid lat (JObj d) header s =
          (Inr (Json (error_response_for_exception err rid)), t) \<and>
        adds s [] [ev] [] t \<and> is_denial ev rid DENIAL_REASON_AUTHENTICATION_FAILED None"
  using assms by (cases "ft_record_audit f")
    (auto simp: create_message_def refuse_def record_denial_def faulty_parts app_logger_def adds_def is_denial_def)

lemma served_alike:
  assumes "world_ok (px_world s)" and "authenticate auth_service header rid (px_world s) = (Inr a, px_world s)"
    and "ft_resolve f = None"
  shows "\<exists>x t y u. create_message (proxy_app cfg now) rid lat body header s = answering rid (\<lambda>_. (x, t)) s \<and>
    answering rid (serve (faulty_app f cfg now) rid lat body a) s = answering rid (\<lambda>_. (y, u)) s \<and>
    degraded f s (x, t) (y, u)"
proof -
  obtain x t where x: "serve (proxy_app cfg now) rid lat body a s = (x, t)" by force
  obtain y u where y: "serve (faulty_app f cfg now) rid lat body a s = (y, u)" by force
  have "create_message (proxy_app cfg now) rid lat body header s = answering rid (serve (proxy_app cfg now) rid lat body a) s"
    using faulty_served [of no_faults cfg now header rid s a] app_authenticate_request [OF assms(2)]
    by (simp add: no_faults_proxy_app)
  then show ?thesis
    using degraded_serve [OF assms(3), of s cfg now rid lat body a] x y
    by (intro exI [of _ x] exI [of _ t] exI [of _ y] exI [of _ u]) (simp add: answering_def catchM_def)
qed


text \<open>
  Property C31: what an outage of the audit table does, everything else working. A message that would be
  answered with 200 is answered with 502, although Bedrock was called and its usage is charged; a policy
  or rate-limit denial (403, 429) turns into a 502 and is on no record; a failed authentication leaves the
  handler as an exception. The rate limiter has counted the request all the same. Every other
  answer, a streaming one included, is what it would have been.
\<close>

theorem audit_outage_hides_answers:
  assumes "world_ok (px_world s)"
    and "create_message (proxy_app cfg now) rid lat (JObj d) header s = (Inr resp, t)"
    and "create_message (with_faults (audit_outage c) (proxy_app cfg now)) rid lat (JObj d) header s = (r, u)"
  shows "case resp of
      Streaming job \<Rightarrow> r = Inr resp \<and> u = t
    | Json j \<Rightarrow>
        if jr_status_code j = 401 then r = Inl (PyErr c) \<and> adds s [] [] [] u
        else if jr_status_code j \<in> {200, 403, 429}
        then r = Inr (Json (error_response_for_exception (PyErr c) rid)) \<and>
          px_audit_events u = px_audit_events s \<and> px_usage_events u = px_usage_events t \<and>
          px_bedrock_calls u = px_bedrock_calls t \<and> px_windows u = px_windows t
        else r = Inr resp \<and> u = t"
proof -
  let ?f = "audit_outage c"
  have f: "ft_get_key ?f = None" "ft_get_user ?f = None" "ft_resolve ?f = None" "ft_record_audit ?f = Some c"
    "ft_record_usage ?f = None"
    by (simp_all add: audit_outage_def no_faults_def)
  obtain x where x: "authenticate_request (faulty_app ?f cfg now) header rid s = (x, s)"
    "authenticate auth_service header rid (px_world s) = (x, px_world s)"
    using faulty_authenticate [OF assms(1), of ?f cfg now header rid] f by auto
  show ?thesis
  proof (cases x)
    case (Inl err)
    have "jr_status_code (error_response_for_exception err rid) = 401"
      using Inl x(2) world_auth.always_answers [OF assms(1), of header rid] by (auto simp: error_response_status)
    moreover have "resp = Json (error_response_for_exception err rid)"
    proof -
      have "authenticate_request (faulty_app no_faults cfg now) header rid s = (Inl err, s)"
        using app_authenticate_request [OF x(2), of cfg now] Inl by (simp add: no_faults_proxy_app)
      moreover have "ft_record_audit no_faults = None" by (simp add: no_faults_def)
      ultimately show ?thesis
        using faulty_refused [of no_faults cfg now header rid s err lat d] assms(2) by (auto simp: no_faults_proxy_app)
    qed
    moreover have "r = Inl (PyErr c)" "adds s [] [] [] u"
      using faulty_refused [OF x(1) [unfolded Inl], of lat d] f assms(3) by auto
    ultimately show ?thesis by simp
  next
    case (Inr a)
    note run = assms(3) [unfolded faulty_served [OF x(1) [unfolded Inr]]]
    obtain p t' y u' where runs: "create_message (proxy_app cfg now) rid lat (JObj d) header s = answering rid (\<lambda>_. (p, t')) s"
      "answering rid (serve (faulty_app ?f cfg now) rid lat (JObj d) a) s = answering rid (\<lambda>_. (y, u')) s"
      and deg: "degraded ?f s (p, t') (y, u')"
      using served_alike [OF assms(1) x(2) [unfolded Inr] f(3)] by blast
    have t': "t' = t" using runs(1) assms(2) by (cases p) (simp_all add: answering_def)
    note rec = message_records [OF assms(1,2)]
    show ?thesis
    proof (cases "(y, u') = (p, t')")
      case True
      then have same: "r = Inr resp" "u = t" using runs run assms(2) by (simp_all add: answering_def)
      have "px_audit_events t = px_audit_events s" using deg True f(4) t' by (auto simp: degraded_def)
      then show ?thesis using same rec by (auto simp: adds_def split: ProxyResponse.splits if_splits)
    next
      case False
      then obtain j where w: "p = Inr (Json j)" "y = Inl (PyErr c)" "px_audit_events u' = px_audit_events s"
        "px_bedrock_calls u' = px_bedrock_calls t'" "px_windows u' = px_windows t'" "px_usage_events u' = px_usage_events t'"
        "jr_status_code j \<in> {200, 403, 429}"
        using deg f(4,5) unfolding degraded_def by auto
      have "r = Inr (Json (error_response_for_exception (PyErr c) rid))" "u = u'"
        using run runs(2) w(2) by (simp_all add: answering_def)
      moreover have "resp = Json j" using runs(1) w(1) assms(2) by (simp add: answering_def)
      ultimately show ?thesis using w t' by auto
    qed
  qed
qed

text \<open>In the example the audit table is down, and the caller's usage is booked for an error.\<close>

lemma demo_audit_outage:
  "\<exists>j s' r u. create_message (proxy_app demo_config 0) ''r2'' 5 (JObj demo_request) demo_header
       (demo_proxy (demo_issued 0)) = (Inr (Json j), s') \<and> jr_status_code j = 200 \<and>
     create_message (with_faults (audit_outage ''OperationalError'') (proxy_app demo_config 0)) ''r2'' 5
       (JObj demo_request) demo_header (demo_proxy (demo_issued 0)) = (r, u)"
  using demo_answer prod.exhaust_sel by blast

lemma audit_outage_hides_answers_witness:
  "\<exists>j u ue. create_message (with_faults (audit_outage ''OperationalError'') (proxy_app demo_config 0)) ''r2'' 5
       (JObj demo_request) demo_header (demo_proxy (demo_issued 0)) = (Inr (Json j), u) \<and>
     jr_status_code j = 502 \<and> px_usage_events u = [ue] \<and> px_audit_events u = []"
proof -
  obtain j s' r u where run: "create_message (proxy_app demo_config 0) ''r2'' 5 (JObj demo_request) demo_header
       (demo_proxy (demo_issued 0)) = (Inr (Json j), s')" "jr_status_code j = 200"
    "create_message (with_faults (audit_outage ''OperationalError'') (proxy_app demo_config 0)) ''r2'' 5
       (JObj demo_request) demo_header (demo_proxy (demo_issued 0)) = (r, u)"
    using demo_audit_outage by blast
  from message_records [OF demo_proxy_ok run(1)] run(2) have "\<exists>ue. px_usage_events s' = [ue]"
    by (auto simp: adds_def demo_proxy_def)
  with audit_outage_hides_answers [OF demo_proxy_ok run(1,3)] run(2,3) show ?thesis
    by (auto simp: error_response_PyErr demo_proxy_def)
qed

lemma key_outage_refused:
  assumes "extract_virtual_key header rid = Inr vk" and "ft_get_key f = Some c"
  shows "authenticate_request (faulty_app f cfg now) header rid s = (Inl (PyErr c), s)"
  using assms by (simp add: authenticate_request_def faulty_parts dependency_def bind_value authenticate_def
      faulty_auth_def bind_raise)


end
