(* ===== verification/Spec2Isabelle.thy ===== *)
theory Spec2Isabelle
  imports TokenConcurrency Observability StackProperties StreamAgreement Lifetime ClientHelper Replicas Faults
begin

text \<open>
  A verification library of the Claude Code proxy, the Python program that lets an organisation's
  users call Claude models on Amazon Bedrock with virtual keys.

  The program. A token service (\<open>token_service/\<close>, a Lambda function behind IAM) hands each
  registered user a virtual key, kept in Postgres and cached in DynamoDB. A proxy (\<open>api/\<close>,
  \<open>proxy/\<close>) takes Anthropic messages requests that carry such a key, authenticates, resolves the
  model, applies policies, quotas and a rate limit, translates to the Bedrock Converse API and
  back, and records usage. An admin API manages users, keys, budgets, routes and prices. All of
  them work on the stores of \<open>repositories/\<close>, on the schema of \<open>infra/postgres/schema.py\<close>, in the
  stack that \<open>infra/\<close> describes.

  Theories, in the order they build on each other:

  \<open>Prelude\<close>: sums as results (\<open>bindR\<close>, \<open>mapR\<close>), stateful operations that may raise (\<open>bindM\<close>), Python
  strings and dictionaries. \<open>PyFloat\<close>: IEEE doubles as rationals with rounding to 53 bits.
  \<open>Json\<close>: JSON values and \<open>json.dumps\<close>. \<open>Errors\<close>: \<open>models/errors.py\<close> and the exceptions as values.
  \<open>PyOps\<close>: what the code does to untyped values, with the exceptions Python raises. \<open>Domain\<close>:
  \<open>models/domain.py\<close>, \<open>models/context.py\<close>, times in microseconds.

  \<open>Security\<close>: \<open>security/keys.py\<close> with SHA-256 and Base64 written out, and
  \<open>security/encryption.py\<close>; \<open>KnownAnswers\<close> computes two digests with it. \<open>Stores\<close>: the Postgres repositories over the tables they query, and
  the interface \<open>key_ledger\<close>. \<open>Schema\<close>: the schema as data, the migration, and the proof that the
  ledger's insert is the insert of a row under that schema. \<open>KeyCache\<close>: the DynamoDB cache, with
  the interfaces \<open>dynamodb_table\<close> and \<open>key_cache\<close>, one given by the other.

  \<open>TokenIssue\<close>: \<open>issue_service.py\<close> under the contracts of its stores (\<open>token_issue\<close>);
  \<open>TokenWorld\<close>: the same on the two stores side by side, where the contracts are discharged and
  the invariant of the state is preserved; \<open>TokenHandler\<close>: the Lambda handler, its responses,
  metrics and warnings.

  \<open>Auth\<close>, \<open>Fnmatch\<close> and \<open>ModelResolver\<close>, \<open>PolicyEngine\<close>, \<open>QuotaEngine\<close>, \<open>RateLimiter\<close>: the checks
  of \<open>proxy/\<close>, one theory per module. \<open>RequestBuilder\<close>, \<open>ResponseParser\<close>, \<open>StreamDecoder\<close>:
  \<open>proxy/bedrock_converse/\<close>; \<open>StreamAgreement\<close>: a client that reads the stream, and the comparison of
  what it gets with the response that is not streamed, first for streams in which a start event
  announces every block, as in the repository's tests, then for those the Converse API documents,
  which announces tool-use blocks only. \<open>ApiErrors\<close>, \<open>AuditLogger\<close>: the error responses and the audit events.
  \<open>ProxyRouter\<close>: the handlers over any dependencies; \<open>ProxyApp\<close>: the handlers over the services
  of this library, with an inductive specification of the ways a request ends. There the stores and the
  usage repository answer always; \<open>Faults\<close> lets each of their methods raise and compares the two runs. \<open>Observability\<close>:
  the middleware, the request identifier and the health endpoints, and the messages endpoint
  behind them. \<open>EndToEnd\<close>: one key from the event of the token service to the answer of the
  messages endpoint, and what becomes of it when its user is deactivated. \<open>CountTokens\<close>: the other
  endpoint of the proxy. \<open>ClientHelper\<close>: \<open>scripts/api_key_helper.sh\<close>, which takes the key from the
  token service to the client and keeps it there.

  \<open>AdminApi\<close>: guards, services and endpoints of \<open>api/admin_*.py\<close> and \<open>api/internal_ops.py\<close>;
  \<open>AdminWorld\<close>: the endpoints on the state shared with the token service and the proxy.
  \<open>TokenConcurrency\<close>: calls of the token service as state machines whose steps are single accesses
  to a store, interleaved with each other and with keys being deactivated and caches emptied.
  \<open>Lifetime\<close>: all of it as one transition system, whose steps are those accesses, the two halves of a
  rotation, changes to the users, requests to the proxy and the ends of streams, with the history of the
  proxy's answers for the books; what is proved there holds in every state that is reached, and the administrator's operations are shown to be runs of it.
  \<open>Deployment\<close>: \<open>infra/config.py\<close>, \<open>infra/app.py\<close> and what the constructs decide from them;
  \<open>Replicas\<close>: the rate limiter on the several tasks the stack runs.
  \<open>SecurityGuards\<close>: the aspect that rejects insecure resources; \<open>Constructs\<close>: the constructs and the
  stack of \<open>infra/stack.py\<close> as data; \<open>StackProperties\<close>: what every stack they build satisfies.

  What the lemmas show. For keys: the state invariant, that a key handed out is an active one of
  the caller and opens the proxy, from the token event to the recorded usage, also when calls
  interleave, that a key out of use stays out whatever follows, that revocation closes it and where it
  does not, and that two first requests can leave a user with two keys. For requests:
  that the handler meets its specification, calls Bedrock for a message only after every check and at most as
  often as the limit allows (on each task), and records what it answers, so that usage, audit and the messages
  delivered agree at all times; that counting tokens calls Bedrock too, for any active key; and what is
  answered and recorded when a store fails. For the engines: what they decide, that
  the order of their inputs does not matter, and their bounds. For the translation: which requests
  are built, that messages keep their order, that a response and a stream of events read back as
  what the provider said, and agree. For administration: who may do what. For the deployment: what names,
  data, connections and permissions a stack can have, and that it passes its own guards.

  Conventions. An operation on a state returns a sum of exception and value with the new state.
  Randomness, clocks and elapsed times are arguments; characters are code points below 256, and
  text outside that range is not covered. Recursion is structural or has a measure; no definition
  runs on fuel. The cache is verified under the laws of \<open>dynamodb_table\<close>; the state \<open>World\<close>, on which the
  theorems about the assembled program are stated, holds one table that has them, a map that is
  read and written consistently and never fails. The admin repository, which the repository has
  no code for, is an argument with its laws as conditions (\<open>finds_keys\<close>, \<open>replaces_keys\<close>, \<open>adds_keys\<close>); the latter
  takes a new key under any identifier, where the UUID column of Postgres would refuse those the admin service
  makes by default. The one used in witnesses replaces and adds records as the fake of the
  admin tests does.

  Not modelled: FastAPI and pydantic (routing, payload parsing, \<open>jsonable_encoder\<close>); what the CDK
  and CloudFormation make of the constructs' resources; the stores behind the admin Protocols; interleaving
  inside one request to the proxy or one call of the admin API, other than what \<open>TokenConcurrency\<close>,
  \<open>AdminWorld\<close> and \<open>Lifetime\<close> take apart (a message is one step there, a rotation two); failures of the
  stores in \<open>Lifetime\<close> and \<open>TokenConcurrency\<close>, other than those the stores' own constraints raise; Postgres
  cutting trailing spaces of text that is too long for its column; the deployment script and the tests.
\<close>

end
